theory Spec2Isabelle
  imports Main "HOL-Library.Sublist"
begin

text \<open>
  A preview server receives a tree of files and folders under an id, writes it over a
  copy of a project template, installs the dependencies, builds, and publishes the
  build output: the local-strategy server copies it into a public directory that it
  serves, the remote-strategy server (\<^verbatim>\<open>preview-server.js\<close>) hands it to a hosting
  API. This theory embeds the two create handlers, \<^verbatim>\<open>createPreview\<close>,
  \<^verbatim>\<open>verifyBuildArtifacts\<close> and the clean-up handler as functions on an explicit world,
  and proves what they do to the file tree and in which order they call the outside.
\<close>

section \<open>JavaScript string and array operations used by the preview server\<close>

text \<open>
  Strings are lists of characters. The three operations below are the ones the
  handlers apply to submitted file content: \<^verbatim>\<open>String.prototype.split\<close> with a
  one-character separator, \<^verbatim>\<open>Array.prototype.join\<close> and \<^verbatim>\<open>Array.prototype.slice\<close>
  (negative indices count from the end, both bounds are clamped to the array).
\<close>

definition newline :: char where
  "newline = CHR 0x0A"

definition fence :: string where
  "fence = ''```''"

fun split_on :: "char \<Rightarrow> string \<Rightarrow> string list" where
  "split_on c [] = [[]]"
| "split_on c (x # xs) =
     (if x = c then [] # split_on c xs
      else (case split_on c xs of
              [] \<Rightarrow> [[x]]
            | l # ls \<Rightarrow> (x # l) # ls))"

fun join_with :: "string \<Rightarrow> string list \<Rightarrow> string" where
  "join_with sep [] = []"
| "join_with sep [x] = x"
| "join_with sep (x # y # ys) = x @ sep @ join_with sep (y # ys)"

definition slice :: "int \<Rightarrow> int \<Rightarrow> 'a list \<Rightarrow> 'a list" where
  "slice start stop xs =
     (let n = int (length xs);
          k = (if start < 0 then max (n + start) 0 else min start n);
          f = (if stop < 0 then max (n + stop) 0 else min stop n)
      in take (nat (f - k)) (drop (nat k) xs))"

definition startsWith :: "string \<Rightarrow> string \<Rightarrow> bool" where
  "startsWith s p = (take (length p) s = p)"

fun includes_str :: "string \<Rightarrow> string \<Rightarrow> bool" where
  "includes_str [] p = (p = [])"
| "includes_str (x # xs) p = (take (length p) (x # xs) = p \<or> includes_str xs p)"

text \<open>
  The content that \<^verbatim>\<open>processFile\<close> hands to \<^verbatim>\<open>fs.writeFile\<close> for a file node
  whose content is present (both servers contain the same three lines):
  \<^verbatim>\<open>
    let content = file.content;
    if (typeof content === 'string' && content.startsWith("```")) {
      const lines = content.split("\n");
      content = lines.slice(1, -1).join("\n");
    }
  \<close>
\<close>

definition written_content :: "string \<Rightarrow> string" where
  "written_content content =
     (if startsWith content fence
      then join_with [newline] (slice 1 (- 1) (split_on newline content))
      else content)"

text \<open>A fence-delimiter line is a line that begins with the fence marker.\<close>

definition is_fence_line :: "string \<Rightarrow> bool" where
  "is_fence_line l = startsWith l fence"

section \<open>Paths\<close>

text \<open>
  Both servers build every path with \<^verbatim>\<open>path.join\<close> of Node's POSIX path module.
  \<^verbatim>\<open>normalizeString\<close> is Node's segment normaliser, here on the list of pieces
  between slashes: empty pieces and \<^verbatim>\<open>.\<close> are skipped, \<^verbatim>\<open>..\<close> removes the last
  kept piece unless there is none or it is itself \<^verbatim>\<open>..\<close>, in which case it is
  kept for a relative path and dropped for an absolute one.
\<close>

definition slash :: char where
  "slash = CHR ''/''"

fun normalizeString :: "bool \<Rightarrow> string list \<Rightarrow> string list \<Rightarrow> string list" where
  "normalizeString allowAboveRoot res [] = res"
| "normalizeString allowAboveRoot res (s # ss) =
     (if s = [] \<or> s = ''.'' then normalizeString allowAboveRoot res ss
      else if s = ''..'' then
        (if res \<noteq> [] \<and> last res \<noteq> ''..''
         then normalizeString allowAboveRoot (butlast res) ss
         else if allowAboveRoot
         then normalizeString allowAboveRoot (res @ [''..'']) ss
         else normalizeString allowAboveRoot res ss)
      else normalizeString allowAboveRoot (res @ [s]) ss)"

definition normalize :: "string \<Rightarrow> string" where
  "normalize p =
     (if p = [] then ''.''
      else
        let isAbsolute = (hd p = slash);
            trailingSeparator = (last p = slash);
            body = join_with [slash] (normalizeString (\<not> isAbsolute) [] (split_on slash p))
        in if body = []
           then (if isAbsolute then ''/'' else if trailingSeparator then ''./'' else ''.'')
           else (if isAbsolute then [slash] else []) @ body
                @ (if trailingSeparator then [slash] else []))"

definition path_join :: "string \<Rightarrow> string \<Rightarrow> string" where
  "path_join a b =
     (if a = [] \<and> b = [] then ''.''
      else if a = [] then normalize b
      else if b = [] then normalize a
      else normalize (a @ [slash] @ b))"

definition dirname :: "string \<Rightarrow> string" where
  "dirname p =
     (if p = [] then ''.''
      else
        let hasRoot = (hd p = slash);
            stripped = dropWhile (\<lambda>c. c = slash) (rev (tl p));
            upto = dropWhile (\<lambda>c. c \<noteq> slash) stripped
        in if upto = [] then (if hasRoot then ''/'' else ''.'')
           else if hasRoot \<and> length upto = 1 then ''//''
           else take (length upto) p)"

text \<open>
  The directory entry an absolute path string names: the operating system walks the
  pieces from the root. Every path of the servers starts from \<^verbatim>\<open>__dirname\<close>, which
  is absolute.
\<close>

definition resolve :: "string \<Rightarrow> string list" where
  "resolve p = normalizeString False [] (split_on slash p)"

definition absolute :: "string \<Rightarrow> bool" where
  "absolute p = (p \<noteq> [] \<and> hd p = slash)"

section \<open>The outside world: file tree, external commands, HTTP\<close>

text \<open>
  The servers act on the file system through \<^verbatim>\<open>fs-extra\<close>, run \<^verbatim>\<open>npm\<close> through
  \<^verbatim>\<open>child_process.exec\<close> and (the remote strategy) call a hosting API through
  \<^verbatim>\<open>fetch\<close>. The world is the file tree together with the sequence of calls made so
  far; each call is recorded with its success (for \<^verbatim>\<open>pathExists\<close>: its answer).
  One request is followed from start to end; interleaving with other requests is not
  modelled.
\<close>

datatype entry = Dir | File string

type_synonym tree = "string list \<Rightarrow> entry option"

datatype call =
    EnsureDir string
  | Copy string string
  | WriteFile string string
  | Remove string
  | PathExists string
  | Readdir string
  | ReadFiles string
  | Exec string string
  | Fetch string

datatype event = Event call bool

record world =
  tree :: tree
  trace :: "event list"

text \<open>
  What the program does not decide is a parameter: whether a file-system call fails
  (and with which message and which partial effect), what an external command does to
  the tree and how it ends, and what the hosting API answers. Each answer may depend on
  the whole world, the calls made so far included.

  A command run by \<^verbatim>\<open>child_process.exec\<close> either exits with a status and its
  captured output (\<open>Exited\<close>), or \<^verbatim>\<open>exec\<close> gives up on it (\<open>Aborted\<close>, with the
  message of the error and the standard error captured so far): the shell could not be
  spawned, the command was killed by a signal, or its output exceeded \<^verbatim>\<open>maxBuffer\<close>
  (both servers pass only \<^verbatim>\<open>cwd\<close>, so the default of 1 MiB applies) and
  \<^verbatim>\<open>exec\<close> killed it.
\<close>

datatype io_outcome = Done | Fails string tree

record exec_result =
  exitStatus :: nat
  stdout :: string
  stderr :: string

datatype exec_outcome = Exited exec_result | Aborted string string

datatype http_outcome =
    NetworkError string
  | Response bool string string "(string \<times> string) list option"

record env =
  io_env :: "call \<Rightarrow> world \<Rightarrow> io_outcome"
  exec_env :: "string \<Rightarrow> string \<Rightarrow> world \<Rightarrow> exec_outcome \<times> tree"
  fetch_env :: "string \<Rightarrow> world \<Rightarrow> http_outcome"

text \<open>
  Every \<^verbatim>\<open>throw\<close> and every rejected promise of the sources is a value of
  \<open>error\<close>, one constructor for each origin; \<open>message\<close> is \<^verbatim>\<open>error.message\<close>
  and \<open>error_stderr\<close> is \<^verbatim>\<open>error.stderr\<close>, which only the error of a rejected
  command carries. \<open>ExecError\<close> is the error of a command that exited with a
  status other than 0, \<open>ExecAborted\<close> the error of a command that \<^verbatim>\<open>exec\<close>
  gave up on.
\<close>

datatype error =
    IoError call string
  | ExecError string nat string
  | ExecAborted string string string
  | DistNotFound
  | ArtifactNotFound string
  | TypeError string
  | HttpError string

fun message :: "error \<Rightarrow> string" where
  "message (IoError c m) = m"
| "message (ExecError cmd code err) = ''Command failed: '' @ cmd @ [newline] @ err"
| "message (ExecAborted cmd msg err) = msg"
| "message DistNotFound = ''Build completed but dist folder not found''"
| "message (ArtifactNotFound file) = ''Required build artifact not found: '' @ file"
| "message (TypeError m) = m"
| "message (HttpError m) = m"

fun error_stderr :: "error \<Rightarrow> string option" where
  "error_stderr (ExecError cmd code err) = Some err"
| "error_stderr (ExecAborted cmd msg err) = Some err"
| "error_stderr e = None"

type_synonym 'a io = "world \<Rightarrow> (error + 'a) \<times> world"

definition return :: "'a \<Rightarrow> 'a io" where
  "return x w = (Inr x, w)"

definition throw :: "error \<Rightarrow> 'a io" where
  "throw e w = (Inl e, w)"

definition bind :: "'a io \<Rightarrow> ('a \<Rightarrow> 'b io) \<Rightarrow> 'b io" where
  "bind m f w = (case m w of (Inl e, w') \<Rightarrow> (Inl e, w') | (Inr x, w') \<Rightarrow> f x w')"

subsection \<open>File-system calls\<close>

text \<open>
  The entries a call may change. A successful call has the effect given below; a failed
  call may have changed the entries it touches in any way and leaves all others as they
  were. The effects are those of \<^verbatim>\<open>fs-extra\<close>: \<^verbatim>\<open>ensureDir\<close> creates the directory
  and every missing ancestor; \<^verbatim>\<open>writeFile\<close> creates or replaces the file;
  \<^verbatim>\<open>remove\<close> removes the entry and everything below it, and does nothing when it is
  absent; \<^verbatim>\<open>copy\<close> puts every entry at and below the source at the same place below
  the destination, over what is there; \<^verbatim>\<open>readdir\<close> only reads (its result is only
  logged); \<^verbatim>\<open>pathExists\<close> never fails. When a call fails is the environment's: the
  theorems hold for every environment.
\<close>

fun touches :: "call \<Rightarrow> string list \<Rightarrow> bool" where
  "touches (EnsureDir p) q = prefix q (resolve p)"
| "touches (WriteFile p c) q = (q = resolve p)"
| "touches (Remove p) q = prefix (resolve p) q"
| "touches (Copy s d) q = prefix (resolve d) q"
| "touches c q = False"

definition record_call :: "call \<Rightarrow> bool \<Rightarrow> tree \<Rightarrow> world \<Rightarrow> world" where
  "record_call c ok t w = \<lparr>tree = t, trace = trace w @ [Event c ok]\<rparr>"

definition perform :: "env \<Rightarrow> call \<Rightarrow> (tree \<Rightarrow> tree) \<Rightarrow> unit io" where
  "perform E c effect w =
     (case io_env E c w of
        Done \<Rightarrow> (Inr (), record_call c True (effect (tree w)) w)
      | Fails msg t \<Rightarrow>
          (Inl (IoError c msg),
           record_call c False (\<lambda>q. if touches c q then t q else tree w q) w))"

definition mkdirs :: "string list \<Rightarrow> tree \<Rightarrow> tree" where
  "mkdirs p t = (\<lambda>q. if prefix q p \<and> t q = None then Some Dir else t q)"

definition put_file :: "string list \<Rightarrow> string \<Rightarrow> tree \<Rightarrow> tree" where
  "put_file p c t = t(p \<mapsto> File c)"

definition remove_tree :: "string list \<Rightarrow> tree \<Rightarrow> tree" where
  "remove_tree p t = (\<lambda>q. if prefix p q then None else t q)"

definition copy_tree :: "string list \<Rightarrow> string list \<Rightarrow> tree \<Rightarrow> tree" where
  "copy_tree s d t =
     (\<lambda>q. if prefix d q
          then (case t (s @ drop (length d) q) of Some e \<Rightarrow> Some e | None \<Rightarrow> t q)
          else t q)"

definition ensureDir :: "env \<Rightarrow> string \<Rightarrow> unit io" where
  "ensureDir E p = perform E (EnsureDir p) (mkdirs (resolve p))"

definition writeFile :: "env \<Rightarrow> string \<Rightarrow> string \<Rightarrow> unit io" where
  "writeFile E p c = perform E (WriteFile p c) (put_file (resolve p) c)"

definition remove :: "env \<Rightarrow> string \<Rightarrow> unit io" where
  "remove E p = perform E (Remove p) (remove_tree (resolve p))"

definition copy :: "env \<Rightarrow> string \<Rightarrow> string \<Rightarrow> unit io" where
  "copy E s d = perform E (Copy s d) (copy_tree (resolve s) (resolve d))"

definition readdir :: "env \<Rightarrow> string \<Rightarrow> unit io" where
  "readdir E p = perform E (Readdir p) (\<lambda>t. t)"

definition pathExists :: "string \<Rightarrow> world \<Rightarrow> bool \<times> world" where
  "pathExists p w =
     (let ex = (tree w (resolve p) \<noteq> None)
      in (ex, record_call (PathExists p) ex (tree w) w))"

subsection \<open>External commands\<close>

text \<open>
  \<^verbatim>\<open>execAsync\<close> is \<^verbatim>\<open>promisify(exec)\<close>, called as \<^verbatim>\<open>execAsync(cmd, {cwd})\<close>.
  It resolves with the captured output when the command exits with status 0. It
  rejects when the command exits with another status, with the message
  \<^verbatim>\<open>Command failed:\<close> followed by the command and the captured standard error, and
  when \<^verbatim>\<open>exec\<close> gives up on the command, with the message of that error. The error
  carries the captured standard error in both cases. What the command did to the tree
  is the environment's.
\<close>

definition execAsync :: "env \<Rightarrow> string \<Rightarrow> string \<Rightarrow> exec_result io" where
  "execAsync E cmd cwd w =
     (case exec_env E cmd cwd w of
        (Exited r, t) \<Rightarrow>
          if exitStatus r = 0
          then (Inr r, record_call (Exec cmd cwd) True t w)
          else (Inl (ExecError cmd (exitStatus r) (stderr r)),
                record_call (Exec cmd cwd) False t w)
      | (Aborted msg err, t) \<Rightarrow>
          (Inl (ExecAborted cmd msg err), record_call (Exec cmd cwd) False t w))"

section \<open>The local-strategy server\<close>

text \<open>
  The three directories are \<^verbatim>\<open>path.join(__dirname, ...)\<close>. The directory of the
  server's source file, \<^verbatim>\<open>__dirname\<close>, is the parameter \<open>dir\<close>; Node gives it as an
  absolute path.
\<close>

definition BASE_TEMPLATE_DIR :: "string \<Rightarrow> string" where
  "BASE_TEMPLATE_DIR dir = path_join dir ''template''"

definition PREVIEW_DIR :: "string \<Rightarrow> string" where
  "PREVIEW_DIR dir = path_join dir ''previews''"

definition PUBLIC_DIR :: "string \<Rightarrow> string" where
  "PUBLIC_DIR dir = path_join dir ''public''"

fun verifyBuildArtifacts :: "string \<Rightarrow> string list \<Rightarrow> unit io" where
  "verifyBuildArtifacts buildPath [] w = (Inr (), w)"
| "verifyBuildArtifacts buildPath (file # files) w =
     (case pathExists (path_join buildPath file) w of
        (ex, w') \<Rightarrow>
          if \<not> ex then (Inl (ArtifactNotFound file), w')
          else verifyBuildArtifacts buildPath files w')"

definition requiredFiles :: "string list" where
  "requiredFiles = [''index.html'']"

definition installAdditionalDependencies :: "env \<Rightarrow> string \<Rightarrow> string list \<Rightarrow> unit io" where
  "installAdditionalDependencies E sitePath dependencies =
     bind (execAsync E (''npm install '' @ join_with '' '' dependencies) sitePath)
          (\<lambda>result. return ())"

record preview_result =
  url :: string
  preview_id :: string

text \<open>
  \<^verbatim>\<open>createPreview\<close> lists the site directory, installs the dependencies, runs the
  inner \<^verbatim>\<open>try\<close> block (\<open>build_and_verify\<close>: the build command, the check that
  \<^verbatim>\<open>dist\<close> exists, the verification of the build output; its \<^verbatim>\<open>catch\<close> logs and
  rethrows) and then publishes (\<open>publish\<close>: the statements after the block).
\<close>

definition build_and_verify :: "env \<Rightarrow> string \<Rightarrow> unit io" where
  "build_and_verify E sitePath =
     bind (execAsync E ''npm run build'' sitePath) (\<lambda>buildResult.
     (\<lambda>w. case pathExists (path_join sitePath ''dist'') w of
             (distExists, w') \<Rightarrow>
               if \<not> distExists then (Inl DistNotFound, w')
               else verifyBuildArtifacts (path_join sitePath ''dist'') requiredFiles w'))"

definition publish :: "env \<Rightarrow> string \<Rightarrow> string \<Rightarrow> string \<Rightarrow> preview_result io" where
  "publish E dir sitePath ident =
     (let publicPath = path_join (PUBLIC_DIR dir) ident;
          distPath = path_join sitePath ''dist''
      in bind (ensureDir E publicPath) (\<lambda>u.
         bind (copy E distPath publicPath) (\<lambda>u.
         bind (verifyBuildArtifacts publicPath requiredFiles) (\<lambda>u.
         bind (readdir E publicPath) (\<lambda>publicContents.
         return \<lparr>url = ''/preview/'' @ ident, preview_id = ident\<rparr>)))))"

definition createPreview :: "env \<Rightarrow> string \<Rightarrow> string \<Rightarrow> string \<Rightarrow> preview_result io" where
  "createPreview E dir sitePath ident =
     bind (readdir E sitePath) (\<lambda>dirContents.
     bind (execAsync E ''npm install'' sitePath) (\<lambda>installResult.
     bind (build_and_verify E sitePath) (\<lambda>u.
     publish E dir sitePath ident)))"

subsection \<open>Materialising the submitted file tree\<close>

text \<open>
  A node of the submitted tree is a JSON object with the fields \<^verbatim>\<open>type\<close>,
  \<^verbatim>\<open>path\<close>, \<^verbatim>\<open>content\<close> and \<^verbatim>\<open>children\<close>. Absent or \<^verbatim>\<open>null\<close> content is
  \<open>None\<close>; absent children are the empty list, which the sources treat alike (no
  child is visited). Content is a string, as the interface states.
\<close>

datatype file_node =
  FileNode (node_type: string) (node_path: string)
    (node_content: "string option") (node_children: "file_node list")

text \<open>
  \<^verbatim>\<open>processFile\<close> of the local-strategy server, with the \<^verbatim>\<open>for ... of\<close> loop that
  calls it on a list of nodes (the children of a folder, and the submitted list itself).
  The array \<^verbatim>\<open>createdPaths\<close> is only ever appended to and never read; it is left out.
\<close>

fun processFile :: "env \<Rightarrow> file_node \<Rightarrow> string \<Rightarrow> unit io"
  and processFiles :: "env \<Rightarrow> file_node list \<Rightarrow> string \<Rightarrow> unit io" where
  "processFile E (FileNode ty p c ch) basePath w =
     (let filePath = path_join basePath p
      in if ty = ''folder'' then
           (case ensureDir E filePath w of
              (Inl e, w') \<Rightarrow> (Inl e, w')
            | (Inr u, w') \<Rightarrow> processFiles E ch basePath w')
         else if ty = ''file'' then
           (case ensureDir E (dirname filePath) w of
              (Inl e, w') \<Rightarrow> (Inl e, w')
            | (Inr u, w') \<Rightarrow>
                (case c of
                   Some text \<Rightarrow> writeFile E filePath (written_content text) w'
                 | None \<Rightarrow> writeFile E filePath [] w'))
         else (Inr (), w))"
| "processFiles E [] basePath w = (Inr (), w)"
| "processFiles E (file # files) basePath w =
     (case processFile E file basePath w of
        (Inl e, w') \<Rightarrow> (Inl e, w')
      | (Inr u, w') \<Rightarrow> processFiles E files basePath w')"

subsection \<open>The create handler\<close>

record request =
  req_id :: string
  req_files :: "file_node list"
  req_dependencies :: "string list"

datatype 'a response = Json 'a | Status500 string

text \<open>
  The handler's \<^verbatim>\<open>try\<close> block up to the value of \<^verbatim>\<open>previewResult\<close>, in the three
  parts it is written in: the workspace is created from the template and the submitted
  nodes are written (\<open>materialize\<close>), the extra dependencies are installed when there
  are any (\<open>prepare\<close>), and \<^verbatim>\<open>createPreview\<close> is called. The request's \<^verbatim>\<open>id\<close> is
  a string, so \<^verbatim>\<open>path.join\<close> does not throw and \<^verbatim>\<open>previewPath\<close> and
  \<^verbatim>\<open>publicOutputPath\<close> are assigned before anything can fail.
\<close>

definition materialize :: "env \<Rightarrow> string \<Rightarrow> request \<Rightarrow> unit io" where
  "materialize E dir req =
     (let previewPath = path_join (PREVIEW_DIR dir) (req_id req)
      in bind (ensureDir E previewPath) (\<lambda>u.
         bind (copy E (BASE_TEMPLATE_DIR dir) previewPath) (\<lambda>u.
         processFiles E (req_files req) previewPath)))"

definition prepare :: "env \<Rightarrow> string \<Rightarrow> request \<Rightarrow> unit io" where
  "prepare E dir req =
     (let previewPath = path_join (PREVIEW_DIR dir) (req_id req)
      in bind (materialize E dir req) (\<lambda>u.
         if req_dependencies req \<noteq> []
         then installAdditionalDependencies E previewPath (req_dependencies req)
         else return ()))"

definition create_try :: "env \<Rightarrow> string \<Rightarrow> request \<Rightarrow> preview_result io" where
  "create_try E dir req =
     (let previewPath = path_join (PREVIEW_DIR dir) (req_id req)
      in bind (prepare E dir req) (\<lambda>u.
         createPreview E dir previewPath (req_id req)))"

definition cleanup_guard :: "string \<Rightarrow> string \<Rightarrow> string \<Rightarrow> bool" where
  "cleanup_guard dir previewPath publicOutputPath =
     (previewPath \<noteq> [] \<and> previewPath \<noteq> publicOutputPath
      \<and> \<not> includes_str previewPath (PUBLIC_DIR dir))"

text \<open>
  The two clean-up blocks, after success (wrapped in \<^verbatim>\<open>try\<close>/\<^verbatim>\<open>catch\<close>, after a
  one-second pause that is not modelled) and after an error. A failed removal is
  caught and logged; nothing of it remains but the world it leaves.
\<close>

definition cleanup_after_success :: "env \<Rightarrow> string \<Rightarrow> string \<Rightarrow> string \<Rightarrow> world \<Rightarrow> world" where
  "cleanup_after_success E dir previewPath publicOutputPath w =
     (if cleanup_guard dir previewPath publicOutputPath
      then snd (remove E previewPath w)
      else w)"

definition cleanup_after_error :: "env \<Rightarrow> string \<Rightarrow> string \<Rightarrow> string \<Rightarrow> world \<Rightarrow> world" where
  "cleanup_after_error E dir previewPath publicOutputPath w =
     (if cleanup_guard dir previewPath publicOutputPath
      then snd (remove E previewPath w)
      else w)"

definition create_handler :: "env \<Rightarrow> string \<Rightarrow> request \<Rightarrow> world \<Rightarrow> preview_result response \<times> world" where
  "create_handler E dir req w =
     (let previewPath = path_join (PREVIEW_DIR dir) (req_id req);
          publicOutputPath = path_join (PUBLIC_DIR dir) (req_id req)
      in case create_try E dir req w of
           (Inr previewResult, w') \<Rightarrow>
             (Json previewResult,
              cleanup_after_success E dir previewPath publicOutputPath w')
         | (Inl e, w') \<Rightarrow>
             (Status500 (message e),
              cleanup_after_error E dir previewPath publicOutputPath w'))"

subsection \<open>The public clean-up handler\<close>



section \<open>The remote-strategy server\<close>

text \<open>
  \<^verbatim>\<open>preview-server.js\<close> materialises the tree inline: a folder's children are
  written one level deep as files, whatever their type, and every node that is not a
  folder is written as a file. The content is used without a check that it is present:
  \<^verbatim>\<open>content.startsWith\<close> on absent content throws a \<^verbatim>\<open>TypeError\<close>, after the
  parent directory has been ensured.
\<close>

definition remote_write :: "env \<Rightarrow> string \<Rightarrow> file_node \<Rightarrow> unit io" where
  "remote_write E previewPath file =
     (let filePath = path_join previewPath (node_path file)
      in bind (ensureDir E (dirname filePath)) (\<lambda>u.
         case node_content file of
           None \<Rightarrow> throw (TypeError ''Cannot read properties of undefined (reading 'startsWith')'')
         | Some text \<Rightarrow> writeFile E filePath (written_content text)))"

fun remote_children :: "env \<Rightarrow> string \<Rightarrow> file_node list \<Rightarrow> unit io" where
  "remote_children E previewPath [] w = (Inr (), w)"
| "remote_children E previewPath (childFile # rest) w =
     (case remote_write E previewPath childFile w of
        (Inl e, w') \<Rightarrow> (Inl e, w')
      | (Inr u, w') \<Rightarrow> remote_children E previewPath rest w')"

definition remote_file :: "env \<Rightarrow> string \<Rightarrow> file_node \<Rightarrow> unit io" where
  "remote_file E previewPath file =
     (if node_type file = ''folder''
      then bind (ensureDir E (path_join previewPath (node_path file)))
                (\<lambda>u. remote_children E previewPath (node_children file))
      else remote_write E previewPath file)"

fun remote_files :: "env \<Rightarrow> string \<Rightarrow> file_node list \<Rightarrow> unit io" where
  "remote_files E previewPath [] w = (Inr (), w)"
| "remote_files E previewPath (file # rest) w =
     (case remote_file E previewPath file w of
        (Inl e, w') \<Rightarrow> (Inl e, w')
      | (Inr u, w') \<Rightarrow> remote_files E previewPath rest w')"

text \<open>
  \<^verbatim>\<open>fetch\<close> rejects on a network error and otherwise gives a response: its
  \<^verbatim>\<open>ok\<close> flag, its status in decimal, its body text, and the fields of the body read
  as JSON (\<open>None\<close> when the body is not JSON, where \<^verbatim>\<open>response.json()\<close>
  rejects).
\<close>

record http_response =
  resp_ok :: bool
  resp_status :: string
  resp_text :: string
  resp_json :: "(string \<times> string) list option"

definition fetch :: "env \<Rightarrow> string \<Rightarrow> http_response io" where
  "fetch E u w =
     (case fetch_env E u w of
        NetworkError msg \<Rightarrow> (Inl (HttpError msg), record_call (Fetch u) False (tree w) w)
      | Response okay code txt js \<Rightarrow>
          (Inr \<lparr>resp_ok = okay, resp_status = code, resp_text = txt, resp_json = js\<rparr>,
           record_call (Fetch u) True (tree w) w))"

definition json :: "http_response \<Rightarrow> (string \<times> string) list io" where
  "json r = (case resp_json r of
               None \<Rightarrow> throw (HttpError ''Unexpected token in JSON'')
             | Some js \<Rightarrow> return js)"

definition field :: "(string \<times> string) list \<Rightarrow> string \<Rightarrow> string" where
  "field js k = (case map_of js k of None \<Rightarrow> ''undefined'' | Some v \<Rightarrow> v)"

text \<open>
  \<^verbatim>\<open>getFilesForVercel\<close> only reads the workspace (the required files, the source
  directory, the configuration files) and returns their encoded contents, which go into
  the body of the deployment request. The model keeps that it is called and that it may
  fail; the encoded contents are not represented.
\<close>

definition getFilesForVercel :: "env \<Rightarrow> string \<Rightarrow> unit io" where
  "getFilesForVercel E sitePath = perform E (ReadFiles sitePath) (\<lambda>t. t)"

record deployment_result =
  deployment_url :: string
  deployment_id :: string
  project_id :: string

definition deployToVercel :: "env \<Rightarrow> string \<Rightarrow> deployment_result io" where
  "deployToVercel E sitePath =
     bind (execAsync E ''npm run build'' sitePath) (\<lambda>buildResult.
     bind (fetch E ''https://api.vercel.com/v2/user'') (\<lambda>userResponse.
     bind (if \<not> resp_ok userResponse
           then throw (HttpError (''Invalid token or permissions: '' @ resp_text userResponse))
           else json userResponse) (\<lambda>userData.
     bind (fetch E ''https://api.vercel.com/v9/projects'') (\<lambda>createProjectResponse.
     bind (if \<not> resp_ok createProjectResponse
           then throw (HttpError (''Failed to create project: ''
                  @ resp_status createProjectResponse @ '' '' @ resp_text createProjectResponse))
           else json createProjectResponse) (\<lambda>projectData.
     bind (getFilesForVercel E sitePath) (\<lambda>files.
     bind (fetch E (''https://api.vercel.com/v13/deployments?teamId=''
                    @ (case map_of userData ''teamId'' of None \<Rightarrow> [] | Some t \<Rightarrow> t)))
          (\<lambda>deploymentResponse.
     bind (if \<not> resp_ok deploymentResponse
           then throw (HttpError (''Failed to deploy: ''
                  @ resp_status deploymentResponse @ '' '' @ resp_text deploymentResponse))
           else json deploymentResponse) (\<lambda>deployData.
     return \<lparr>deployment_url = ''https://'' @ field deployData ''url'',
             deployment_id = field deployData ''id'',
             project_id = field projectData ''id''\<rparr>))))))))"

definition remote_materialize :: "env \<Rightarrow> string \<Rightarrow> request \<Rightarrow> unit io" where
  "remote_materialize E dir req =
     (let previewPath = path_join (PREVIEW_DIR dir) (req_id req)
      in bind (ensureDir E previewPath) (\<lambda>u.
         bind (copy E (BASE_TEMPLATE_DIR dir) previewPath) (\<lambda>u.
         remote_files E previewPath (req_files req))))"

definition remote_create_try :: "env \<Rightarrow> string \<Rightarrow> request \<Rightarrow> deployment_result io" where
  "remote_create_try E dir req =
     (let previewPath = path_join (PREVIEW_DIR dir) (req_id req)
      in bind (remote_materialize E dir req) (\<lambda>u.
         bind (execAsync E ''npm install'' previewPath) (\<lambda>installResult.
         bind (if req_dependencies req \<noteq> []
               then installAdditionalDependencies E previewPath (req_dependencies req)
               else return ()) (\<lambda>u.
         deployToVercel E previewPath))))"

text \<open>
  Both removals of the workspace are commented out in this handler: neither the
  success path nor the error path removes anything.
\<close>

definition remote_create_handler :: "env \<Rightarrow> string \<Rightarrow> request \<Rightarrow> world \<Rightarrow> deployment_result response \<times> world" where
  "remote_create_handler E dir req w =
     (case remote_create_try E dir req w of
        (Inr deploymentResult, w') \<Rightarrow> (Json deploymentResult, w')
      | (Inl e, w') \<Rightarrow> (Status500 (message e), w'))"

section \<open>Notions for stating the properties\<close>

text \<open>
  The calls a computation makes when it is run in a world: what it appends to the
  trace. And the order of calls: in a sequence of events, every event that satisfies
  \<open>Q\<close> has an earlier event that satisfies \<open>P\<close>. The calls that write to the file
  tree are \<open>writes\<close>. A computation \<open>appends\<close> when it
  only ever extends the trace, and it makes \<open>only_calls\<close> of a kind when every call it
  makes, from any world, is of that kind.
\<close>

definition run_events :: "(world \<Rightarrow> 'r \<times> world) \<Rightarrow> world \<Rightarrow> event list" where
  "run_events m w = drop (length (trace w)) (trace (snd (m w)))"

definition preceded_by :: "(event \<Rightarrow> bool) \<Rightarrow> (event \<Rightarrow> bool) \<Rightarrow> event list \<Rightarrow> bool" where
  "preceded_by Q P evs \<longleftrightarrow>
     (\<forall>pre e post. evs = pre @ e # post \<and> Q e \<longrightarrow> (\<exists>x \<in> set pre. P x))"

fun writes :: "call \<Rightarrow> bool" where
  "writes (EnsureDir p) = True"
| "writes (Copy s d) = True"
| "writes (WriteFile p c) = True"
| "writes (Remove p) = True"
| "writes c = False"

fun call_of :: "event \<Rightarrow> call" where
  "call_of (Event c ok) = c"

definition appends :: "(world \<Rightarrow> 'r \<times> world) \<Rightarrow> bool" where
  "appends m \<longleftrightarrow> (\<forall>w. prefix (trace w) (trace (snd (m w))))"

definition only_calls :: "(call \<Rightarrow> bool) \<Rightarrow> (world \<Rightarrow> 'r \<times> world) \<Rightarrow> bool" where
  "only_calls P m \<longleftrightarrow> (\<forall>w. \<forall>e \<in> set (run_events m w). P (call_of e))"

text \<open>
  The calls that create or change entries without removing any; and two environments
  that are the same but for the outcome of removals.
\<close>

definition fs_write :: "call \<Rightarrow> bool" where
  "fs_write c \<longleftrightarrow> (\<exists>p. c = EnsureDir p) \<or> (\<exists>p t. c = WriteFile p t) \<or> (\<exists>s d. c = Copy s d)"

definition same_but_removal :: "env \<Rightarrow> env \<Rightarrow> bool" where
  "same_but_removal E E' \<longleftrightarrow>
     exec_env E' = exec_env E \<and> fetch_env E' = fetch_env E
     \<and> (\<forall>c w. (\<forall>p. c \<noteq> Remove p) \<longrightarrow> io_env E' c w = io_env E c w)"

text \<open>
  The first steps of \<^verbatim>\<open>createPreview\<close>, up to the end of the inner \<^verbatim>\<open>try\<close> block
  (all that comes before publishing), up to the end of the install (all that comes
  before the build command) and up to the end of the build command.
\<close>

definition until_verified :: "env \<Rightarrow> string \<Rightarrow> unit io" where
  "until_verified E sitePath =
     bind (readdir E sitePath) (\<lambda>dirContents.
     bind (execAsync E ''npm install'' sitePath) (\<lambda>installResult.
     build_and_verify E sitePath))"

definition until_installed :: "env \<Rightarrow> string \<Rightarrow> exec_result io" where
  "until_installed E sitePath =
     bind (readdir E sitePath) (\<lambda>dirContents.
     execAsync E ''npm install'' sitePath)"

definition until_built :: "env \<Rightarrow> string \<Rightarrow> exec_result io" where
  "until_built E sitePath =
     bind (readdir E sitePath) (\<lambda>dirContents.
     bind (execAsync E ''npm install'' sitePath) (\<lambda>installResult.
     execAsync E ''npm run build'' sitePath))"

text \<open>
  Whether the outcome of a command makes \<^verbatim>\<open>execAsync\<close> resolve, and the error with
  which it rejects otherwise.
\<close>

definition succeeded :: "exec_outcome \<Rightarrow> bool" where
  "succeeded out = (case out of Exited r \<Rightarrow> exitStatus r = 0 | Aborted msg err \<Rightarrow> False)"

definition rejection :: "string \<Rightarrow> exec_outcome \<Rightarrow> error" where
  "rejection cmd out =
     (case out of
        Exited r \<Rightarrow> ExecError cmd (exitStatus r) (stderr r)
      | Aborted msg err \<Rightarrow> ExecAborted cmd msg err)"

text \<open>
  The file-system calls that may change an entry at or below the directory entry \<open>p\<close>:
  the calls that touch such an entry. A command leaves \<open>p\<close> alone in an environment
  when, run in the working directory \<open>cwd\<close>, it never changes an entry at or below
  \<open>p\<close>.
\<close>

fun writes_below :: "string list \<Rightarrow> call \<Rightarrow> bool" where
  "writes_below p (EnsureDir d) = prefix p (resolve d)"
| "writes_below p (WriteFile d c) = prefix p (resolve d)"
| "writes_below p (Copy s d) = (prefix p (resolve d) \<or> prefix (resolve d) p)"
| "writes_below p (Remove d) = (prefix p (resolve d) \<or> prefix (resolve d) p)"
| "writes_below p c = False"

definition commands_leave :: "env \<Rightarrow> string \<Rightarrow> string list \<Rightarrow> bool" where
  "commands_leave E cwd p \<longleftrightarrow>
     (\<forall>cmd w q. prefix p q \<longrightarrow> snd (exec_env E cmd cwd w) q = tree w q)"

text \<open>
  A computation leaves the entry \<open>q\<close> when, run in any world, it ends with the same
  entry (or none) at \<open>q\<close>; and it stays out of the directory entry \<open>pub\<close> when it
  only extends the trace, makes no file-system call that may change an entry at or
  below \<open>pub\<close>, and leaves every entry at and below \<open>pub\<close>.
\<close>

definition leaves :: "string list \<Rightarrow> (world \<Rightarrow> 'r \<times> world) \<Rightarrow> bool" where
  "leaves q m \<longleftrightarrow> (\<forall>w. tree (snd (m w)) q = tree w q)"

definition stays_out :: "string list \<Rightarrow> (world \<Rightarrow> 'r \<times> world) \<Rightarrow> bool" where
  "stays_out pub m \<longleftrightarrow>
     appends m \<and> only_calls (\<lambda>c. \<not> writes_below pub c) m \<and> (\<forall>q. prefix pub q \<longrightarrow> leaves q m)"

text \<open>
  A submitted tree is written outside the directory entry \<open>p\<close> when no node that
  \<^verbatim>\<open>processFile\<close> visits (the children of a node are visited only when it is a
  folder) has a path that, joined to the base path, resolves at or below \<open>p\<close>.
\<close>

fun written_outside :: "string list \<Rightarrow> string \<Rightarrow> file_node \<Rightarrow> bool"
  and all_written_outside :: "string list \<Rightarrow> string \<Rightarrow> file_node list \<Rightarrow> bool" where
  "written_outside pub basePath (FileNode ty p c ch) =
     (if ty = ''folder''
      then \<not> prefix pub (resolve (path_join basePath p)) \<and> all_written_outside pub basePath ch
      else if ty = ''file''
      then \<not> prefix pub (resolve (path_join basePath p))
      else True)"
| "all_written_outside pub basePath [] = True"
| "all_written_outside pub basePath (file # files) =
     (written_outside pub basePath file \<and> all_written_outside pub basePath files)"

section \<open>A concrete server directory, environment and requests\<close>

text \<open>
  The server directory \<^verbatim>\<open>/app\<close>; an environment in which every file-system call
  succeeds, every command exits with status 0, the build command writes
  \<^verbatim>\<open>dist/index.html\<close> under its working directory, and the hosting API accepts every
  request; and the world at start-up, with the three directories the server ensures.
\<close>

definition example_dir :: string where
  "example_dir = ''/app''"

definition example_exec :: "string \<Rightarrow> string \<Rightarrow> world \<Rightarrow> exec_outcome \<times> tree" where
  "example_exec cmd cwd w =
     (Exited \<lparr>exitStatus = 0, stdout = [], stderr = []\<rparr>,
      if cmd = ''npm run build''
      then put_file (resolve (path_join (path_join cwd ''dist'') ''index.html'')) ''<html></html>''
             (mkdirs (resolve (path_join cwd ''dist'')) (tree w))
      else tree w)"

definition example_env :: env where
  "example_env =
     \<lparr>io_env = (\<lambda>c w. Done),
      exec_env = example_exec,
      fetch_env = (\<lambda>u w. Response True ''200'' ''{}''
                     (Some [(''id'', ''id_1''), (''url'', ''preview.example.app'')]))\<rparr>"

definition example_tree :: tree where
  "example_tree =
     (\<lambda>q. if q \<in> {[], [''app''], [''app'', ''template''], [''app'', ''previews''],
                    [''app'', ''public'']}
          then Some Dir
          else if q = [''app'', ''template'', ''package.json''] then Some (File ''{}'')
          else None)"

definition example_world :: world where
  "example_world = \<lparr>tree = example_tree, trace = []\<rparr>"

text \<open>The scenario of the specification: one fenced source file, no extra dependency.\<close>

definition scenario_content :: string where
  "scenario_content =
     ''```'' @ [newline] @ ''export default function App(){return null}'' @ [newline] @ ''```''"

definition scenario_request :: request where
  "scenario_request =
     \<lparr>req_id = ''abc123'',
      req_files = [FileNode ''file'' ''src/App.tsx'' (Some scenario_content) []],
      req_dependencies = []\<rparr>"

text \<open>
  A request whose id makes the workspace path contain the public root, a request with
  two extra dependencies, and an environment in which every removal fails.
\<close>

definition substring_request :: request where
  "substring_request = \<lparr>req_id = ''demo/app/public'', req_files = [], req_dependencies = []\<rparr>"

definition dependencies_request :: request where
  "dependencies_request =
     \<lparr>req_id = ''abc123'',
      req_files = [FileNode ''file'' ''src/App.tsx'' (Some scenario_content) []],
      req_dependencies = [''lodash'', ''axios'']\<rparr>"

definition removal_fails_env :: env where
  "removal_fails_env =
     example_env\<lparr>io_env := (\<lambda>c w. case c of Remove p \<Rightarrow> Fails ''EBUSY'' (tree w) | _ \<Rightarrow> Done)\<rparr>"

text \<open>
  Environments in which the build goes wrong: the build command exits with status 1;
  it exits with status 0 and writes nothing; it exits with status 0 and creates
  \<^verbatim>\<open>dist\<close> without \<^verbatim>\<open>index.html\<close> in it; it exits with status 0 and writes
  a regular file named \<^verbatim>\<open>dist\<close>; it prints more than \<^verbatim>\<open>maxBuffer\<close> allows and
  is given up on.
\<close>

definition dist_file_env :: env where
  "dist_file_env =
     example_env\<lparr>exec_env := (\<lambda>cmd cwd w.
        (Exited \<lparr>exitStatus = 0, stdout = [], stderr = []\<rparr>,
         if cmd = ''npm run build''
         then put_file (resolve (path_join cwd ''dist'')) ''bundle'' (tree w)
         else tree w))\<rparr>"

definition build_aborted_env :: env where
  "build_aborted_env =
     example_env\<lparr>exec_env := (\<lambda>cmd cwd w.
        if cmd = ''npm run build''
        then (Aborted ''stdout maxBuffer length exceeded'' [], tree w)
        else (Exited \<lparr>exitStatus = 0, stdout = [], stderr = []\<rparr>, tree w))\<rparr>"

definition build_fails_env :: env where
  "build_fails_env =
     example_env\<lparr>exec_env := (\<lambda>cmd cwd w.
        if cmd = ''npm run build''
        then (Exited \<lparr>exitStatus = 1, stdout = [], stderr = ''error TS2304''\<rparr>, tree w)
        else (Exited \<lparr>exitStatus = 0, stdout = [], stderr = []\<rparr>, tree w))\<rparr>"

definition no_dist_env :: env where
  "no_dist_env =
     example_env\<lparr>exec_env := (\<lambda>cmd cwd w.
        (Exited \<lparr>exitStatus = 0, stdout = [], stderr = []\<rparr>, tree w))\<rparr>"

definition no_index_env :: env where
  "no_index_env =
     example_env\<lparr>exec_env := (\<lambda>cmd cwd w.
        (Exited \<lparr>exitStatus = 0, stdout = [], stderr = []\<rparr>,
         if cmd = ''npm run build''
         then mkdirs (resolve (path_join cwd ''dist'')) (tree w)
         else tree w))\<rparr>"


text \<open>
  Submitted contents that begin with the fence marker but are not a fenced block of the
  expected shape: one without a closing fence line, one that ends with a newline after
  the closing fence line; and a request whose only file node has no content.
\<close>

definition unclosed_content :: string where
  "unclosed_content = ''```js'' @ [newline] @ ''const a = 1;'' @ [newline] @ ''const b = 2;''"

definition trailing_newline_content :: string where
  "trailing_newline_content = ''```tsx'' @ [newline] @ ''const a = 1;'' @ [newline] @ ''```'' @ [newline]"

definition trailing_newline_request :: request where
  "trailing_newline_request =
     \<lparr>req_id = ''abc123'',
      req_files = [FileNode ''file'' ''src/main.tsx'' (Some trailing_newline_content) []],
      req_dependencies = []\<rparr>"

definition absent_content_request :: request where
  "absent_content_request =
     \<lparr>req_id = ''abc123'',
      req_files = [FileNode ''file'' ''README.md'' None []],
      req_dependencies = []\<rparr>"

text \<open>
  Two requests that leave the workspace: one whose only file node has a path that
  climbs out of the workspace into the public directory of the id, and one whose id
  climbs out of \<^verbatim>\<open>previews\<close> into \<^verbatim>\<open>public\<close>.
\<close>

definition climbing_file_request :: request where
  "climbing_file_request =
     \<lparr>req_id = ''abc123'',
      req_files = [FileNode ''file'' ''../../public/abc123/index.html'' (Some ''<h1>unbuilt</h1>'') []],
      req_dependencies = []\<rparr>"

definition climbing_id_request :: request where
  "climbing_id_request = \<lparr>req_id = ''../public/abc123'', req_files = [], req_dependencies = []\<rparr>"

section \<open>Properties\<close>

subsection \<open>Facts about splitting and joining\<close>

lemma split_on_not_Nil: "split_on c s \<noteq> []"
  by (induction s) (auto split: list.splits)

lemma split_on_no_sep: "c \<notin> set s \<Longrightarrow> split_on c s = [s]"
  by (induction s) auto

lemma split_on_append_sep:
  "split_on c (a @ c # b) = split_on c a @ split_on c b"
proof (induction a)
  case Nil
  show ?case by simp
next
  case (Cons x a)
  obtain l ls where ls: "split_on c a = l # ls"
    using split_on_not_Nil [of c a] by (cases "split_on c a") auto
  with Cons show ?case by simp
qed

lemma split_on_pieces: "l \<in> set (split_on c s) \<Longrightarrow> c \<notin> set l"
proof (induction s arbitrary: l)
  case Nil
  then show ?case by simp
next
  case (Cons x s)
  obtain k ks where ks: "split_on c s = k # ks"
    using split_on_not_Nil [of c s] by (cases "split_on c s") auto
  show ?case
  proof (cases "x = c")
    case True
    with Cons show ?thesis by auto
  next
    case False
    with Cons.prems ks have "l = x # k \<or> l \<in> set ks" by simp
    then show ?thesis
    proof
      assume "l = x # k"
      moreover have "c \<notin> set k" using Cons.IH [of k] ks by simp
      ultimately show ?thesis using False by simp
    next
      assume "l \<in> set ks"
      then show ?thesis using Cons.IH [of l] ks by simp
    qed
  qed
qed

lemma join_split_on: "join_with [c] (split_on c s) = s"
proof (induction s)
  case Nil
  show ?case by simp
next
  case (Cons x s)
  obtain l ls where ls: "split_on c s = l # ls"
    using split_on_not_Nil [of c s] by (cases "split_on c s") auto
  show ?case
  proof (cases "x = c")
    case True
    with Cons ls show ?thesis by simp
  next
    case False
    with Cons ls show ?thesis by (cases ls) auto
  qed
qed

lemma slice_1_minus_1: "slice 1 (- 1) xs = butlast (tl xs)"
proof (cases xs)
  case Nil
  then show ?thesis by (simp add: slice_def)
next
  case (Cons x ys)
  have "take (length ys - 1) ys = butlast ys"
    by (simp add: butlast_conv_take)
  with Cons show ?thesis
    by (simp add: slice_def Let_def nat_diff_distrib' max_def min_def)
qed

lemma written_content_lines:
  "startsWith content fence \<Longrightarrow>
   written_content content = join_with [newline] (butlast (tl (split_on newline content)))"
  by (simp add: written_content_def slice_1_minus_1)

lemma written_content_verbatim:
  "\<not> startsWith content fence \<Longrightarrow> written_content content = content"
  by (simp add: written_content_def)

lemma startsWith_append: "startsWith a p \<Longrightarrow> startsWith (a @ b) p"
  by (auto simp: startsWith_def dest: arg_cong [where f = length])

lemma split_on_three:
  assumes "c \<notin> set first" "c \<notin> set lastl"
  shows "split_on c (first @ c # body @ c # lastl) = first # split_on c body @ [lastl]"
  using assms by (simp add: split_on_append_sep split_on_no_sep)

lemma written_content_wrapped:
  assumes "startsWith first fence" "newline \<notin> set first" "newline \<notin> set lastl"
  shows "written_content (first @ newline # body @ newline # lastl) = body"
proof -
  have "startsWith (first @ newline # body @ newline # lastl) fence"
    using assms(1) by (rule startsWith_append)
  then show ?thesis
    using assms(2,3) by (simp add: written_content_lines split_on_three join_split_on)
qed

subsection \<open>File-system calls and the written file\<close>


lemma tree_record_call [simp]: "tree (record_call c b t w) = t"
  by (simp add: record_call_def)

lemma trace_record_call [simp]: "trace (record_call c b t w) = trace w @ [Event c b]"
  by (simp add: record_call_def)

lemma perform_Done:
  "io_env E c w = Done \<Longrightarrow> perform E c eff w = (Inr (), record_call c True (eff (tree w)) w)"
  by (simp add: perform_def)

lemma processFile_file_Done:
  assumes "\<And>w'. io_env E (EnsureDir (dirname (path_join base p))) w' = Done"
    and "\<And>w'. io_env E (WriteFile (path_join base p) txt) w' = Done"
    and "txt = (case c of Some text \<Rightarrow> written_content text | None \<Rightarrow> [])"
  shows "fst (processFile E (FileNode ''file'' p c ch) base w) = Inr ()"
    and "tree (snd (processFile E (FileNode ''file'' p c ch) base w)) (resolve (path_join base p))
         = Some (File txt)"
  using assms
  by (auto simp: Let_def ensureDir_def writeFile_def perform_Done put_file_def split: option.splits)

lemma remote_write_Done:
  assumes "\<And>w'. io_env E (EnsureDir (dirname (path_join base p))) w' = Done"
    and "\<And>w'. io_env E (WriteFile (path_join base p) (written_content text)) w' = Done"
  shows "fst (remote_write E base (FileNode ty p (Some text) ch) w) = Inr ()"
    and "tree (snd (remote_write E base (FileNode ty p (Some text) ch) w)) (resolve (path_join base p))
         = Some (File (written_content text))"
  using assms
  by (auto simp: Let_def remote_write_def bind_def ensureDir_def writeFile_def perform_Done put_file_def split: option.splits)


lemma startsWith_before_sep:
  assumes "startsWith (a @ c # b) p" and "c \<notin> set p"
  shows "startsWith a p"
proof (cases "length p \<le> length a")
  case True
  then show ?thesis using assms(1) by (simp add: startsWith_def)
next
  case False
  then have "take (length p) (a @ c # b) = a @ c # take (length p - Suc (length a)) b"
    by (simp add: take_Cons' Suc_diff_le not_le)
  with assms(1) have "c \<in> set p"
    by (metis in_set_conv_decomp startsWith_def)
  with assms(2) show ?thesis by simp
qed

lemma newline_notin_fence: "newline \<notin> set fence"
  by (simp add: fence_def newline_def)

subsection \<open>Fence stripping\<close>

text \<open>
  Claim C10. Whenever the content of a file node begins with the fence marker, the
  written content is the content split on newlines without its first and its last
  piece, joined by newlines again, in both servers (the calls that ensure the parent
  directory and write the file succeeding). So when the content ends with a newline
  after the closing fence line, only the empty last piece goes and the closing fence
  line is written to disk; and when the last line is not a fence line at all, that line
  is lost.
\<close>

theorem fence_drops_first_and_last_line:
  assumes "startsWith content fence"
    and "\<And>w'. io_env E (EnsureDir (dirname (path_join base p))) w' = Done"
    and "\<And>w'. io_env E (WriteFile (path_join base p) (written_content content)) w' = Done"
  shows "tree (snd (processFile E (FileNode ''file'' p (Some content) ch) base w))
           (resolve (path_join base p)) = Some (File (written_content content))
       \<and> tree (snd (remote_write E base (FileNode ty p (Some content) ch) w))
           (resolve (path_join base p)) = Some (File (written_content content))
       \<and> written_content content = join_with [newline] (butlast (tl (split_on newline content)))
       \<and> (\<forall>first body closing.
             content = first @ newline # body @ newline # closing @ [newline]
             \<and> newline \<notin> set first \<and> newline \<notin> set closing \<and> is_fence_line closing
             \<longrightarrow> written_content content = body @ newline # closing)
       \<and> (\<forall>first body lastl.
             content = first @ newline # body @ newline # lastl
             \<and> newline \<notin> set first \<and> newline \<notin> set lastl \<and> \<not> is_fence_line lastl
             \<longrightarrow> written_content content = body)"
proof (intro conjI allI impI)
  show "tree (snd (processFile E (FileNode ''file'' p (Some content) ch) base w))
           (resolve (path_join base p)) = Some (File (written_content content))"
  proof (rule processFile_file_Done(2))
    show "written_content content = (case Some content of Some t \<Rightarrow> written_content t | None \<Rightarrow> [])"
      by simp
  qed (rule assms(2), rule assms(3))
  show "tree (snd (remote_write E base (FileNode ty p (Some content) ch) w))
           (resolve (path_join base p)) = Some (File (written_content content))"
    by (rule remote_write_Done(2)) (rule assms(2), rule assms(3))
  show "written_content content = join_with [newline] (butlast (tl (split_on newline content)))"
    using assms(1) by (rule written_content_lines)
next
  fix first body closing
  assume a: "content = first @ newline # body @ newline # closing @ [newline]
             \<and> newline \<notin> set first \<and> newline \<notin> set closing \<and> is_fence_line closing"
  have sw: "startsWith first fence"
    using assms(1) a startsWith_before_sep [OF _ newline_notin_fence] by blast
  have "written_content (first @ newline # (body @ newline # closing) @ newline # []) = body @ newline # closing"
    using sw a by (intro written_content_wrapped) auto
  then show "written_content content = body @ newline # closing"
    using a by simp
next
  fix first body lastl
  assume a: "content = first @ newline # body @ newline # lastl
             \<and> newline \<notin> set first \<and> newline \<notin> set lastl \<and> \<not> is_fence_line lastl"
  have sw: "startsWith first fence"
    using assms(1) a startsWith_before_sep [OF _ newline_notin_fence] by blast
  show "written_content content = body"
    using sw a written_content_wrapped by blast
qed

theorem fence_drops_first_and_last_line_witness:
  "startsWith unclosed_content fence
   \<and> tree (snd (processFile example_env (FileNode ''file'' ''a.js'' (Some unclosed_content) [])
                  ''/app/previews/abc123'' example_world))
        (resolve (path_join ''/app/previews/abc123'' ''a.js'')) = Some (File ''const a = 1;'')"
proof -
  have h1: "startsWith unclosed_content fence"
    by (simp add: unclosed_content_def startsWith_def fence_def)
  have h2: "\<And>c w'. io_env example_env c w' = Done"
    by (simp add: example_env_def)
  have h3: "unclosed_content = ''```js'' @ newline # ''const a = 1;'' @ newline # ''const b = 2;''
            \<and> newline \<notin> set ''```js'' \<and> newline \<notin> set ''const b = 2;'' \<and> \<not> is_fence_line ''const b = 2;''"
    by (simp add: unclosed_content_def newline_def is_fence_line_def startsWith_def fence_def)
  from fence_drops_first_and_last_line [OF h1 h2 h2, where base = "''/app/previews/abc123''" and p = "''a.js''" and ch = "[]" and w = example_world]
  show ?thesis using h1 h3 by metis
qed


text \<open>
  Claim C2 says that a file whose content begins with the fence marker is written as
  the content with one leading and one trailing fence-delimiter line removed. The
  content of the request below ends with a newline after its closing fence line, as the
  lines of a text file do. Both servers test \<^verbatim>\<open>startsWith\<close> and then drop the first
  and the last piece between newlines, here the opening fence line and the empty piece
  after the final newline: the file they write ends with the closing fence line.
\<close>

theorem closing_fence_written:
  "startsWith trailing_newline_content fence
   \<and> split_on newline trailing_newline_content = [''```tsx'', ''const a = 1;'', ''```'', []]
   \<and> tree (snd (materialize example_env example_dir trailing_newline_request example_world))
        [''app'', ''previews'', ''abc123'', ''src'', ''main.tsx'']
       = Some (File (''const a = 1;'' @ [newline] @ ''```''))
   \<and> tree (snd (remote_materialize example_env example_dir trailing_newline_request example_world))
        [''app'', ''previews'', ''abc123'', ''src'', ''main.tsx'']
       = Some (File (''const a = 1;'' @ [newline] @ ''```''))
   \<and> is_fence_line (last (split_on newline (''const a = 1;'' @ [newline] @ ''```'')))"
  by code_simp

subsection \<open>Absent content\<close>

text \<open>
  Claim C7 says that a file node without content is materialised as a zero-length
  file, without error. \<^verbatim>\<open>processFile\<close> of the local-strategy server does that
  (\<open>processFile_file_Done\<close> with \<open>c = None\<close>). The remote-strategy server does
  not: on the request below it ensures the parent directory, throws the
  \<^verbatim>\<open>TypeError\<close> of \<^verbatim>\<open>content.startsWith\<close>, writes no file and answers with status
  500, where the local-strategy loop on the same nodes writes the empty file.
\<close>

theorem absent_content_remote_fails:
  "fst (remote_create_handler example_env example_dir absent_content_request example_world)
     = Status500 ''Cannot read properties of undefined (reading 'startsWith')''
   \<and> tree (snd (remote_create_handler example_env example_dir absent_content_request example_world))
        [''app'', ''previews'', ''abc123'', ''README.md''] = None
   \<and> fst (processFiles example_env (req_files absent_content_request)
             ''/app/previews/abc123'' example_world) = Inr ()
   \<and> tree (snd (processFiles example_env (req_files absent_content_request)
                  ''/app/previews/abc123'' example_world))
        [''app'', ''previews'', ''abc123'', ''README.md''] = Some (File [])"
  by code_simp

subsection \<open>Traces\<close>

lemma appendsI: "(\<And>w. \<exists>evs. trace (snd (m w)) = trace w @ evs) \<Longrightarrow> appends m"
  by (auto simp: appends_def prefix_def)

lemma appends_trace: "appends m \<Longrightarrow> trace (snd (m w)) = trace w @ run_events m w"
proof -
  assume "appends m"
  then obtain evs where "trace (snd (m w)) = trace w @ evs"
    by (auto simp: appends_def prefix_def)
  then show ?thesis by (simp add: run_events_def)
qed

lemma run_eventsI: "trace (snd (m w)) = trace w @ evs \<Longrightarrow> run_events m w = evs"
  by (simp add: run_events_def)

lemma perform_result:
  "perform E c eff w =
     (if io_env E c w = Done then Inr ()
      else Inl (IoError c (case io_env E c w of Fails msg t \<Rightarrow> msg | Done \<Rightarrow> [])),
      record_call c (io_env E c w = Done)
        (case io_env E c w of
           Done \<Rightarrow> eff (tree w)
         | Fails msg t \<Rightarrow> (\<lambda>q. if touches c q then t q else tree w q)) w)"
  by (simp add: perform_def split: io_outcome.splits)

lemma trace_perform: "trace (snd (perform E c eff w)) = trace w @ [Event c (io_env E c w = Done)]"
  by (simp add: perform_result)

lemma trace_execAsync:
  "trace (snd (execAsync E cmd cwd w))
   = trace w @ [Event (Exec cmd cwd) (succeeded (fst (exec_env E cmd cwd w)))]"
  by (simp add: execAsync_def succeeded_def split: prod.splits exec_outcome.splits)

lemma trace_pathExists:
  "trace (snd (pathExists p w)) = trace w @ [Event (PathExists p) (tree w (resolve p) \<noteq> None)]"
  by (simp add: pathExists_def Let_def)

lemma appends_perform [simp]: "appends (perform E c eff)"
  by (rule appendsI) (simp add: trace_perform)

lemma appends_execAsync [simp]: "appends (execAsync E cmd cwd)"
  by (rule appendsI) (simp add: trace_execAsync)

lemma appends_pathExists [simp]: "appends (pathExists p)"
  by (rule appendsI) (simp add: trace_pathExists)

lemma appends_return [simp]: "appends (return x)"
  by (rule appendsI) (simp add: return_def)

lemma appends_throw [simp]: "appends (throw e)"
  by (rule appendsI) (simp add: throw_def)

lemma appends_bind [simp]:
  assumes "appends m" and "\<And>x. appends (f x)"
  shows "appends (bind m f)"
proof (rule appendsI)
  fix w
  obtain r w' where mw: "m w = (r, w')" by (cases "m w")
  have t1: "trace w' = trace w @ run_events m w"
    using appends_trace [OF assms(1), of w] mw by simp
  show "\<exists>evs. trace (snd (bind m f w)) = trace w @ evs"
  proof (cases r)
    case (Inl e)
    with mw t1 show ?thesis by (simp add: bind_def)
  next
    case (Inr x)
    have "trace (snd (f x w')) = trace w' @ run_events (f x) w'"
      using appends_trace [OF assms(2)] .
    with Inr mw t1 show ?thesis by (simp add: bind_def)
  qed
qed

lemma run_events_bind:
  assumes "appends m" and "\<And>x. appends (f x)"
  shows "run_events (bind m f) w
         = run_events m w @ (case m w of (Inl e, w') \<Rightarrow> [] | (Inr x, w') \<Rightarrow> run_events (f x) w')"
proof -
  obtain r w' where mw: "m w = (r, w')" by (cases "m w")
  have t1: "trace w' = trace w @ run_events m w"
    using appends_trace [OF assms(1), of w] mw by simp
  show ?thesis
  proof (cases r)
    case (Inl e)
    with mw t1 show ?thesis by (simp add: bind_def run_events_def)
  next
    case (Inr x)
    have "trace (snd (f x w')) = trace w' @ run_events (f x) w'"
      using appends_trace [OF assms(2)] .
    with Inr mw t1 show ?thesis
      by (intro run_eventsI) (simp add: bind_def)
  qed
qed

lemma run_events_perform [simp]:
  "run_events (perform E c eff) w = [Event c (io_env E c w = Done)]"
  by (rule run_eventsI) (simp add: trace_perform)

lemma run_events_execAsync [simp]:
  "run_events (execAsync E cmd cwd) w
   = [Event (Exec cmd cwd) (succeeded (fst (exec_env E cmd cwd w)))]"
  by (rule run_eventsI) (simp add: trace_execAsync)

lemma run_events_pathExists [simp]:
  "run_events (pathExists p) w = [Event (PathExists p) (tree w (resolve p) \<noteq> None)]"
  by (rule run_eventsI) (simp add: trace_pathExists)

lemma run_events_return [simp]: "run_events (return x) w = []"
  by (simp add: run_events_def return_def)

lemma run_events_throw [simp]: "run_events (throw e) w = []"
  by (simp add: run_events_def throw_def)

lemma only_calls_bind:
  assumes "appends m" and "\<And>x. appends (f x)"
    and "only_calls P m" and "\<And>x. only_calls P (f x)"
  shows "only_calls P (bind m f)"
  unfolding only_calls_def
proof (intro allI ballI)
  fix w e
  assume "e \<in> set (run_events (bind m f) w)"
  then have "e \<in> set (run_events m w)
      \<or> (\<exists>x w'. m w = (Inr x, w') \<and> e \<in> set (run_events (f x) w'))"
    by (auto simp: run_events_bind [OF assms(1,2)] split: prod.splits sum.splits)
  then show "P (call_of e)"
    using assms(3,4) by (auto simp: only_calls_def)
qed

lemma only_calls_perform: "P c \<Longrightarrow> only_calls P (perform E c eff)"
  by (simp add: only_calls_def)

lemma only_calls_execAsync: "P (Exec cmd cwd) \<Longrightarrow> only_calls P (execAsync E cmd cwd)"
  by (simp add: only_calls_def)

lemma only_calls_return: "only_calls P (return x)"
  by (simp add: only_calls_def)

lemma only_calls_throw: "only_calls P (throw e)"
  by (simp add: only_calls_def)

subsection \<open>Order of events\<close>

lemma preceded_by_none: "\<forall>e \<in> set evs. \<not> Q e \<Longrightarrow> preceded_by Q P evs"
  by (auto simp: preceded_by_def)

lemma preceded_by_append:
  assumes "preceded_by Q P xs" and "(\<exists>x \<in> set xs. P x) \<or> preceded_by Q P ys"
  shows "preceded_by Q P (xs @ ys)"
  unfolding preceded_by_def
proof (intro allI impI)
  fix pre e post
  assume a: "xs @ ys = pre @ e # post \<and> Q e"
  then consider us where "xs = pre @ us" "us @ ys = e # post"
    | us where "xs @ us = pre" "ys = us @ e # post"
    by (auto simp: append_eq_append_conv2)
  then show "\<exists>x \<in> set pre. P x"
  proof cases
    case 1
    show ?thesis
    proof (cases us)
      case Nil
      with 1 have p: "pre = xs" and y: "ys = [] @ e # post" by auto
      have "\<not> preceded_by Q P ys"
      proof
        assume "preceded_by Q P ys"
        with y a have "\<exists>x \<in> set []. P x"
          unfolding preceded_by_def by blast
        then show False by simp
      qed
      with assms(2) p show ?thesis by auto
    next
      case (Cons u us')
      with 1 have "xs = pre @ e # us'" by simp
      with assms(1) a show ?thesis by (auto simp: preceded_by_def)
    qed
  next
    case 2
    from assms(2) show ?thesis
    proof
      assume "\<exists>x \<in> set xs. P x"
      with 2 show ?thesis by auto
    next
      assume "preceded_by Q P ys"
      with 2 a have "\<exists>x \<in> set us. P x" by (auto simp: preceded_by_def)
      with 2 show ?thesis by auto
    qed
  qed
qed

subsection \<open>Sequencing\<close>

lemma bind_Inr_iff:
  "bind m f w = (Inr y, w'') \<longleftrightarrow> (\<exists>x w'. m w = (Inr x, w') \<and> f x w' = (Inr y, w''))"
  by (auto simp: bind_def split: prod.splits sum.splits)

lemma bind_Inr: "m w = (Inr x, w') \<Longrightarrow> bind m f w = f x w'"
  by (simp add: bind_def)

lemma bind_assoc: "bind (bind m f) g = bind m (\<lambda>x. bind (f x) g)"
  by (rule ext) (simp add: bind_def split: prod.splits sum.splits)

lemma perform_Inr_iff:
  "perform E c eff w = (Inr u, w') \<longleftrightarrow>
     io_env E c w = Done \<and> w' = record_call c True (eff (tree w)) w"
  by (auto simp: perform_def split: io_outcome.splits)

lemma execAsync_Inr_iff:
  "execAsync E cmd cwd w = (Inr r, w') \<longleftrightarrow>
     exitStatus r = 0
     \<and> (\<exists>t. exec_env E cmd cwd w = (Exited r, t) \<and> w' = record_call (Exec cmd cwd) True t w)"
  by (auto simp: execAsync_def split: prod.splits exec_outcome.splits)

lemma succeeded_simps [simp]:
  "succeeded (Exited r) \<longleftrightarrow> exitStatus r = 0" "\<not> succeeded (Aborted msg err)"
  by (simp_all add: succeeded_def)

lemma rejection_simps [simp]:
  "rejection cmd (Exited r) = ExecError cmd (exitStatus r) (stderr r)"
  "rejection cmd (Aborted msg err) = ExecAborted cmd msg err"
  by (simp_all add: rejection_def)

lemma execAsync_rejects:
  assumes "exec_env E cmd cwd w = (out, t)" and "\<not> succeeded out"
  shows "execAsync E cmd cwd w = (Inl (rejection cmd out), record_call (Exec cmd cwd) False t w)"
  using assms by (cases out) (simp_all add: execAsync_def)

lemma execAsync_resolves:
  assumes "exec_env E cmd cwd w = (out, t)" and "succeeded out"
  shows "\<exists>r. out = Exited r \<and> exitStatus r = 0
             \<and> execAsync E cmd cwd w = (Inr r, record_call (Exec cmd cwd) True t w)"
  using assms by (cases out) (simp_all add: execAsync_def)

subsection \<open>Artifact verification and the build block\<close>

lemma pathExists_eq:
  "pathExists p w = (tree w (resolve p) \<noteq> None,
                     record_call (PathExists p) (tree w (resolve p) \<noteq> None) (tree w) w)"
  by (simp add: pathExists_def Let_def)

lemma verify_required:
  "verifyBuildArtifacts buildPath requiredFiles w =
     (if tree w (resolve (path_join buildPath ''index.html'')) \<noteq> None
      then (Inr (), record_call (PathExists (path_join buildPath ''index.html'')) True (tree w) w)
      else (Inl (ArtifactNotFound ''index.html''),
            record_call (PathExists (path_join buildPath ''index.html'')) False (tree w) w))"
  by (simp add: requiredFiles_def pathExists_eq)

lemma appends_verify [simp]: "appends (verifyBuildArtifacts buildPath requiredFiles)"
  by (rule appendsI) (simp add: verify_required)

lemma run_events_verify [simp]:
  "run_events (verifyBuildArtifacts buildPath requiredFiles) w
   = [Event (PathExists (path_join buildPath ''index.html''))
        (tree w (resolve (path_join buildPath ''index.html'')) \<noteq> None)]"
  by (rule run_eventsI) (simp add: verify_required)

lemma tree_verify [simp]:
  "tree (snd (verifyBuildArtifacts buildPath requiredFiles w)) = tree w"
  by (simp add: verify_required)

text \<open>The build block, by the outcome of the command and the tree it leaves.\<close>

lemma build_and_verify_eq:
  assumes "exec_env E ''npm run build'' sitePath w = (out, t)"
  shows "build_and_verify E sitePath w =
     (let dist = path_join sitePath ''dist'';
          index = path_join dist ''index.html'';
          w1 = record_call (Exec ''npm run build'' sitePath) (succeeded out) t w;
          w2 = record_call (PathExists dist) (t (resolve dist) \<noteq> None) t w1;
          w3 = record_call (PathExists index) (t (resolve index) \<noteq> None) t w2
      in if \<not> succeeded out
         then (Inl (rejection ''npm run build'' out), w1)
         else if t (resolve dist) = None then (Inl DistNotFound, w2)
         else if t (resolve index) = None then (Inl (ArtifactNotFound ''index.html''), w3)
         else (Inr (), w3))"
proof (cases "succeeded out")
  case False
  with execAsync_rejects [OF assms False] show ?thesis
    by (simp add: build_and_verify_def bind_def Let_def)
next
  case True
  from execAsync_resolves [OF assms True] obtain r where
    "execAsync E ''npm run build'' sitePath w
     = (Inr r, record_call (Exec ''npm run build'' sitePath) True t w)"
    by blast
  with True show ?thesis
    by (simp add: build_and_verify_def bind_def pathExists_eq verify_required Let_def)
qed

lemma appends_build_and_verify [simp]: "appends (build_and_verify E sitePath)"
proof (rule appendsI)
  fix w
  obtain out t where "exec_env E ''npm run build'' sitePath w = (out, t)"
    by (cases "exec_env E ''npm run build'' sitePath w")
  then show "\<exists>evs. trace (snd (build_and_verify E sitePath w)) = trace w @ evs"
    by (simp add: build_and_verify_eq Let_def)
qed

lemma run_events_build_and_verify:
  assumes "exec_env E ''npm run build'' sitePath w = (out, t)"
  shows "run_events (build_and_verify E sitePath) w =
     (let dist = path_join sitePath ''dist'';
          index = path_join dist ''index.html''
      in Event (Exec ''npm run build'' sitePath) (succeeded out)
         # (if \<not> succeeded out then []
            else Event (PathExists dist) (t (resolve dist) \<noteq> None)
                 # (if t (resolve dist) = None then []
                    else [Event (PathExists index) (t (resolve index) \<noteq> None)])))"
  by (rule run_eventsI) (simp add: build_and_verify_eq [OF assms] Let_def)

lemma build_and_verify_calls:
  "only_calls (\<lambda>c. (\<exists>cmd cwd. c = Exec cmd cwd) \<or> (\<exists>p. c = PathExists p))
     (build_and_verify E sitePath)"
  unfolding only_calls_def
proof (intro allI ballI)
  fix w e
  obtain out t where rt: "exec_env E ''npm run build'' sitePath w = (out, t)"
    by (cases "exec_env E ''npm run build'' sitePath w")
  assume "e \<in> set (run_events (build_and_verify E sitePath) w)"
  then show "(\<exists>cmd cwd. call_of e = Exec cmd cwd) \<or> (\<exists>p. call_of e = PathExists p)"
    by (auto simp: run_events_build_and_verify [OF rt] Let_def split: if_splits)
qed

lemma build_and_verify_Inr:
  assumes "build_and_verify E sitePath w = (Inr u, w')"
  shows "Event (PathExists (path_join (path_join sitePath ''dist'') ''index.html'')) True
           \<in> set (run_events (build_and_verify E sitePath) w)"
    and "tree w' (resolve (path_join (path_join sitePath ''dist'') ''index.html'')) \<noteq> None"
    and "run_events (build_and_verify E sitePath) w =
           [Event (Exec ''npm run build'' sitePath) True,
            Event (PathExists (path_join sitePath ''dist'')) True,
            Event (PathExists (path_join (path_join sitePath ''dist'') ''index.html'')) True]"
proof -
  obtain out t where rt: "exec_env E ''npm run build'' sitePath w = (out, t)"
    by (cases "exec_env E ''npm run build'' sitePath w")
  from assms have ok: "succeeded out" "t (resolve (path_join sitePath ''dist'')) \<noteq> None"
      "t (resolve (path_join (path_join sitePath ''dist'') ''index.html'')) \<noteq> None"
    and w': "tree w' = t"
    by (auto simp: build_and_verify_eq [OF rt] Let_def split: if_splits)
  show "run_events (build_and_verify E sitePath) w =
           [Event (Exec ''npm run build'' sitePath) True,
            Event (PathExists (path_join sitePath ''dist'')) True,
            Event (PathExists (path_join (path_join sitePath ''dist'') ''index.html'')) True]"
    using ok by (simp add: run_events_build_and_verify [OF rt] Let_def)
  then show "Event (PathExists (path_join (path_join sitePath ''dist'') ''index.html'')) True
           \<in> set (run_events (build_and_verify E sitePath) w)"
    by simp
  show "tree w' (resolve (path_join (path_join sitePath ''dist'') ''index.html'')) \<noteq> None"
    using ok w' by simp
qed

subsection \<open>Publishing and the whole of createPreview\<close>

lemma appends_publish [simp]: "appends (publish E dir sitePath ident)"
  by (simp add: publish_def Let_def ensureDir_def copy_def readdir_def)

lemma publish_Inr:
  assumes "publish E dir sitePath ident w = (Inr r, w')"
  shows "r = \<lparr>url = ''/preview/'' @ ident, preview_id = ident\<rparr>"
    and "run_events (publish E dir sitePath ident) w =
           [Event (EnsureDir (path_join (PUBLIC_DIR dir) ident)) True,
            Event (Copy (path_join sitePath ''dist'') (path_join (PUBLIC_DIR dir) ident)) True,
            Event (PathExists (path_join (path_join (PUBLIC_DIR dir) ident) ''index.html'')) True,
            Event (Readdir (path_join (PUBLIC_DIR dir) ident)) True]"
    and "tree w' (resolve (path_join (path_join (PUBLIC_DIR dir) ident) ''index.html'')) \<noteq> None"
proof -
  let ?pub = "path_join (PUBLIC_DIR dir) ident"
  let ?dist = "path_join sitePath ''dist''"
  from assms obtain w1 w2 w3 w4 where
    s1: "ensureDir E ?pub w = (Inr (), w1)" and
    s2: "copy E ?dist ?pub w1 = (Inr (), w2)" and
    s3: "verifyBuildArtifacts ?pub requiredFiles w2 = (Inr (), w3)" and
    s4: "readdir E ?pub w3 = (Inr (), w4)" and
    s5: "return \<lparr>url = ''/preview/'' @ ident, preview_id = ident\<rparr> w4 = (Inr r, w')"
    unfolding publish_def Let_def bind_Inr_iff by auto
  from s5 show "r = \<lparr>url = ''/preview/'' @ ident, preview_id = ident\<rparr>"
    by (simp add: return_def)
  from s5 have w': "w' = w4" by (simp add: return_def)
  from s3 have ex: "tree w2 (resolve (path_join ?pub ''index.html'')) \<noteq> None"
    and w3: "tree w3 = tree w2"
    by (auto simp: verify_required split: if_splits)
  from s4 have "tree w4 = tree w3"
    by (auto simp: readdir_def perform_Inr_iff)
  with ex w3 w' show "tree w' (resolve (path_join ?pub ''index.html'')) \<noteq> None"
    by simp
  have d1: "io_env E (EnsureDir ?pub) w = Done"
    using s1 by (simp add: ensureDir_def perform_Inr_iff)
  have d2: "io_env E (Copy ?dist ?pub) w1 = Done"
    using s2 by (simp add: copy_def perform_Inr_iff)
  have d4: "io_env E (Readdir ?pub) w3 = Done"
    using s4 by (simp add: readdir_def perform_Inr_iff)
  have e1: "run_events (ensureDir E ?pub) w = [Event (EnsureDir ?pub) True]"
    using d1 by (simp add: ensureDir_def)
  have e2: "run_events (copy E ?dist ?pub) w1 = [Event (Copy ?dist ?pub) True]"
    using d2 by (simp add: copy_def)
  have e3: "run_events (verifyBuildArtifacts ?pub requiredFiles) w2
            = [Event (PathExists (path_join ?pub ''index.html'')) True]"
    using ex by simp
  have e4: "run_events (readdir E ?pub) w3 = [Event (Readdir ?pub) True]"
    using d4 by (simp add: readdir_def)
  show "run_events (publish E dir sitePath ident) w =
           [Event (EnsureDir ?pub) True, Event (Copy ?dist ?pub) True,
            Event (PathExists (path_join ?pub ''index.html'')) True,
            Event (Readdir ?pub) True]"
    unfolding publish_def Let_def
    using s1 s2 s3 s4 e1 e2 e3 e4
    by (simp add: run_events_bind ensureDir_def copy_def readdir_def)
qed

lemma appends_createPreview [simp]: "appends (createPreview E dir sitePath ident)"
  by (simp add: createPreview_def readdir_def)

lemma createPreview_stages:
  "createPreview E dir sitePath ident
   = bind (until_verified E sitePath) (\<lambda>u. publish E dir sitePath ident)"
  by (simp add: createPreview_def until_verified_def bind_assoc)

lemma appends_until_verified [simp]: "appends (until_verified E sitePath)"
  by (simp add: until_verified_def readdir_def)

lemma only_calls_mono:
  assumes "only_calls P m" and "\<And>c. P c \<Longrightarrow> Q c"
  shows "only_calls Q m"
  using assms unfolding only_calls_def by blast

lemma until_verified_calls: "only_calls (\<lambda>c. \<not> writes c) (until_verified E sitePath)"
  unfolding until_verified_def readdir_def
proof (intro only_calls_bind only_calls_perform only_calls_execAsync)
  show "only_calls (\<lambda>c. \<not> writes c) (build_and_verify E sitePath)" for u :: exec_result
    by (rule only_calls_mono [OF build_and_verify_calls]) auto
qed simp_all

lemma until_verified_Inr:
  assumes "until_verified E sitePath w = (Inr u, w')"
  shows "run_events (until_verified E sitePath) w =
           [Event (Readdir sitePath) True,
            Event (Exec ''npm install'' sitePath) True,
            Event (Exec ''npm run build'' sitePath) True,
            Event (PathExists (path_join sitePath ''dist'')) True,
            Event (PathExists (path_join (path_join sitePath ''dist'') ''index.html'')) True]"
    and "tree w' (resolve (path_join (path_join sitePath ''dist'') ''index.html'')) \<noteq> None"
proof -
  from assms obtain r1 w1 w2 where
    s1: "readdir E sitePath w = (Inr (), w1)" and
    s2: "execAsync E ''npm install'' sitePath w1 = (Inr r1, w2)" and
    s3: "build_and_verify E sitePath w2 = (Inr u, w')"
    unfolding until_verified_def bind_Inr_iff by auto
  have e1: "run_events (readdir E sitePath) w = [Event (Readdir sitePath) True]"
    using s1 by (simp add: readdir_def perform_Inr_iff)
  have e2: "run_events (execAsync E ''npm install'' sitePath) w1
            = [Event (Exec ''npm install'' sitePath) True]"
    using s2 by (auto simp: execAsync_Inr_iff)
  show "run_events (until_verified E sitePath) w =
           [Event (Readdir sitePath) True,
            Event (Exec ''npm install'' sitePath) True,
            Event (Exec ''npm run build'' sitePath) True,
            Event (PathExists (path_join sitePath ''dist'')) True,
            Event (PathExists (path_join (path_join sitePath ''dist'') ''index.html'')) True]"
    unfolding until_verified_def
    using s1 s2 s3 e1 e2 build_and_verify_Inr(3) [OF s3]
    by (simp add: run_events_bind readdir_def)
  show "tree w' (resolve (path_join (path_join sitePath ''dist'') ''index.html'')) \<noteq> None"
    using build_and_verify_Inr(2) [OF s3] .
qed

subsection \<open>Path normalisation\<close>

lemma normalizeString_append:
  "normalizeString b acc (xs @ ys) = normalizeString b (normalizeString b acc xs) ys"
  by (induction xs arbitrary: acc) auto

lemma normalizeString_clean:
  assumes "\<forall>s \<in> set acc. s \<noteq> [] \<and> s \<noteq> ''.'' \<and> s \<noteq> ''..'' \<and> slash \<notin> set s"
    and "\<forall>s \<in> set xs. slash \<notin> set s"
  shows "\<forall>s \<in> set (normalizeString False acc xs).
           s \<noteq> [] \<and> s \<noteq> ''.'' \<and> s \<noteq> ''..'' \<and> slash \<notin> set s"
  using assms
proof (induction xs arbitrary: acc)
  case Nil
  then show ?case by simp
next
  case (Cons x xs)
  have rest: "\<forall>s \<in> set xs. slash \<notin> set s"
    using Cons.prems(2) by simp
  show ?case
  proof (cases "x = [] \<or> x = ''.''")
    case True
    then have "normalizeString False acc (x # xs) = normalizeString False acc xs"
      by auto
    then show ?thesis
      using Cons.IH [OF Cons.prems(1) rest] by (simp only:)
  next
    case skip: False
    show ?thesis
    proof (cases "x = ''..''")
      case False
      have step: "normalizeString False acc (x # xs) = normalizeString False (acc @ [x]) xs"
        using skip False by simp
      have "\<forall>s \<in> set (acc @ [x]). s \<noteq> [] \<and> s \<noteq> ''.'' \<and> s \<noteq> ''..'' \<and> slash \<notin> set s"
        using Cons.prems skip False by simp
      from Cons.IH [OF this rest] show ?thesis
        by (simp only: step)
    next
      case up: True
      show ?thesis
      proof (cases "acc \<noteq> [] \<and> last acc \<noteq> ''..''")
        case True
        then have step: "normalizeString False acc (x # xs) = normalizeString False (butlast acc) xs"
          using up by simp
        have "\<forall>s \<in> set (butlast acc). s \<noteq> [] \<and> s \<noteq> ''.'' \<and> s \<noteq> ''..'' \<and> slash \<notin> set s"
          using Cons.prems(1) by (meson in_set_butlastD)
        from Cons.IH [OF this rest] show ?thesis
          by (simp only: step)
      next
        case False
        then have step: "normalizeString False acc (x # xs) = normalizeString False acc xs"
          using up by auto
        from Cons.IH [OF Cons.prems(1) rest] show ?thesis
          by (simp only: step)
      qed
    qed
  qed
qed

lemma normalizeString_proper:
  assumes "\<forall>s \<in> set xs. s \<noteq> [] \<and> s \<noteq> ''.'' \<and> s \<noteq> ''..''"
  shows "normalizeString b acc xs = acc @ xs"
  using assms by (induction xs arbitrary: acc) auto

lemma split_on_join:
  assumes "segs \<noteq> []" and "\<forall>s \<in> set segs. c \<notin> set s"
  shows "split_on c (join_with [c] segs) = segs"
  using assms
proof (induction "[c]" segs rule: join_with.induct)
  case 1
  then show ?case by simp
next
  case (2 x)
  then show ?case by (simp add: split_on_no_sep)
next
  case (3 x y ys)
  have "split_on c (x @ c # join_with [c] (y # ys)) = split_on c x @ split_on c (join_with [c] (y # ys))"
    by (rule split_on_append_sep)
  with 3 show ?case by (simp add: split_on_no_sep)
qed

lemma join_with_Nil_iff:
  assumes "\<forall>s \<in> set segs. s \<noteq> []"
  shows "join_with sep segs = [] \<longleftrightarrow> segs = []"
  using assms by (induction sep segs rule: join_with.induct) auto

lemma resolve_clean:
  "\<forall>s \<in> set (resolve p). s \<noteq> [] \<and> s \<noteq> ''.'' \<and> s \<noteq> ''..'' \<and> slash \<notin> set s"
  unfolding resolve_def
  by (rule normalizeString_clean) (auto dest: split_on_pieces)

lemma normalize_absolute:
  assumes "absolute p"
  shows "normalize p =
     (if resolve p = [] then ''/''
      else [slash] @ join_with [slash] (resolve p) @ (if last p = slash then [slash] else []))"
proof -
  have "join_with [slash] (resolve p) = [] \<longleftrightarrow> resolve p = []"
    by (rule join_with_Nil_iff) (use resolve_clean in blast)
  then show ?thesis
    using assms by (simp add: normalize_def absolute_def resolve_def Let_def)
qed

lemma absolute_normalize: "absolute p \<Longrightarrow> absolute (normalize p)"
  by (simp add: normalize_absolute) (simp add: absolute_def slash_def)

lemma resolve_normalize:
  assumes "absolute p"
  shows "resolve (normalize p) = resolve p"
proof (cases "resolve p = []")
  case True
  then show ?thesis
    using assms by (simp add: normalize_absolute) (simp add: resolve_def slash_def)
next
  case False
  let ?segs = "resolve p"
  have clean: "\<forall>s \<in> set ?segs. s \<noteq> [] \<and> s \<noteq> ''.'' \<and> s \<noteq> ''..'' \<and> slash \<notin> set s"
    by (rule resolve_clean)
  then have sp: "split_on slash (join_with [slash] ?segs) = ?segs"
    using False by (intro split_on_join) auto
  have pr: "normalizeString False [] ?segs = ?segs"
    using clean by (subst normalizeString_proper) auto
  have "split_on slash ([slash] @ join_with [slash] ?segs @ (if last p = slash then [slash] else []))
        = [] # ?segs @ (if last p = slash then [[]] else [])"
    using sp split_on_append_sep [of slash "join_with [slash] ?segs" "[]"] by simp
  then have "resolve ([slash] @ join_with [slash] ?segs @ (if last p = slash then [slash] else []))
        = normalizeString False [] (?segs @ (if last p = slash then [[]] else []))"
    by (simp add: resolve_def)
  also have "\<dots> = ?segs"
    using pr by (simp add: normalizeString_append)
  finally show ?thesis
    using assms False by (simp add: normalize_absolute)
qed

lemma absolute_path_join: "absolute a \<Longrightarrow> absolute (path_join a b)"
  by (auto simp: path_join_def intro!: absolute_normalize) (simp_all add: absolute_def)

lemma resolve_path_join:
  assumes "absolute a"
  shows "resolve (path_join a b) = normalizeString False (resolve a) (split_on slash b)"
proof (cases "b = []")
  case True
  then show ?thesis
    using assms by (simp add: path_join_def resolve_normalize) (simp add: absolute_def)
next
  case False
  have abs: "absolute (a @ [slash] @ b)"
    using assms by (simp add: absolute_def)
  have "resolve (a @ [slash] @ b) = normalizeString False (resolve a) (split_on slash b)"
    using split_on_append_sep [of slash a b]
    by (simp add: resolve_def normalizeString_append)
  then show ?thesis
    using False assms resolve_normalize [OF abs] by (simp add: path_join_def absolute_def)
qed

lemma resolve_subdir:
  assumes "absolute dir" and "name \<noteq> []" and "name \<noteq> ''.''" and "name \<noteq> ''..''"
    and "slash \<notin> set name"
  shows "resolve (path_join dir name) = resolve dir @ [name]"
  using assms by (simp add: resolve_path_join split_on_no_sep)

lemma resolve_PREVIEW_DIR: "absolute dir \<Longrightarrow> resolve (PREVIEW_DIR dir) = resolve dir @ [''previews'']"
  by (simp add: PREVIEW_DIR_def resolve_subdir slash_def)

lemma resolve_PUBLIC_DIR: "absolute dir \<Longrightarrow> resolve (PUBLIC_DIR dir) = resolve dir @ [''public'']"
  by (simp add: PUBLIC_DIR_def resolve_subdir slash_def)

text \<open>
  Two stacks that differ in one piece, normalised along the same pieces: either the
  differing piece is never removed and both results continue alike after it, or it is
  removed and the results are the same.
\<close>

lemma normalizeString_fork:
  assumes "x \<noteq> ''..''" and "y \<noteq> ''..''"
  shows "(\<exists>rest. normalizeString False (base @ x # r) xs = base @ x # rest
               \<and> normalizeString False (base @ y # r) xs = base @ y # rest)
       \<or> normalizeString False (base @ x # r) xs = normalizeString False (base @ y # r) xs"
proof (induction xs arbitrary: r)
  case Nil
  show ?case by simp
next
  case (Cons s ss)
  show ?case
  proof (cases "s = [] \<or> s = ''.''")
    case True
    then have "normalizeString False (base @ x # r) (s # ss) = normalizeString False (base @ x # r) ss"
      and "normalizeString False (base @ y # r) (s # ss) = normalizeString False (base @ y # r) ss"
      by auto
    then show ?thesis using Cons.IH [of r] by (simp only:)
  next
    case skip: False
    show ?thesis
    proof (cases "s = ''..''")
      case False
      have "normalizeString False (base @ x # r) (s # ss)
            = normalizeString False (base @ x # (r @ [s])) ss"
        and "normalizeString False (base @ y # r) (s # ss)
            = normalizeString False (base @ y # (r @ [s])) ss"
        using skip False by simp_all
      then show ?thesis using Cons.IH [of "r @ [s]"] by (simp only:)
    next
      case up: True
      show ?thesis
      proof (cases "r = []")
        case True
        have "normalizeString False (base @ [x]) (s # ss) = normalizeString False base ss"
          and "normalizeString False (base @ [y]) (s # ss) = normalizeString False base ss"
          using up assms by simp_all
        then show ?thesis using True by (simp only: append_Nil2 simp_thms)
      next
        case False
        then have l: "last (base @ x # r) = last r" "last (base @ y # r) = last r"
          and b: "butlast (base @ x # r) = base @ x # butlast r"
                 "butlast (base @ y # r) = base @ y # butlast r"
          by (simp_all add: butlast_append)
        show ?thesis
        proof (cases "last r = ''..''")
          case True
          have "normalizeString False (base @ x # r) (s # ss) = normalizeString False (base @ x # r) ss"
            and "normalizeString False (base @ y # r) (s # ss) = normalizeString False (base @ y # r) ss"
            using up l True by (simp_all del: last_appendR)
          then show ?thesis using Cons.IH [of r] by (simp only:)
        next
          case nd: False
          have "normalizeString False (base @ x # r) (s # ss)
                = normalizeString False (base @ x # butlast r) ss"
            and "normalizeString False (base @ y # r) (s # ss)
                = normalizeString False (base @ y # butlast r) ss"
            using up l b nd by (simp_all del: last_appendR)
          then show ?thesis using Cons.IH [of "butlast r"] by (simp only:)
        qed
      qed
    qed
  qed
qed

subsection \<open>The workspace path and the public path of an id\<close>

lemma workspace_public_fork:
  assumes "absolute dir"
  shows "(\<exists>rest. resolve (path_join (PREVIEW_DIR dir) ident) = resolve dir @ ''previews'' # rest
               \<and> resolve (path_join (PUBLIC_DIR dir) ident) = resolve dir @ ''public'' # rest)
       \<or> path_join (PREVIEW_DIR dir) ident = path_join (PUBLIC_DIR dir) ident"
proof -
  let ?pv = "path_join (PREVIEW_DIR dir) ident" and ?pb = "path_join (PUBLIC_DIR dir) ident"
  have aP: "absolute (PREVIEW_DIR dir)" and aQ: "absolute (PUBLIC_DIR dir)"
    using assms by (simp_all add: PREVIEW_DIR_def PUBLIC_DIR_def absolute_path_join)
  have rv: "resolve ?pv = normalizeString False (resolve dir @ ''previews'' # []) (split_on slash ident)"
    and rb: "resolve ?pb = normalizeString False (resolve dir @ ''public'' # []) (split_on slash ident)"
    using assms aP aQ by (simp_all add: resolve_path_join resolve_PREVIEW_DIR resolve_PUBLIC_DIR)
  from normalizeString_fork [of "''previews''" "''public''" "resolve dir" "[]" "split_on slash ident"]
  consider
    (apart) rest where "resolve ?pv = resolve dir @ ''previews'' # rest"
      "resolve ?pb = resolve dir @ ''public'' # rest"
    | (same) "resolve ?pv = resolve ?pb"
    unfolding rv rb by auto
  then show ?thesis
  proof cases
    case apart
    then show ?thesis by blast
  next
    case same
    have ne: "ident \<noteq> []"
    proof
      assume "ident = []"
      then have "resolve ?pv = resolve dir @ [''previews'']" "resolve ?pb = resolve dir @ [''public'']"
        using rv rb by simp_all
      with same show False by simp
    qed
    have av: "absolute (PREVIEW_DIR dir @ [slash] @ ident)"
      and ab: "absolute (PUBLIC_DIR dir @ [slash] @ ident)"
      using aP aQ by (simp_all add: absolute_def)
    have nP: "PREVIEW_DIR dir \<noteq> []" and nQ: "PUBLIC_DIR dir \<noteq> []"
      using aP aQ by (auto simp: absolute_def)
    have jv: "?pv = normalize (PREVIEW_DIR dir @ [slash] @ ident)"
      and jb: "?pb = normalize (PUBLIC_DIR dir @ [slash] @ ident)"
      using ne nP nQ by (simp_all add: path_join_def)
    have "resolve (PREVIEW_DIR dir @ [slash] @ ident) = resolve (PUBLIC_DIR dir @ [slash] @ ident)"
      using same resolve_normalize [OF av] resolve_normalize [OF ab] jv jb by simp
    moreover have "last (PREVIEW_DIR dir @ [slash] @ ident) = last (PUBLIC_DIR dir @ [slash] @ ident)"
      using ne by simp
    ultimately have "?pv = ?pb"
      unfolding jv jb normalize_absolute [OF av] normalize_absolute [OF ab] by simp
    then show ?thesis by simp
  qed
qed

lemma workspace_public_disjoint:
  assumes "absolute dir"
    and "path_join (PREVIEW_DIR dir) ident \<noteq> path_join (PUBLIC_DIR dir) ident"
    and "prefix (resolve (path_join (PUBLIC_DIR dir) ident)) q"
  shows "\<not> prefix (resolve (path_join (PREVIEW_DIR dir) ident)) q"
proof
  assume pv: "prefix (resolve (path_join (PREVIEW_DIR dir) ident)) q"
  from workspace_public_fork [OF assms(1), of ident] assms(2)
  obtain rest where
    "resolve (path_join (PREVIEW_DIR dir) ident) = resolve dir @ ''previews'' # rest"
    "resolve (path_join (PUBLIC_DIR dir) ident) = resolve dir @ ''public'' # rest"
    by blast
  with pv assms(3) obtain z1 z2 where
    "q = (resolve dir @ ''previews'' # rest) @ z1" "q = (resolve dir @ ''public'' # rest) @ z2"
    by (auto simp: prefix_def)
  then show False by simp
qed

subsection \<open>What a file-system call leaves untouched\<close>

lemma perform_frame:
  assumes "\<not> touches c q" and "\<And>t. effect t q = t q"
  shows "tree (snd (perform E c effect w)) q = tree w q"
  using assms by (simp add: perform_def split: io_outcome.splits)

lemma remove_frame:
  "\<not> prefix (resolve p) q \<Longrightarrow> tree (snd (remove E p w)) q = tree w q"
  unfolding remove_def by (rule perform_frame) (simp_all add: remove_tree_def)

lemma cleanup_after_success_frame:
  assumes "absolute dir"
    and "prefix (resolve (path_join (PUBLIC_DIR dir) ident)) q"
  shows "tree (cleanup_after_success E dir (path_join (PREVIEW_DIR dir) ident)
                 (path_join (PUBLIC_DIR dir) ident) w) q = tree w q"
proof (cases "cleanup_guard dir (path_join (PREVIEW_DIR dir) ident) (path_join (PUBLIC_DIR dir) ident)")
  case True
  then have "path_join (PREVIEW_DIR dir) ident \<noteq> path_join (PUBLIC_DIR dir) ident"
    by (simp add: cleanup_guard_def)
  from workspace_public_disjoint [OF assms(1) this assms(2)] True show ?thesis
    by (simp add: cleanup_after_success_def remove_frame)
next
  case False
  then show ?thesis by (simp add: cleanup_after_success_def)
qed

lemma cleanup_after_error_frame:
  assumes "absolute dir"
    and "prefix (resolve (path_join (PUBLIC_DIR dir) ident)) q"
  shows "tree (cleanup_after_error E dir (path_join (PREVIEW_DIR dir) ident)
                 (path_join (PUBLIC_DIR dir) ident) w) q = tree w q"
proof (cases "cleanup_guard dir (path_join (PREVIEW_DIR dir) ident) (path_join (PUBLIC_DIR dir) ident)")
  case True
  then have "path_join (PREVIEW_DIR dir) ident \<noteq> path_join (PUBLIC_DIR dir) ident"
    by (simp add: cleanup_guard_def)
  from workspace_public_disjoint [OF assms(1) this assms(2)] True show ?thesis
    by (simp add: cleanup_after_error_def remove_frame)
next
  case False
  then show ?thesis by (simp add: cleanup_after_error_def)
qed

subsection \<open>Clean-up of the workspace and of the public directory\<close>

text \<open>
  Claim C9. With the server in an absolute directory, for every id and in every world,
  neither clean-up block changes any entry at or below the public directory of the id,
  whether the removal is skipped, succeeds or fails half-way; so the world the create
  handler returns has at and below \<^verbatim>\<open>public/{id}\<close> exactly what its \<^verbatim>\<open>try\<close> block
  left there, on the success path and on the error path.
\<close>

theorem cleanup_leaves_public:
  assumes "absolute dir"
  shows "let previewPath = path_join (PREVIEW_DIR dir) (req_id req);
             publicOutputPath = path_join (PUBLIC_DIR dir) (req_id req)
         in \<forall>q. prefix (resolve publicOutputPath) q \<longrightarrow>
              tree (cleanup_after_success E dir previewPath publicOutputPath w) q = tree w q
            \<and> tree (cleanup_after_error E dir previewPath publicOutputPath w) q = tree w q
            \<and> tree (snd (create_handler E dir req w0)) q = tree (snd (create_try E dir req w0)) q"
proof -
  have "tree (snd (create_handler E dir req w0)) q = tree (snd (create_try E dir req w0)) q"
    if "prefix (resolve (path_join (PUBLIC_DIR dir) (req_id req))) q" for q
    using cleanup_after_success_frame [OF assms that] cleanup_after_error_frame [OF assms that]
    by (simp add: create_handler_def Let_def split: prod.splits sum.splits)
  then show ?thesis
    using cleanup_after_success_frame [OF assms] cleanup_after_error_frame [OF assms]
    by (simp add: Let_def)
qed

theorem cleanup_leaves_public_witness:
  "absolute example_dir
   \<and> prefix (resolve (path_join (PUBLIC_DIR example_dir) (req_id scenario_request)))
        [''app'', ''public'', ''abc123'', ''index.html'']
   \<and> tree (snd (create_try example_env example_dir scenario_request example_world))
        [''app'', ''public'', ''abc123'', ''index.html''] = Some (File ''<html></html>'')
   \<and> tree (snd (create_handler example_env example_dir scenario_request example_world))
        [''app'', ''public'', ''abc123'', ''index.html''] = Some (File ''<html></html>'')
   \<and> tree (snd (create_handler example_env example_dir scenario_request example_world))
        [''app'', ''previews'', ''abc123''] = None"
proof -
  have a: "absolute example_dir"
    by code_simp
  have p: "prefix (resolve (path_join (PUBLIC_DIR example_dir) (req_id scenario_request)))
             [''app'', ''public'', ''abc123'', ''index.html'']"
    by code_simp
  have t: "tree (snd (create_try example_env example_dir scenario_request example_world))
             [''app'', ''public'', ''abc123'', ''index.html''] = Some (File ''<html></html>'')"
    by code_simp
  have r: "tree (snd (create_handler example_env example_dir scenario_request example_world))
             [''app'', ''previews'', ''abc123''] = None"
    by code_simp
  from cleanup_leaves_public [OF a, of scenario_request example_env example_world example_world]
  have "tree (snd (create_handler example_env example_dir scenario_request example_world))
          [''app'', ''public'', ''abc123'', ''index.html'']
        = tree (snd (create_try example_env example_dir scenario_request example_world))
          [''app'', ''public'', ''abc123'', ''index.html'']"
    unfolding Let_def using p by blast
  with a p t r show ?thesis by simp
qed





subsection \<open>The calls of materialisation\<close>

lemma processFile_eq:
  "processFile E (FileNode ty p c ch) basePath =
     (if ty = ''folder''
      then bind (ensureDir E (path_join basePath p)) (\<lambda>u. processFiles E ch basePath)
      else if ty = ''file''
      then bind (ensureDir E (dirname (path_join basePath p)))
             (\<lambda>u. writeFile E (path_join basePath p)
                    (case c of Some content \<Rightarrow> written_content content | None \<Rightarrow> []))
      else return ())"
  by (rule ext) (simp add: bind_def return_def Let_def split: prod.splits sum.splits option.splits)

lemma processFiles_Nil: "processFiles E [] basePath = return ()"
  by (rule ext) (simp add: return_def)

lemma processFiles_Cons:
  "processFiles E (file # files) basePath
   = bind (processFile E file basePath) (\<lambda>u. processFiles E files basePath)"
  by (rule ext) (simp add: bind_def split: prod.splits sum.splits)

lemma fs_write_simps [simp]:
  "fs_write (EnsureDir p)" "fs_write (WriteFile p t)" "fs_write (Copy s d)"
  "\<not> fs_write (Remove p)" "\<not> fs_write (Exec cmd cwd)" "\<not> fs_write (Readdir p)"
  "\<not> fs_write (PathExists p)" "\<not> fs_write (Fetch u)" "\<not> fs_write (ReadFiles p)"
  by (simp_all add: fs_write_def)

lemma processFiles_calls_aux:
  assumes "\<forall>f \<in> set files. appends (processFile E f basePath)
                          \<and> only_calls fs_write (processFile E f basePath)"
  shows "appends (processFiles E files basePath) \<and> only_calls fs_write (processFiles E files basePath)"
  using assms
proof (induction files)
  case Nil
  show ?case by (simp add: processFiles_Nil only_calls_return)
next
  case (Cons f files)
  then have f: "appends (processFile E f basePath)" "only_calls fs_write (processFile E f basePath)"
    and r: "appends (processFiles E files basePath)" "only_calls fs_write (processFiles E files basePath)"
    by simp_all
  show ?case
    unfolding processFiles_Cons using f r by (simp add: only_calls_bind)
qed

lemma processFile_calls:
  "appends (processFile E f basePath) \<and> only_calls fs_write (processFile E f basePath)"
proof (induction f)
  case (FileNode ty p c ch)
  then have ch: "appends (processFiles E ch basePath)" "only_calls fs_write (processFiles E ch basePath)"
    using processFiles_calls_aux [of ch E basePath] by simp_all
  show ?case
    unfolding processFile_eq using ch
    by (simp add: ensureDir_def writeFile_def only_calls_bind only_calls_perform only_calls_return)
qed

lemma processFiles_calls:
  "appends (processFiles E files basePath)" "only_calls fs_write (processFiles E files basePath)"
  using processFiles_calls_aux [of files E basePath] processFile_calls by simp_all

lemma materialize_calls:
  "appends (materialize E dir req)" "only_calls fs_write (materialize E dir req)"
  unfolding materialize_def Let_def
  by (simp_all add: ensureDir_def copy_def processFiles_calls only_calls_bind only_calls_perform)

lemma appends_installAdditionalDependencies [simp]:
  "appends (installAdditionalDependencies E sitePath dependencies)"
  by (simp add: installAdditionalDependencies_def)

lemma appends_prepare [simp]: "appends (prepare E dir req)"
  by (simp add: prepare_def Let_def materialize_calls)

lemma appends_create_try [simp]: "appends (create_try E dir req)"
  by (simp add: create_try_def Let_def)

lemma createPreview_calls:
  "only_calls (\<lambda>c. \<forall>p. c \<noteq> Remove p) (createPreview E dir sitePath ident)"
proof -
  have v: "only_calls (\<lambda>c. \<forall>p. c \<noteq> Remove p) (verifyBuildArtifacts b requiredFiles)" for b
    by (simp add: only_calls_def)
  have bv: "only_calls (\<lambda>c. \<forall>p. c \<noteq> Remove p) (build_and_verify E sitePath)"
    by (rule only_calls_mono [OF build_and_verify_calls]) auto
  show ?thesis
    unfolding createPreview_def publish_def Let_def readdir_def ensureDir_def copy_def
    by (intro only_calls_bind only_calls_perform only_calls_execAsync only_calls_return v bv
          appends_bind appends_perform appends_execAsync appends_return appends_verify
          appends_build_and_verify) simp_all
qed

lemma create_try_calls: "only_calls (\<lambda>c. \<forall>p. c \<noteq> Remove p) (create_try E dir req)"
proof -
  have m: "only_calls (\<lambda>c. \<forall>p. c \<noteq> Remove p) (materialize E dir req)"
    by (rule only_calls_mono [OF materialize_calls(2)]) (auto simp: fs_write_def)
  have i: "only_calls (\<lambda>c. \<forall>p. c \<noteq> Remove p) (installAdditionalDependencies E s d)" for s d
    unfolding installAdditionalDependencies_def
    by (intro only_calls_bind only_calls_execAsync only_calls_return) simp_all
  have p: "only_calls (\<lambda>c. \<forall>p. c \<noteq> Remove p) (prepare E dir req)"
    unfolding prepare_def Let_def
    by (intro only_calls_bind m materialize_calls(1)) (simp_all add: i only_calls_return)
  show ?thesis
    unfolding create_try_def Let_def
    by (intro only_calls_bind p createPreview_calls) simp_all
qed

subsection \<open>The response and the calls of the create handler\<close>

lemma create_handler_response:
  "fst (create_handler E dir req w)
   = (case fst (create_try E dir req w) of
        Inr previewResult \<Rightarrow> Json previewResult
      | Inl e \<Rightarrow> Status500 (message e))"
  by (simp add: create_handler_def Let_def split: prod.splits sum.splits)

lemma create_handler_world:
  "snd (create_handler E dir req w)
   = (let previewPath = path_join (PREVIEW_DIR dir) (req_id req);
          publicOutputPath = path_join (PUBLIC_DIR dir) (req_id req)
      in if cleanup_guard dir previewPath publicOutputPath
         then snd (remove E previewPath (snd (create_try E dir req w)))
         else snd (create_try E dir req w))"
  by (simp add: create_handler_def cleanup_after_success_def cleanup_after_error_def Let_def
           split: prod.splits sum.splits)

lemma run_events_create_handler:
  "run_events (create_handler E dir req) w
   = run_events (create_try E dir req) w
     @ (let previewPath = path_join (PREVIEW_DIR dir) (req_id req);
            publicOutputPath = path_join (PUBLIC_DIR dir) (req_id req)
        in if cleanup_guard dir previewPath publicOutputPath
           then [Event (Remove previewPath)
                   (io_env E (Remove previewPath) (snd (create_try E dir req w)) = Done)]
           else [])"
proof -
  have t: "trace (snd (create_try E dir req w)) = trace w @ run_events (create_try E dir req) w"
    by (rule appends_trace) simp
  show ?thesis
    by (rule run_eventsI)
       (simp add: create_handler_world Let_def remove_def trace_perform t)
qed

subsection \<open>Environments that differ only in how removals go\<close>

lemma perform_same:
  assumes "same_but_removal E E'" and "\<forall>p. c \<noteq> Remove p"
  shows "perform E' c effect = perform E c effect"
  using assms by (intro ext) (simp add: perform_def same_but_removal_def)

lemma execAsync_same: "same_but_removal E E' \<Longrightarrow> execAsync E' cmd cwd = execAsync E cmd cwd"
  by (intro ext) (simp add: execAsync_def same_but_removal_def)

lemma processFiles_same_aux:
  assumes "\<forall>f \<in> set files. processFile E' f basePath = processFile E f basePath"
  shows "processFiles E' files basePath = processFiles E files basePath"
  using assms by (induction files) (simp_all add: processFiles_Nil processFiles_Cons)

lemma processFile_same:
  assumes "same_but_removal E E'"
  shows "processFile E' f basePath = processFile E f basePath"
proof (induction f)
  case (FileNode ty p c ch)
  then have "processFiles E' ch basePath = processFiles E ch basePath"
    by (intro processFiles_same_aux) simp
  then show ?case
    unfolding processFile_eq
    by (simp add: ensureDir_def writeFile_def perform_same [OF assms])
qed

lemma create_try_same:
  assumes "same_but_removal E E'"
  shows "create_try E' dir req = create_try E dir req"
proof -
  have "processFiles E' files basePath = processFiles E files basePath" for files basePath
    by (intro processFiles_same_aux) (simp add: processFile_same [OF assms])
  then show ?thesis
    unfolding create_try_def prepare_def materialize_def createPreview_def publish_def
      build_and_verify_def installAdditionalDependencies_def Let_def
    by (simp add: ensureDir_def copy_def readdir_def perform_same [OF assms] execAsync_same [OF assms])
qed

subsection \<open>The calls of the remote-strategy handler\<close>

lemma remote_children_Nil: "remote_children E previewPath [] = return ()"
  by (rule ext) (simp add: return_def)

lemma remote_children_Cons:
  "remote_children E previewPath (childFile # rest)
   = bind (remote_write E previewPath childFile) (\<lambda>u. remote_children E previewPath rest)"
  by (rule ext) (simp add: bind_def split: prod.splits sum.splits)

lemma remote_files_Nil: "remote_files E previewPath [] = return ()"
  by (rule ext) (simp add: return_def)

lemma remote_files_Cons:
  "remote_files E previewPath (file # rest)
   = bind (remote_file E previewPath file) (\<lambda>u. remote_files E previewPath rest)"
  by (rule ext) (simp add: bind_def split: prod.splits sum.splits)

lemma remote_write_calls:
  "appends (remote_write E previewPath file)" "only_calls fs_write (remote_write E previewPath file)"
  unfolding remote_write_def Let_def ensureDir_def writeFile_def
  by (auto intro!: only_calls_bind only_calls_perform only_calls_throw appends_bind
           split: option.splits)

lemma remote_children_calls:
  "appends (remote_children E previewPath files)"
  "only_calls fs_write (remote_children E previewPath files)"
  by (induction files)
     (simp_all add: remote_children_Nil remote_children_Cons remote_write_calls
        only_calls_bind only_calls_return)

lemma remote_file_calls:
  "appends (remote_file E previewPath file)" "only_calls fs_write (remote_file E previewPath file)"
  unfolding remote_file_def ensureDir_def
  by (simp_all add: remote_write_calls remote_children_calls only_calls_bind only_calls_perform)

lemma remote_files_calls:
  "appends (remote_files E previewPath files)" "only_calls fs_write (remote_files E previewPath files)"
  by (induction files)
     (simp_all add: remote_files_Nil remote_files_Cons remote_file_calls
        only_calls_bind only_calls_return)

lemma remote_materialize_calls:
  "appends (remote_materialize E dir req)" "only_calls fs_write (remote_materialize E dir req)"
  unfolding remote_materialize_def Let_def ensureDir_def copy_def
  by (simp_all add: remote_files_calls only_calls_bind only_calls_perform)

lemma trace_fetch:
  "trace (snd (fetch E u w))
   = trace w @ [Event (Fetch u) (case fetch_env E u w of NetworkError m \<Rightarrow> False | _ \<Rightarrow> True)]"
  by (simp add: fetch_def split: http_outcome.splits)

lemma appends_fetch [simp]: "appends (fetch E u)"
  by (rule appendsI) (simp add: trace_fetch)

lemma only_calls_fetch: "P (Fetch u) \<Longrightarrow> only_calls P (fetch E u)"
  by (simp add: only_calls_def run_events_def trace_fetch)

lemma appends_json [simp]: "appends (json r)"
  by (simp add: json_def split: option.splits)

lemma only_calls_json: "only_calls P (json r)"
  by (simp add: json_def only_calls_return only_calls_throw split: option.splits)

lemma appends_deployToVercel [simp]: "appends (deployToVercel E sitePath)"
  by (simp add: deployToVercel_def getFilesForVercel_def)

lemma deployToVercel_calls:
  "only_calls (\<lambda>c. \<forall>p. c \<noteq> Remove p) (deployToVercel E sitePath)"
  unfolding deployToVercel_def getFilesForVercel_def
  by (intro only_calls_bind only_calls_execAsync only_calls_fetch only_calls_perform
        only_calls_return)
     (simp_all add: only_calls_json only_calls_throw)

lemma appends_remote_create_try [simp]: "appends (remote_create_try E dir req)"
  by (simp add: remote_create_try_def Let_def remote_materialize_calls)

lemma remote_create_try_calls:
  "only_calls (\<lambda>c. \<forall>p. c \<noteq> Remove p) (remote_create_try E dir req)"
proof -
  have m: "only_calls (\<lambda>c. \<forall>p. c \<noteq> Remove p) (remote_materialize E dir req)"
    by (rule only_calls_mono [OF remote_materialize_calls(2)]) (auto simp: fs_write_def)
  have i: "only_calls (\<lambda>c. \<forall>p. c \<noteq> Remove p) (installAdditionalDependencies E s d)" for s d
    unfolding installAdditionalDependencies_def
    by (intro only_calls_bind only_calls_execAsync only_calls_return) simp_all
  show ?thesis
    unfolding remote_create_try_def Let_def
    by (intro only_calls_bind m remote_materialize_calls(1) only_calls_execAsync deployToVercel_calls)
       (simp_all add: i only_calls_return)
qed

lemma run_events_remote_create_handler:
  "run_events (remote_create_handler E dir req) w = run_events (remote_create_try E dir req) w"
  by (simp add: run_events_def remote_create_handler_def split: prod.splits sum.splits)

subsection \<open>Removal of the workspace\<close>

text \<open>
  Claim C6, amended. In the local-strategy handler the response is decided by the
  \<^verbatim>\<open>try\<close> block alone: it is the same in every environment that differs only in how
  removals go. The \<^verbatim>\<open>try\<close> block removes nothing. When the guard holds
  (\<^verbatim>\<open>previewPath\<close> differs from \<^verbatim>\<open>publicOutputPath\<close> and does not contain
  \<^verbatim>\<open>PUBLIC_DIR\<close>), the removal of the workspace directory is attempted once, as the
  last call before the response, after success and after an error alike, and when it
  succeeds the workspace directory is gone. When the guard does not hold, nothing is
  removed. The remote-strategy handler never attempts a removal.
\<close>

theorem workspace_removal:
  "let previewPath = path_join (PREVIEW_DIR dir) (req_id req);
       publicOutputPath = path_join (PUBLIC_DIR dir) (req_id req);
       attempt = create_try E dir req w;
       served = create_handler E dir req w;
       removed = (io_env E (Remove previewPath) (snd attempt) = Done)
   in fst served = (case fst attempt of Inr r \<Rightarrow> Json r | Inl e \<Rightarrow> Status500 (message e))
    \<and> (\<forall>E'. same_but_removal E E' \<longrightarrow> fst (create_handler E' dir req w) = fst served)
    \<and> (\<forall>e \<in> set (run_events (create_try E dir req) w). \<forall>p. call_of e \<noteq> Remove p)
    \<and> (cleanup_guard dir previewPath publicOutputPath \<longrightarrow>
          run_events (create_handler E dir req) w
            = run_events (create_try E dir req) w @ [Event (Remove previewPath) removed]
        \<and> (removed \<longrightarrow> tree (snd served) (resolve previewPath) = None))
    \<and> (\<not> cleanup_guard dir previewPath publicOutputPath \<longrightarrow> snd served = snd attempt)
    \<and> (\<forall>e \<in> set (run_events (remote_create_handler E dir req) w). \<forall>p. call_of e \<noteq> Remove p)"
proof -
  let ?pv = "path_join (PREVIEW_DIR dir) (req_id req)"
  let ?pb = "path_join (PUBLIC_DIR dir) (req_id req)"
  have a: "fst (create_handler E dir req w)
           = (case fst (create_try E dir req w) of Inr r \<Rightarrow> Json r | Inl e \<Rightarrow> Status500 (message e))"
    by (rule create_handler_response)
  have b: "fst (create_handler E' dir req w) = fst (create_handler E dir req w)"
    if "same_but_removal E E'" for E'
    by (simp add: create_handler_response create_try_same [OF that])
  have c: "\<forall>e \<in> set (run_events (create_try E dir req) w). \<forall>p. call_of e \<noteq> Remove p"
    using create_try_calls [of E dir req] by (simp add: only_calls_def)
  have d: "run_events (create_handler E dir req) w
            = run_events (create_try E dir req) w
              @ [Event (Remove ?pv) (io_env E (Remove ?pv) (snd (create_try E dir req w)) = Done)]"
    if "cleanup_guard dir ?pv ?pb"
    using that by (simp add: run_events_create_handler Let_def)
  have e: "tree (snd (create_handler E dir req w)) (resolve ?pv) = None"
    if "cleanup_guard dir ?pv ?pb" and "io_env E (Remove ?pv) (snd (create_try E dir req w)) = Done"
    using that by (simp add: create_handler_world Let_def remove_def perform_Done remove_tree_def)
  have f: "snd (create_handler E dir req w) = snd (create_try E dir req w)"
    if "\<not> cleanup_guard dir ?pv ?pb"
    using that by (simp add: create_handler_world Let_def)
  have g: "\<forall>e \<in> set (run_events (remote_create_handler E dir req) w). \<forall>p. call_of e \<noteq> Remove p"
    using remote_create_try_calls [of E dir req]
    by (simp add: only_calls_def run_events_remote_create_handler)
  show ?thesis
    unfolding Let_def using a b c d e f g by blast
qed

text \<open>
  Two requests that are served while the workspace directory stays: with the server in
  \<^verbatim>\<open>/app\<close> and the id \<^verbatim>\<open>demo/app/public\<close>, the workspace path contains
  \<^verbatim>\<open>/app/public\<close> and the guard skips the removal; and the remote-strategy handler
  removes nothing for any request.
\<close>

theorem workspace_removal_counterexample:
  "fst (create_handler example_env example_dir substring_request example_world)
     = Json \<lparr>url = ''/preview/demo/app/public'', preview_id = ''demo/app/public''\<rparr>
   \<and> trace (snd (create_handler example_env example_dir substring_request example_world))
     = [Event (EnsureDir ''/app/previews/demo/app/public'') True,
        Event (Copy ''/app/template'' ''/app/previews/demo/app/public'') True,
        Event (Readdir ''/app/previews/demo/app/public'') True,
        Event (Exec ''npm install'' ''/app/previews/demo/app/public'') True,
        Event (Exec ''npm run build'' ''/app/previews/demo/app/public'') True,
        Event (PathExists ''/app/previews/demo/app/public/dist'') True,
        Event (PathExists ''/app/previews/demo/app/public/dist/index.html'') True,
        Event (EnsureDir ''/app/public/demo/app/public'') True,
        Event (Copy ''/app/previews/demo/app/public/dist'' ''/app/public/demo/app/public'') True,
        Event (PathExists ''/app/public/demo/app/public/index.html'') True,
        Event (Readdir ''/app/public/demo/app/public'') True]
   \<and> tree (snd (create_handler example_env example_dir substring_request example_world))
        [''app'', ''previews'', ''demo'', ''app'', ''public''] = Some Dir
   \<and> trace (snd (remote_create_handler example_env example_dir scenario_request example_world))
     = [Event (EnsureDir ''/app/previews/abc123'') True,
        Event (Copy ''/app/template'' ''/app/previews/abc123'') True,
        Event (EnsureDir ''/app/previews/abc123/src'') True,
        Event (WriteFile ''/app/previews/abc123/src/App.tsx''
                 ''export default function App(){return null}'') True,
        Event (Exec ''npm install'' ''/app/previews/abc123'') True,
        Event (Exec ''npm run build'' ''/app/previews/abc123'') True,
        Event (Fetch ''https://api.vercel.com/v2/user'') True,
        Event (Fetch ''https://api.vercel.com/v9/projects'') True,
        Event (ReadFiles ''/app/previews/abc123'') True,
        Event (Fetch ''https://api.vercel.com/v13/deployments?teamId='') True]
   \<and> tree (snd (remote_create_handler example_env example_dir scenario_request example_world))
        [''app'', ''previews'', ''abc123''] = Some Dir"
  by code_simp

theorem workspace_removal_witness:
  "cleanup_guard example_dir (path_join (PREVIEW_DIR example_dir) ''abc123'')
     (path_join (PUBLIC_DIR example_dir) ''abc123'')
   \<and> same_but_removal example_env removal_fails_env
   \<and> fst (create_handler removal_fails_env example_dir scenario_request example_world)
       = Json \<lparr>url = ''/preview/abc123'', preview_id = ''abc123''\<rparr>
   \<and> run_events (create_handler example_env example_dir scenario_request) example_world
       = run_events (create_try example_env example_dir scenario_request) example_world
         @ [Event (Remove (path_join (PREVIEW_DIR example_dir) ''abc123'')) True]
   \<and> tree (snd (create_handler example_env example_dir scenario_request example_world))
        (resolve (path_join (PREVIEW_DIR example_dir) ''abc123'')) = None"
proof -
  have i: "req_id scenario_request = ''abc123''"
    by (simp add: scenario_request_def)
  have g: "cleanup_guard example_dir (path_join (PREVIEW_DIR example_dir) ''abc123'')
             (path_join (PUBLIC_DIR example_dir) ''abc123'')"
    by code_simp
  have s: "same_but_removal example_env removal_fails_env"
    by (auto simp: same_but_removal_def removal_fails_env_def example_env_def split: call.splits)
  have j: "fst (create_handler example_env example_dir scenario_request example_world)
           = Json \<lparr>url = ''/preview/abc123'', preview_id = ''abc123''\<rparr>"
    by code_simp
  have d: "io_env example_env c w' = Done" for c w'
    by (simp add: example_env_def)
  note th = workspace_removal [where E = example_env and dir = example_dir
      and req = scenario_request and w = example_world, unfolded Let_def i]
  have nb: "fst (create_handler removal_fails_env example_dir scenario_request example_world)
            = fst (create_handler example_env example_dir scenario_request example_world)"
    using th [THEN conjunct2, THEN conjunct1] s by blast
  have gd: "run_events (create_handler example_env example_dir scenario_request) example_world
       = run_events (create_try example_env example_dir scenario_request) example_world
         @ [Event (Remove (path_join (PREVIEW_DIR example_dir) ''abc123'')) True]
     \<and> tree (snd (create_handler example_env example_dir scenario_request example_world))
        (resolve (path_join (PREVIEW_DIR example_dir) ''abc123'')) = None"
    using th [THEN conjunct2, THEN conjunct2, THEN conjunct2, THEN conjunct1] g d by simp
  show ?thesis
    using g s nb j gd by simp
qed

subsection \<open>The order of the two installs\<close>

lemma installAdditionalDependencies_eq:
  "installAdditionalDependencies E sitePath dependencies w
   = (case execAsync E (''npm install '' @ join_with '' '' dependencies) sitePath w of
        (Inl e, w') \<Rightarrow> (Inl e, w')
      | (Inr r, w') \<Rightarrow> (Inr (), w'))"
  by (simp add: installAdditionalDependencies_def bind_def return_def split: prod.splits sum.splits)

lemma run_events_installAdditionalDependencies:
  "run_events (installAdditionalDependencies E sitePath dependencies) w
   = [Event (Exec (''npm install '' @ join_with '' '' dependencies) sitePath)
        (\<exists>u w'. installAdditionalDependencies E sitePath dependencies w = (Inr u, w'))]"
  by (rule run_eventsI)
     (auto simp: installAdditionalDependencies_eq execAsync_def split: prod.splits exec_outcome.splits)

lemma run_events_execAsync_ok:
  "run_events (execAsync E cmd cwd) w
   = [Event (Exec cmd cwd) (\<exists>r w'. execAsync E cmd cwd w = (Inr r, w'))]"
  by (rule run_eventsI) (auto simp: execAsync_def split: prod.splits exec_outcome.splits)

lemma run_events_readdir_ok:
  "run_events (readdir E p) w = [Event (Readdir p) (\<exists>u w'. readdir E p w = (Inr u, w'))]"
  by (rule run_eventsI) (auto simp: readdir_def perform_def split: io_outcome.splits)

lemma run_events_bind_cases:
  assumes "appends m" and "\<And>x. appends (f x)"
  shows "(\<exists>e w'. m w = (Inl e, w') \<and> run_events (bind m f) w = run_events m w)
       \<or> (\<exists>x w'. m w = (Inr x, w') \<and> run_events (bind m f) w = run_events m w @ run_events (f x) w')"
proof -
  obtain r w' where "m w = (r, w')" by (cases "m w")
  then show ?thesis
    by (cases r) (simp_all add: run_events_bind [OF assms])
qed

lemma createPreview_starts:
  "\<exists>ok0 rest0. run_events (createPreview E dir sitePath ident) w = Event (Readdir sitePath) ok0 # rest0
     \<and> (\<not> ok0 \<longrightarrow> rest0 = [])
     \<and> (ok0 \<longrightarrow> (\<exists>ok1 rest1. rest0 = Event (Exec ''npm install'' sitePath) ok1 # rest1))"
proof -
  let ?k = "\<lambda>installResult. bind (build_and_verify E sitePath) (\<lambda>u. publish E dir sitePath ident)"
  let ?rest = "bind (execAsync E ''npm install'' sitePath) ?k"
  have cp: "createPreview E dir sitePath ident = bind (readdir E sitePath) (\<lambda>dirContents. ?rest)"
    by (simp add: createPreview_def)
  have a1: "appends (readdir E sitePath)" by (simp add: readdir_def)
  have a2: "appends ?rest" by simp
  have a3: "appends (?k x)" for x :: exec_result by simp
  from run_events_bind_cases [OF a1, of "\<lambda>dirContents. ?rest" w] a2
  consider (fail) e w' where "readdir E sitePath w = (Inl e, w')"
      "run_events (createPreview E dir sitePath ident) w = run_events (readdir E sitePath) w"
    | (ok) x w' where "readdir E sitePath w = (Inr x, w')"
      "run_events (createPreview E dir sitePath ident) w
       = run_events (readdir E sitePath) w @ run_events ?rest w'"
    unfolding cp by blast
  then show ?thesis
  proof cases
    case fail
    then show ?thesis by (auto simp: run_events_readdir_ok)
  next
    case ok
    from run_events_bind_cases [OF appends_execAsync, of ?k E "''npm install''" sitePath w'] a3
    obtain rest1 where "run_events ?rest w'
        = run_events (execAsync E ''npm install'' sitePath) w' @ rest1"
      by auto
    with ok show ?thesis
      by (auto simp: run_events_readdir_ok run_events_execAsync_ok
               simp del: run_events_execAsync)
  qed
qed

lemma materialize_no_exec:
  "\<forall>e \<in> set (run_events (materialize E dir req) w). \<forall>cmd cwd. call_of e \<noteq> Exec cmd cwd"
proof (intro ballI allI)
  fix e cmd cwd
  assume "e \<in> set (run_events (materialize E dir req) w)"
  then have "fs_write (call_of e)"
    using materialize_calls(2) [of E dir req] by (simp add: only_calls_def)
  then show "call_of e \<noteq> Exec cmd cwd" by auto
qed

lemma remote_materialize_no_exec:
  "\<forall>e \<in> set (run_events (remote_materialize E dir req) w). \<forall>cmd cwd. call_of e \<noteq> Exec cmd cwd"
proof (intro ballI allI)
  fix e cmd cwd
  assume "e \<in> set (run_events (remote_materialize E dir req) w)"
  then have "fs_write (call_of e)"
    using remote_materialize_calls(2) [of E dir req] by (simp add: only_calls_def)
  then show "call_of e \<noteq> Exec cmd cwd" by auto
qed

lemma create_try_with_dependencies:
  assumes "req_dependencies req \<noteq> []"
  shows "create_try E dir req
   = bind (materialize E dir req) (\<lambda>u.
     bind (installAdditionalDependencies E (path_join (PREVIEW_DIR dir) (req_id req))
             (req_dependencies req)) (\<lambda>u.
     createPreview E dir (path_join (PREVIEW_DIR dir) (req_id req)) (req_id req)))"
  using assms by (simp add: create_try_def prepare_def Let_def bind_assoc)

lemma remote_create_try_with_dependencies:
  assumes "req_dependencies req \<noteq> []"
  shows "remote_create_try E dir req
   = bind (remote_materialize E dir req) (\<lambda>u.
     bind (execAsync E ''npm install'' (path_join (PREVIEW_DIR dir) (req_id req))) (\<lambda>installResult.
     bind (installAdditionalDependencies E (path_join (PREVIEW_DIR dir) (req_id req))
             (req_dependencies req)) (\<lambda>u.
     deployToVercel E (path_join (PREVIEW_DIR dir) (req_id req)))))"
  using assms by (simp add: remote_create_try_def Let_def)

lemma local_install_order:
  assumes "req_dependencies req \<noteq> []" and "materialize E dir req w = (Inr u, w1)"
  shows "\<exists>ok rest. run_events (create_try E dir req) w
           = run_events (materialize E dir req) w
             @ Event (Exec (''npm install '' @ join_with '' '' (req_dependencies req))
                        (path_join (PREVIEW_DIR dir) (req_id req))) ok # rest
         \<and> (\<not> ok \<longrightarrow> rest = [])
         \<and> (ok \<longrightarrow> (\<exists>ok0 rest0.
                rest = Event (Readdir (path_join (PREVIEW_DIR dir) (req_id req))) ok0 # rest0
              \<and> (\<not> ok0 \<longrightarrow> rest0 = [])
              \<and> (ok0 \<longrightarrow> (\<exists>ok1 rest1.
                     rest0 = Event (Exec ''npm install'' (path_join (PREVIEW_DIR dir) (req_id req))) ok1
                             # rest1))))"
proof -
  let ?pv = "path_join (PREVIEW_DIR dir) (req_id req)"
  let ?inst = "installAdditionalDependencies E ?pv (req_dependencies req)"
  let ?cp = "createPreview E dir ?pv (req_id req)"
  have e1: "run_events (create_try E dir req) w
            = run_events (materialize E dir req) w @ run_events (bind ?inst (\<lambda>u. ?cp)) w1"
    unfolding create_try_with_dependencies [OF assms(1)]
    using assms(2) by (simp add: run_events_bind materialize_calls)
  from run_events_bind_cases [of ?inst "\<lambda>u. ?cp" w1]
  consider (fail) e w' where "?inst w1 = (Inl e, w')"
      "run_events (bind ?inst (\<lambda>u. ?cp)) w1 = run_events ?inst w1"
    | (ok) x w2 where "?inst w1 = (Inr x, w2)"
      "run_events (bind ?inst (\<lambda>u. ?cp)) w1 = run_events ?inst w1 @ run_events ?cp w2"
    by auto
  then show ?thesis
  proof cases
    case fail
    then show ?thesis
      unfolding e1 by (auto simp: run_events_installAdditionalDependencies)
  next
    case ok
    from createPreview_starts [of E dir ?pv "req_id req" w2] ok show ?thesis
      unfolding e1 by (auto simp: run_events_installAdditionalDependencies)
  qed
qed

lemma remote_install_order:
  assumes "req_dependencies req \<noteq> []" and "remote_materialize E dir req w = (Inr u, w1)"
  shows "\<exists>ok rest. run_events (remote_create_try E dir req) w
           = run_events (remote_materialize E dir req) w
             @ Event (Exec ''npm install'' (path_join (PREVIEW_DIR dir) (req_id req))) ok # rest
         \<and> (\<not> ok \<longrightarrow> rest = [])
         \<and> (ok \<longrightarrow> (\<exists>ok1 rest1.
                rest = Event (Exec (''npm install '' @ join_with '' '' (req_dependencies req))
                                (path_join (PREVIEW_DIR dir) (req_id req))) ok1 # rest1))"
proof -
  let ?pv = "path_join (PREVIEW_DIR dir) (req_id req)"
  let ?inst = "installAdditionalDependencies E ?pv (req_dependencies req)"
  let ?k = "\<lambda>installResult. bind ?inst (\<lambda>u. deployToVercel E ?pv)"
  let ?plain = "execAsync E ''npm install'' ?pv"
  have e1: "run_events (remote_create_try E dir req) w
            = run_events (remote_materialize E dir req) w @ run_events (bind ?plain ?k) w1"
    unfolding remote_create_try_with_dependencies [OF assms(1)]
    using assms(2) by (simp add: run_events_bind remote_materialize_calls)
  have ak: "appends (?k x)" for x :: exec_result by simp
  from run_events_bind_cases [OF appends_execAsync, of ?k E "''npm install''" ?pv w1] ak
  consider (fail) e w' where "?plain w1 = (Inl e, w')"
      "run_events (bind ?plain ?k) w1 = run_events ?plain w1"
    | (ok) x w2 where "?plain w1 = (Inr x, w2)"
      "run_events (bind ?plain ?k) w1 = run_events ?plain w1 @ run_events (?k x) w2"
    by auto
  then show ?thesis
  proof cases
    case fail
    then show ?thesis
      unfolding e1 by (auto simp: run_events_execAsync_ok simp del: run_events_execAsync)
  next
    case ok
    from run_events_bind_cases [of ?inst "\<lambda>u. deployToVercel E ?pv" w2]
    obtain rest1 where "run_events (?k x) w2 = run_events ?inst w2 @ rest1"
      by auto
    with ok show ?thesis
      unfolding e1
      by (auto simp: run_events_execAsync_ok run_events_installAdditionalDependencies
               simp del: run_events_execAsync)
  qed
qed

lemma create_try_materialize_fails:
  assumes "materialize E dir req w = (Inl e, w1)"
  shows "run_events (create_try E dir req) w = run_events (materialize E dir req) w"
proof -
  have "create_try E dir req w = (Inl e, w1)"
    using assms by (simp add: create_try_def prepare_def Let_def bind_def)
  with assms show ?thesis by (simp add: run_events_def)
qed

lemma remote_create_try_materialize_fails:
  assumes "remote_materialize E dir req w = (Inl e, w1)"
  shows "run_events (remote_create_try E dir req) w = run_events (remote_materialize E dir req) w"
proof -
  have "remote_create_try E dir req w = (Inl e, w1)"
    using assms by (simp add: remote_create_try_def Let_def bind_def)
  with assms show ?thesis by (simp add: run_events_def)
qed

text \<open>
  Claim C5, amended. For a request with a non-empty list of extra dependencies:
  materialisation runs no command, and when it fails no install is invoked. When it
  succeeds, the local-strategy server first invokes, in the workspace root, the install
  that names exactly the listed dependencies (\<^verbatim>\<open>npm install\<close> followed by the names
  joined with blanks) and, when that exits with status 0 and the listing of the
  workspace succeeds, the plain install after it, inside \<^verbatim>\<open>createPreview\<close>; the
  remote-strategy server first invokes the plain install and, when that exits with
  status 0, the install that names exactly the listed dependencies right after it.
\<close>

theorem install_order:
  assumes "req_dependencies req \<noteq> []"
  shows "let previewPath = path_join (PREVIEW_DIR dir) (req_id req);
             extra = Exec (''npm install '' @ join_with '' '' (req_dependencies req)) previewPath;
             plain = Exec ''npm install'' previewPath
         in (\<forall>e \<in> set (run_events (materialize E dir req) w). \<forall>cmd cwd. call_of e \<noteq> Exec cmd cwd)
          \<and> (\<forall>e \<in> set (run_events (remote_materialize E dir req) w).
                \<forall>cmd cwd. call_of e \<noteq> Exec cmd cwd)
          \<and> (\<forall>w1. materialize E dir req w = (Inr (), w1) \<longrightarrow>
               (\<exists>ok rest. run_events (create_try E dir req) w
                     = run_events (materialize E dir req) w @ Event extra ok # rest
                 \<and> (\<not> ok \<longrightarrow> rest = [])
                 \<and> (ok \<longrightarrow> (\<exists>ok0 rest0. rest = Event (Readdir previewPath) ok0 # rest0
                          \<and> (\<not> ok0 \<longrightarrow> rest0 = [])
                          \<and> (ok0 \<longrightarrow> (\<exists>ok1 rest1. rest0 = Event plain ok1 # rest1))))))
          \<and> (\<forall>w1. remote_materialize E dir req w = (Inr (), w1) \<longrightarrow>
               (\<exists>ok rest. run_events (remote_create_try E dir req) w
                     = run_events (remote_materialize E dir req) w @ Event plain ok # rest
                 \<and> (\<not> ok \<longrightarrow> rest = [])
                 \<and> (ok \<longrightarrow> (\<exists>ok1 rest1. rest = Event extra ok1 # rest1))))
          \<and> (\<forall>e w1. materialize E dir req w = (Inl e, w1) \<longrightarrow>
                run_events (create_try E dir req) w = run_events (materialize E dir req) w)
          \<and> (\<forall>e w1. remote_materialize E dir req w = (Inl e, w1) \<longrightarrow>
                run_events (remote_create_try E dir req) w
                = run_events (remote_materialize E dir req) w)"
  unfolding Let_def
  using materialize_no_exec [of E dir req w] remote_materialize_no_exec [of E dir req w]
    local_install_order [OF assms] remote_install_order [OF assms]
    create_try_materialize_fails remote_create_try_materialize_fails
  by (intro conjI allI impI) blast+

text \<open>
  The local-strategy server on a request with two extra dependencies: the install that
  names them comes before the plain install.
\<close>

theorem install_order_counterexample:
  "trace (snd (create_handler example_env example_dir dependencies_request example_world))
   = [Event (EnsureDir ''/app/previews/abc123'') True,
      Event (Copy ''/app/template'' ''/app/previews/abc123'') True,
      Event (EnsureDir ''/app/previews/abc123/src'') True,
      Event (WriteFile ''/app/previews/abc123/src/App.tsx''
               ''export default function App(){return null}'') True,
      Event (Exec ''npm install lodash axios'' ''/app/previews/abc123'') True,
      Event (Readdir ''/app/previews/abc123'') True,
      Event (Exec ''npm install'' ''/app/previews/abc123'') True,
      Event (Exec ''npm run build'' ''/app/previews/abc123'') True,
      Event (PathExists ''/app/previews/abc123/dist'') True,
      Event (PathExists ''/app/previews/abc123/dist/index.html'') True,
      Event (EnsureDir ''/app/public/abc123'') True,
      Event (Copy ''/app/previews/abc123/dist'' ''/app/public/abc123'') True,
      Event (PathExists ''/app/public/abc123/index.html'') True,
      Event (Readdir ''/app/public/abc123'') True,
      Event (Remove ''/app/previews/abc123'') True]"
  by code_simp

theorem install_order_witness:
  "req_dependencies dependencies_request \<noteq> []
   \<and> fst (materialize example_env example_dir dependencies_request example_world) = Inr ()
   \<and> fst (remote_materialize example_env example_dir dependencies_request example_world) = Inr ()
   \<and> (\<exists>ok rest. run_events (create_try example_env example_dir dependencies_request) example_world
         = run_events (materialize example_env example_dir dependencies_request) example_world
           @ Event (Exec (''npm install '' @ join_with '' '' [''lodash'', ''axios''])
                      (path_join (PREVIEW_DIR example_dir) ''abc123'')) ok # rest)
   \<and> (\<exists>ok rest. run_events (remote_create_try example_env example_dir dependencies_request) example_world
         = run_events (remote_materialize example_env example_dir dependencies_request) example_world
           @ Event (Exec ''npm install'' (path_join (PREVIEW_DIR example_dir) ''abc123'')) ok # rest)"
proof -
  have d: "req_dependencies dependencies_request \<noteq> []"
    by (simp add: dependencies_request_def)
  have i: "req_id dependencies_request = ''abc123''"
    and l: "req_dependencies dependencies_request = [''lodash'', ''axios'']"
    by (simp_all add: dependencies_request_def)
  have f: "fst (materialize example_env example_dir dependencies_request example_world) = Inr ()"
    by code_simp
  have g: "fst (remote_materialize example_env example_dir dependencies_request example_world) = Inr ()"
    by code_simp
  have m: "materialize example_env example_dir dependencies_request example_world
           = (Inr (), snd (materialize example_env example_dir dependencies_request example_world))"
    using f by (simp add: prod_eq_iff)
  have n: "remote_materialize example_env example_dir dependencies_request example_world
           = (Inr (), snd (remote_materialize example_env example_dir dependencies_request example_world))"
    using g by (simp add: prod_eq_iff)
  note th = install_order [OF d, where E = example_env and dir = example_dir
      and w = example_world, unfolded Let_def i l]
  have a: "\<exists>ok rest. run_events (create_try example_env example_dir dependencies_request) example_world
         = run_events (materialize example_env example_dir dependencies_request) example_world
           @ Event (Exec (''npm install '' @ join_with '' '' [''lodash'', ''axios''])
                      (path_join (PREVIEW_DIR example_dir) ''abc123'')) ok # rest"
    using th [THEN conjunct2, THEN conjunct2, THEN conjunct1, rule_format, OF m] by blast
  have b: "\<exists>ok rest. run_events (remote_create_try example_env example_dir dependencies_request) example_world
         = run_events (remote_materialize example_env example_dir dependencies_request) example_world
           @ Event (Exec ''npm install'' (path_join (PREVIEW_DIR example_dir) ''abc123'')) ok # rest"
    using th [THEN conjunct2, THEN conjunct2, THEN conjunct2, THEN conjunct1, rule_format, OF n]
    by blast
  show ?thesis
    using d f g a b by blast
qed

subsection \<open>Failures of the build block\<close>

lemma create_handler_public_frame:
  assumes "absolute dir" and "prefix (resolve (path_join (PUBLIC_DIR dir) (req_id req))) q"
  shows "tree (snd (create_handler E dir req w)) q = tree (snd (create_try E dir req w)) q"
  using cleanup_after_success_frame [OF assms] cleanup_after_error_frame [OF assms]
  by (simp add: create_handler_def Let_def split: prod.splits sum.splits)

lemma create_try_after_prepare:
  assumes "prepare E dir req w0 = (Inr u, w)"
  shows "create_try E dir req w0
         = createPreview E dir (path_join (PREVIEW_DIR dir) (req_id req)) (req_id req) w"
  using assms by (simp add: create_try_def Let_def bind_Inr)

lemma createPreview_after_install:
  assumes "until_installed E sitePath w = (Inr r1, w2)"
  shows "createPreview E dir sitePath ident w
         = bind (build_and_verify E sitePath) (\<lambda>u. publish E dir sitePath ident) w2"
    and "trace w2 = trace w @ [Event (Readdir sitePath) True, Event (Exec ''npm install'' sitePath) True]"
proof -
  from assms obtain x w1 where s1: "readdir E sitePath w = (Inr x, w1)"
    and s2: "execAsync E ''npm install'' sitePath w1 = (Inr r1, w2)"
    unfolding until_installed_def bind_Inr_iff by auto
  show "createPreview E dir sitePath ident w
         = bind (build_and_verify E sitePath) (\<lambda>u. publish E dir sitePath ident) w2"
    using s1 s2 by (simp add: createPreview_def bind_Inr)
  show "trace w2 = trace w @ [Event (Readdir sitePath) True, Event (Exec ''npm install'' sitePath) True]"
    using s1 s2 by (auto simp: readdir_def perform_Inr_iff execAsync_Inr_iff)
qed

lemma until_built_installed:
  assumes "until_built E sitePath w = (Inr r, wb)"
  obtains r1 w2 t where "until_installed E sitePath w = (Inr r1, w2)"
    and "exec_env E ''npm run build'' sitePath w2 = (Exited r, t)" and "exitStatus r = 0"
    and "tree wb = t"
proof -
  from assms obtain x w1 r1 w2 where s1: "readdir E sitePath w = (Inr x, w1)"
    and s2: "execAsync E ''npm install'' sitePath w1 = (Inr r1, w2)"
    and s3: "execAsync E ''npm run build'' sitePath w2 = (Inr r, wb)"
    unfolding until_built_def bind_Inr_iff by auto
  from s3 obtain t where "exec_env E ''npm run build'' sitePath w2 = (Exited r, t)"
    and "exitStatus r = 0" and "tree wb = t"
    by (auto simp: execAsync_Inr_iff)
  moreover have "until_installed E sitePath w = (Inr r1, w2)"
    using s1 s2 by (simp add: until_installed_def bind_Inr)
  ultimately show ?thesis by (rule that [rotated])
qed

lemma publish_errors:
  assumes "fst (publish E dir sitePath ident w) = Inl e"
  shows "(\<exists>c m. e = IoError c m) \<or> e = ArtifactNotFound ''index.html''"
  using assms
  unfolding publish_def Let_def bind_def ensureDir_def copy_def readdir_def return_def
  by (auto simp: perform_result verify_required split: prod.splits sum.splits if_splits)

subsection \<open>The parent directory of a joined path\<close>

lemma join_with_snoc: "xs \<noteq> [] \<Longrightarrow> join_with sep (xs @ [x]) = join_with sep xs @ sep @ x"
  by (induction sep xs rule: join_with.induct) auto

lemma dropWhile_slashes:
  assumes "l \<noteq> []" and "slash \<notin> set l" and "trail = [] \<or> trail = [slash]"
  shows "dropWhile (\<lambda>c. c = slash) (rev trail @ rev l @ rest) = rev l @ rest"
proof -
  obtain k c where l: "l = k @ [c]"
    using assms(1) by (cases l rule: rev_cases) auto
  with assms(2) have "c \<noteq> slash" by auto
  with l assms(3) show ?thesis by auto
qed

lemma dropWhile_no_slash:
  assumes "slash \<notin> set l"
  shows "dropWhile (\<lambda>c. c \<noteq> slash) (rev l @ rest) = dropWhile (\<lambda>c. c \<noteq> slash) rest"
  using assms by (intro dropWhile_append2) auto

lemma resolve_dirname_normalize:
  assumes "absolute x"
  shows "resolve (dirname (normalize x)) = butlast (resolve x)"
proof (cases "resolve x" rule: rev_cases)
  case Nil
  then have "normalize x = ''/''"
    using assms by (simp add: normalize_absolute)
  then show ?thesis
    using Nil by (simp add: dirname_def resolve_def slash_def)
next
  case (snoc init l)
  let ?trail = "if last x = slash then [slash] else []"
  have clean: "\<forall>s \<in> set (init @ [l]). s \<noteq> [] \<and> s \<noteq> ''.'' \<and> s \<noteq> ''..'' \<and> slash \<notin> set s"
    using resolve_clean [of x] snoc by simp
  then have l: "l \<noteq> []" "slash \<notin> set l" by simp_all
  have tr: "?trail = [] \<or> ?trail = [slash]" by simp
  have n: "normalize x = slash # join_with [slash] (init @ [l]) @ ?trail"
    using assms snoc by (simp add: normalize_absolute)
  show ?thesis
  proof (cases "init = []")
    case True
    have "dropWhile (\<lambda>c. c = slash) (rev ?trail @ rev l @ []) = rev l @ []"
      using l tr by (rule dropWhile_slashes)
    moreover have "dropWhile (\<lambda>c. c \<noteq> slash) (rev l @ []) = dropWhile (\<lambda>c. c \<noteq> slash) []"
      using l(2) by (rule dropWhile_no_slash)
    ultimately have "dirname (normalize x) = ''/''"
      unfolding n using True by (simp add: dirname_def Let_def slash_def)
    then show ?thesis
      using snoc True by (simp add: resolve_def slash_def)
  next
    case False
    let ?j = "join_with [slash] init"
    have j: "join_with [slash] (init @ [l]) = ?j @ [slash] @ l"
      using False by (rule join_with_snoc)
    have jn: "?j \<noteq> []"
      using join_with_Nil_iff [of init "[slash]"] clean False by auto
    have d1: "dropWhile (\<lambda>c. c = slash) (rev ?trail @ rev l @ (slash # rev ?j)) = rev l @ (slash # rev ?j)"
      using l tr by (rule dropWhile_slashes)
    have d2: "dropWhile (\<lambda>c. c \<noteq> slash) (rev l @ (slash # rev ?j)) = slash # rev ?j"
      using dropWhile_no_slash [OF l(2), of "slash # rev ?j"] by simp
    have "rev (tl (normalize x)) = rev ?trail @ rev l @ (slash # rev ?j)"
      unfolding n j by simp
    then have "dirname (normalize x) = take (Suc (length ?j)) (normalize x)"
      using d1 d2 jn by (simp add: dirname_def Let_def n)
    also have "\<dots> = slash # ?j"
      unfolding n j by simp
    finally have "resolve (dirname (normalize x)) = normalizeString False [] ([] # split_on slash ?j)"
      by (simp add: resolve_def)
    also have "split_on slash ?j = init"
      using False clean by (intro split_on_join) auto
    also have "normalizeString False [] ([] # init) = init"
      using clean normalizeString_proper [of init False "[]"] by simp
    finally show ?thesis using snoc by simp
  qed
qed

lemma resolve_dirname:
  assumes "absolute base"
  shows "resolve (dirname (path_join base p)) = butlast (resolve (path_join base p))"
proof -
  let ?x = "if p = [] then base else base @ [slash] @ p"
  have ax: "absolute ?x"
    using assms by (simp add: absolute_def)
  have "path_join base p = normalize ?x"
    using assms by (simp add: path_join_def absolute_def)
  then show ?thesis
    using resolve_dirname_normalize [OF ax] resolve_normalize [OF ax] by simp
qed

lemma not_prefix_butlast: "\<not> prefix p xs \<Longrightarrow> \<not> prefix p (butlast xs)"
  by (metis prefix_order.trans prefixeq_butlast)

subsection \<open>What a computation leaves as it was\<close>

lemma leaves_bind:
  assumes "leaves q m" and "\<And>x. leaves q (f x)"
  shows "leaves q (bind m f)"
  unfolding leaves_def
proof
  fix w
  obtain r w' where mw: "m w = (r, w')" by (cases "m w")
  have "tree w' q = tree w q"
    using assms(1) mw by (auto simp: leaves_def dest: spec [of _ w])
  moreover have "tree (snd (f x w')) q = tree w' q" for x
    using assms(2) by (simp add: leaves_def)
  ultimately show "tree (snd (bind m f w)) q = tree w q"
    using mw by (cases r) (simp_all add: bind_def)
qed

lemma leaves_return [simp]: "leaves q (return x)"
  by (simp add: leaves_def return_def)

lemma leaves_throw [simp]: "leaves q (throw e)"
  by (simp add: leaves_def throw_def)

lemma leaves_perform:
  assumes "\<not> touches c q" and "\<And>t. effect t q = t q"
  shows "leaves q (perform E c effect)"
  unfolding leaves_def using assms by (simp add: perform_frame)

lemma leaves_ensureDir: "\<not> prefix q (resolve p) \<Longrightarrow> leaves q (ensureDir E p)"
  unfolding ensureDir_def by (rule leaves_perform) (simp_all add: mkdirs_def)

lemma leaves_writeFile: "q \<noteq> resolve p \<Longrightarrow> leaves q (writeFile E p c)"
  unfolding writeFile_def by (rule leaves_perform) (simp_all add: put_file_def)

lemma leaves_copy: "\<not> prefix (resolve d) q \<Longrightarrow> leaves q (copy E s d)"
  unfolding copy_def by (rule leaves_perform) (simp_all add: copy_tree_def)

lemma leaves_readdir [simp]: "leaves q (readdir E p)"
  unfolding readdir_def by (rule leaves_perform) simp_all

lemma leaves_pathExists [simp]: "leaves q (pathExists p)"
  by (simp add: leaves_def pathExists_eq)

lemma leaves_verify [simp]: "leaves q (verifyBuildArtifacts buildPath requiredFiles)"
  by (simp add: leaves_def)

lemma leaves_execAsync:
  assumes "commands_leave E cwd pub" and "prefix pub q"
  shows "leaves q (execAsync E cmd cwd)"
  unfolding leaves_def
proof
  fix w
  obtain out t where x: "exec_env E cmd cwd w = (out, t)"
    by (cases "exec_env E cmd cwd w")
  have "t q = tree w q"
    using assms x by (auto simp: commands_leave_def dest!: spec [of _ cmd] spec [of _ w])
  then show "tree (snd (execAsync E cmd cwd w)) q = tree w q"
    using x by (cases out) (simp_all add: execAsync_def)
qed

subsection \<open>Requests that stay out of the public directory of their id\<close>

lemma writes_below_touches: "touches c q \<Longrightarrow> prefix p q \<Longrightarrow> writes_below p c"
  by (cases c) (auto dest: prefix_same_cases)

lemma stays_out_bind:
  assumes "stays_out pub m" and "\<And>x. stays_out pub (f x)"
  shows "stays_out pub (bind m f)"
  using assms unfolding stays_out_def
  by (auto intro: only_calls_bind leaves_bind)

lemma stays_out_return [simp]: "stays_out pub (return x)"
  by (simp add: stays_out_def only_calls_return)

lemma stays_out_ensureDir:
  assumes "\<not> prefix pub (resolve p)"
  shows "stays_out pub (ensureDir E p)"
proof -
  have "leaves q (ensureDir E p)" if "prefix pub q" for q
  proof (rule leaves_ensureDir)
    show "\<not> prefix q (resolve p)"
      using assms that by (meson prefix_order.trans)
  qed
  then show ?thesis
    using assms by (simp add: stays_out_def ensureDir_def only_calls_perform)
qed

lemma stays_out_writeFile:
  assumes "\<not> prefix pub (resolve p)"
  shows "stays_out pub (writeFile E p c)"
proof -
  have "leaves q (writeFile E p c)" if "prefix pub q" for q
    using assms that by (intro leaves_writeFile) auto
  then show ?thesis
    using assms by (simp add: stays_out_def writeFile_def only_calls_perform)
qed

lemma stays_out_copy:
  assumes "\<not> prefix pub (resolve d)" and "\<not> prefix (resolve d) pub"
  shows "stays_out pub (copy E s d)"
proof -
  have "leaves q (copy E s d)" if "prefix pub q" for q
  proof (rule leaves_copy)
    show "\<not> prefix (resolve d) q"
      using assms that by (meson prefix_same_cases)
  qed
  then show ?thesis
    using assms by (simp add: stays_out_def copy_def only_calls_perform)
qed

lemma processFiles_stays_out_aux:
  assumes "\<forall>f \<in> set files. written_outside pub basePath f \<longrightarrow> stays_out pub (processFile E f basePath)"
    and "all_written_outside pub basePath files"
  shows "stays_out pub (processFiles E files basePath)"
  using assms
proof (induction files)
  case Nil
  show ?case by (simp add: processFiles_Nil)
next
  case (Cons f files)
  then show ?case
    unfolding processFiles_Cons by (intro stays_out_bind) simp_all
qed

lemma processFile_stays_out:
  assumes "absolute basePath"
  shows "written_outside pub basePath f \<Longrightarrow> stays_out pub (processFile E f basePath)"
proof (induction f)
  case (FileNode ty p c ch)
  show ?case
  proof (cases "ty = ''folder''")
    case True
    with FileNode.prems have o: "\<not> prefix pub (resolve (path_join basePath p))"
      and ch: "all_written_outside pub basePath ch"
      by simp_all
    have "stays_out pub (processFiles E ch basePath)"
      using FileNode.IH ch by (intro processFiles_stays_out_aux) auto
    then show ?thesis
      unfolding processFile_eq using True o
      by (simp add: stays_out_bind stays_out_ensureDir)
  next
    case nf: False
    show ?thesis
    proof (cases "ty = ''file''")
      case True
      with FileNode.prems nf have o: "\<not> prefix pub (resolve (path_join basePath p))"
        by simp
      then have "\<not> prefix pub (resolve (dirname (path_join basePath p)))"
        unfolding resolve_dirname [OF assms] by (rule not_prefix_butlast)
      then show ?thesis
        unfolding processFile_eq using nf True o
        by (simp add: stays_out_bind stays_out_ensureDir stays_out_writeFile)
    next
      case False
      then show ?thesis
        unfolding processFile_eq using nf by simp
    qed
  qed
qed

lemma processFiles_stays_out:
  assumes "absolute basePath" and "all_written_outside pub basePath files"
  shows "stays_out pub (processFiles E files basePath)"
  using assms processFile_stays_out by (intro processFiles_stays_out_aux) auto

lemma absolute_PREVIEW_DIR: "absolute dir \<Longrightarrow> absolute (path_join (PREVIEW_DIR dir) ident)"
  by (simp add: PREVIEW_DIR_def absolute_path_join)

lemma absolute_PUBLIC_DIR: "absolute dir \<Longrightarrow> absolute (path_join (PUBLIC_DIR dir) ident)"
  by (simp add: PUBLIC_DIR_def absolute_path_join)

lemma workspace_public_apart:
  assumes "absolute dir"
    and "path_join (PREVIEW_DIR dir) ident \<noteq> path_join (PUBLIC_DIR dir) ident"
  shows "\<not> prefix (resolve (path_join (PUBLIC_DIR dir) ident)) (resolve (path_join (PREVIEW_DIR dir) ident))"
    and "\<not> prefix (resolve (path_join (PREVIEW_DIR dir) ident)) (resolve (path_join (PUBLIC_DIR dir) ident))"
proof -
  from workspace_public_fork [OF assms(1), of ident] assms(2)
  obtain rest where
    "resolve (path_join (PREVIEW_DIR dir) ident) = resolve dir @ ''previews'' # rest"
    "resolve (path_join (PUBLIC_DIR dir) ident) = resolve dir @ ''public'' # rest"
    by blast
  then show "\<not> prefix (resolve (path_join (PUBLIC_DIR dir) ident)) (resolve (path_join (PREVIEW_DIR dir) ident))"
    and "\<not> prefix (resolve (path_join (PREVIEW_DIR dir) ident)) (resolve (path_join (PUBLIC_DIR dir) ident))"
    by simp_all
qed

lemma materialize_stays_out:
  assumes "absolute dir"
    and "path_join (PREVIEW_DIR dir) (req_id req) \<noteq> path_join (PUBLIC_DIR dir) (req_id req)"
    and "all_written_outside (resolve (path_join (PUBLIC_DIR dir) (req_id req)))
           (path_join (PREVIEW_DIR dir) (req_id req)) (req_files req)"
  shows "stays_out (resolve (path_join (PUBLIC_DIR dir) (req_id req))) (materialize E dir req)"
  unfolding materialize_def Let_def
  using workspace_public_apart [OF assms(1,2)] assms(3) absolute_PREVIEW_DIR [OF assms(1)]
  by (intro stays_out_bind stays_out_ensureDir stays_out_copy processFiles_stays_out)

lemma extra_install_calls:
  "only_calls (\<lambda>c. \<not> writes_below pub c) (installAdditionalDependencies E sitePath deps)"
  unfolding installAdditionalDependencies_def
  by (intro only_calls_bind only_calls_execAsync only_calls_return) simp_all

lemma install_leaves:
  assumes "commands_leave E sitePath pub" and "prefix pub q"
  shows "leaves q (installAdditionalDependencies E sitePath deps)"
  unfolding installAdditionalDependencies_def
  using leaves_execAsync [OF assms] by (intro leaves_bind) simp_all

lemma prepare_order:
  assumes "absolute dir"
    and "path_join (PREVIEW_DIR dir) (req_id req) \<noteq> path_join (PUBLIC_DIR dir) (req_id req)"
    and "all_written_outside (resolve (path_join (PUBLIC_DIR dir) (req_id req)))
           (path_join (PREVIEW_DIR dir) (req_id req)) (req_files req)"
  shows "only_calls (\<lambda>c. \<not> writes_below (resolve (path_join (PUBLIC_DIR dir) (req_id req))) c)
           (prepare E dir req)"
proof -
  note m = materialize_stays_out [OF assms, of E, unfolded stays_out_def]
  show ?thesis
    unfolding prepare_def Let_def
  proof (rule only_calls_bind)
    show "appends (materialize E dir req)" using m by simp
    show "only_calls (\<lambda>c. \<not> writes_below (resolve (path_join (PUBLIC_DIR dir) (req_id req))) c)
            (materialize E dir req)" using m by simp
  qed (simp_all add: extra_install_calls only_calls_return)
qed

lemma prepare_leaves:
  assumes "absolute dir"
    and "path_join (PREVIEW_DIR dir) (req_id req) \<noteq> path_join (PUBLIC_DIR dir) (req_id req)"
    and "all_written_outside (resolve (path_join (PUBLIC_DIR dir) (req_id req)))
           (path_join (PREVIEW_DIR dir) (req_id req)) (req_files req)"
    and "commands_leave E (path_join (PREVIEW_DIR dir) (req_id req))
           (resolve (path_join (PUBLIC_DIR dir) (req_id req)))"
    and "prefix (resolve (path_join (PUBLIC_DIR dir) (req_id req))) q"
  shows "leaves q (prepare E dir req)"
proof -
  note m = materialize_stays_out [OF assms(1-3), of E, unfolded stays_out_def]
  show ?thesis
    unfolding prepare_def Let_def
  proof (rule leaves_bind)
    show "leaves q (materialize E dir req)" using m assms(5) by simp
  qed (simp add: install_leaves [OF assms(4,5)])
qed

lemma until_installed_leaves:
  assumes "commands_leave E sitePath pub" and "prefix pub q"
  shows "leaves q (until_installed E sitePath)"
  unfolding until_installed_def
  using leaves_execAsync [OF assms] by (intro leaves_bind) simp_all

lemma build_and_verify_leaves:
  assumes "commands_leave E sitePath pub" and "prefix pub q"
  shows "leaves q (build_and_verify E sitePath)"
  unfolding leaves_def
proof
  fix w
  obtain out t where x: "exec_env E ''npm run build'' sitePath w = (out, t)"
    by (cases "exec_env E ''npm run build'' sitePath w")
  have "t q = tree w q"
    using assms x by (auto simp: commands_leave_def dest!: spec [of _ "''npm run build''"] spec [of _ w])
  then show "tree (snd (build_and_verify E sitePath w)) q = tree w q"
    by (simp add: build_and_verify_eq [OF x] Let_def)
qed

lemma until_verified_leaves:
  assumes "commands_leave E sitePath pub" and "prefix pub q"
  shows "leaves q (until_verified E sitePath)"
  unfolding until_verified_def
  using leaves_execAsync [OF assms] build_and_verify_leaves [OF assms]
  by (intro leaves_bind) simp_all

subsection \<open>The calls and the outcome of createPreview\<close>

lemma preceded_by_mono:
  assumes "preceded_by Q' P evs" and "\<And>e. Q e \<Longrightarrow> Q' e"
  shows "preceded_by Q P evs"
  using assms unfolding preceded_by_def by blast

lemma preceded_by_prepend:
  assumes "\<forall>e \<in> set xs. \<not> Q e" and "preceded_by Q P ys"
  shows "preceded_by Q P (xs @ ys)"
  using preceded_by_none [OF assms(1)] assms(2) by (intro preceded_by_append) simp_all

lemma preceded_by_extend:
  assumes "preceded_by Q P xs" and "\<forall>e \<in> set ys. \<not> Q e"
  shows "preceded_by Q P (xs @ ys)"
  using assms(1) preceded_by_none [OF assms(2)] by (intro preceded_by_append) simp_all

lemma writes_below_writes: "writes_below p c \<Longrightarrow> writes c"
  by (cases c) simp_all

lemma createPreview_events:
  "run_events (createPreview E dir sitePath ident) w
   = run_events (until_verified E sitePath) w
     @ (case until_verified E sitePath w of
          (Inl e, w1) \<Rightarrow> []
        | (Inr u, w1) \<Rightarrow> run_events (publish E dir sitePath ident) w1)"
  by (simp add: createPreview_stages run_events_bind)

lemma createPreview_order:
  "preceded_by (\<lambda>e. writes (call_of e))
     (\<lambda>e. e = Event (PathExists (path_join (path_join sitePath ''dist'') ''index.html'')) True)
     (run_events (createPreview E dir sitePath ident) w)"
proof -
  let ?V = "Event (PathExists (path_join (path_join sitePath ''dist'') ''index.html'')) True"
  let ?Q = "\<lambda>e. writes (call_of e)"
  let ?P = "\<lambda>e. e = ?V"
  obtain r1 w1 where uv: "until_verified E sitePath w = (r1, w1)"
    by (cases "until_verified E sitePath w")
  have noq: "\<forall>e \<in> set (run_events (until_verified E sitePath) w). \<not> ?Q e"
    using until_verified_calls [of E sitePath] by (simp add: only_calls_def)
  show ?thesis
    unfolding createPreview_events
  proof (rule preceded_by_append)
    show "preceded_by ?Q ?P (run_events (until_verified E sitePath) w)"
      using noq by (rule preceded_by_none)
    show "(\<exists>x \<in> set (run_events (until_verified E sitePath) w). ?P x)
          \<or> preceded_by ?Q ?P
               (case until_verified E sitePath w of
                  (Inl e, w1) \<Rightarrow> []
                | (Inr u, w1) \<Rightarrow> run_events (publish E dir sitePath ident) w1)"
    proof (cases r1)
      case (Inl e)
      with uv show ?thesis by (simp add: preceded_by_def)
    next
      case (Inr u)
      with uv have "until_verified E sitePath w = (Inr u, w1)" by simp
      from until_verified_Inr(1) [OF this] show ?thesis by simp
    qed
  qed
qed

lemma createPreview_Inr:
  assumes "createPreview E dir sitePath ident w = (Inr r, w')"
  shows "r = \<lparr>url = ''/preview/'' @ ident, preview_id = ident\<rparr>"
    and "run_events (createPreview E dir sitePath ident) w
         = [Event (Readdir sitePath) True,
            Event (Exec ''npm install'' sitePath) True,
            Event (Exec ''npm run build'' sitePath) True,
            Event (PathExists (path_join sitePath ''dist'')) True,
            Event (PathExists (path_join (path_join sitePath ''dist'') ''index.html'')) True,
            Event (EnsureDir (path_join (PUBLIC_DIR dir) ident)) True,
            Event (Copy (path_join sitePath ''dist'') (path_join (PUBLIC_DIR dir) ident)) True,
            Event (PathExists (path_join (path_join (PUBLIC_DIR dir) ident) ''index.html'')) True,
            Event (Readdir (path_join (PUBLIC_DIR dir) ident)) True]"
    and "tree w' (resolve (path_join (path_join (PUBLIC_DIR dir) ident) ''index.html'')) \<noteq> None"
proof -
  from assms obtain u w1 where s1: "until_verified E sitePath w = (Inr u, w1)"
    and s2: "publish E dir sitePath ident w1 = (Inr r, w')"
    unfolding createPreview_stages bind_Inr_iff by auto
  show "r = \<lparr>url = ''/preview/'' @ ident, preview_id = ident\<rparr>"
    using publish_Inr(1) [OF s2] .
  show "tree w' (resolve (path_join (path_join (PUBLIC_DIR dir) ident) ''index.html'')) \<noteq> None"
    using publish_Inr(3) [OF s2] .
  show "run_events (createPreview E dir sitePath ident) w
         = [Event (Readdir sitePath) True,
            Event (Exec ''npm install'' sitePath) True,
            Event (Exec ''npm run build'' sitePath) True,
            Event (PathExists (path_join sitePath ''dist'')) True,
            Event (PathExists (path_join (path_join sitePath ''dist'') ''index.html'')) True,
            Event (EnsureDir (path_join (PUBLIC_DIR dir) ident)) True,
            Event (Copy (path_join sitePath ''dist'') (path_join (PUBLIC_DIR dir) ident)) True,
            Event (PathExists (path_join (path_join (PUBLIC_DIR dir) ident) ''index.html'')) True,
            Event (Readdir (path_join (PUBLIC_DIR dir) ident)) True]"
    using publish_Inr(2) [OF s2] until_verified_Inr(1) [OF s1] s1
    by (simp add: createPreview_events)
qed

lemma createPreview_unverified:
  assumes "commands_leave E sitePath pub" and "prefix pub q"
    and "Event (PathExists (path_join (path_join sitePath ''dist'') ''index.html'')) True
           \<notin> set (run_events (createPreview E dir sitePath ident) w)"
  shows "tree (snd (createPreview E dir sitePath ident w)) q = tree w q"
proof -
  obtain r1 w1 where uv: "until_verified E sitePath w = (r1, w1)"
    by (cases "until_verified E sitePath w")
  have l: "tree w1 q = tree w q"
    using until_verified_leaves [OF assms(1,2)] uv by (auto simp: leaves_def dest: spec [of _ w])
  show ?thesis
  proof (cases r1)
    case (Inl e)
    with uv l show ?thesis by (simp add: createPreview_stages bind_def)
  next
    case (Inr u)
    with uv have "until_verified E sitePath w = (Inr u, w1)" by simp
    from until_verified_Inr(1) [OF this] assms(3) show ?thesis
      by (simp add: createPreview_events)
  qed
qed

text \<open>
  The outcome of \<^verbatim>\<open>createPreview\<close> once the install has succeeded, by what the build
  command does.
\<close>

lemma createPreview_build_outcome:
  assumes "until_installed E sitePath w = (Inr r1, w2)"
    and "exec_env E ''npm run build'' sitePath w2 = (out, t)"
  shows "\<not> succeeded out \<Longrightarrow>
           fst (createPreview E dir sitePath ident w) = Inl (rejection ''npm run build'' out)
         \<and> tree (snd (createPreview E dir sitePath ident w)) = t
         \<and> run_events (createPreview E dir sitePath ident) w
             = [Event (Readdir sitePath) True, Event (Exec ''npm install'' sitePath) True,
                Event (Exec ''npm run build'' sitePath) False]"
    and "succeeded out \<Longrightarrow> t (resolve (path_join sitePath ''dist'')) = None \<Longrightarrow>
           fst (createPreview E dir sitePath ident w) = Inl DistNotFound
         \<and> tree (snd (createPreview E dir sitePath ident w)) = t
         \<and> run_events (createPreview E dir sitePath ident) w
             = [Event (Readdir sitePath) True, Event (Exec ''npm install'' sitePath) True,
                Event (Exec ''npm run build'' sitePath) True,
                Event (PathExists (path_join sitePath ''dist'')) False]"
    and "succeeded out \<Longrightarrow> t (resolve (path_join sitePath ''dist'')) \<noteq> None \<Longrightarrow>
         t (resolve (path_join (path_join sitePath ''dist'') ''index.html'')) = None \<Longrightarrow>
           fst (createPreview E dir sitePath ident w) = Inl (ArtifactNotFound ''index.html'')
         \<and> tree (snd (createPreview E dir sitePath ident w)) = t
         \<and> run_events (createPreview E dir sitePath ident) w
             = [Event (Readdir sitePath) True, Event (Exec ''npm install'' sitePath) True,
                Event (Exec ''npm run build'' sitePath) True,
                Event (PathExists (path_join sitePath ''dist'')) True,
                Event (PathExists (path_join (path_join sitePath ''dist'') ''index.html'')) False]"
    and "succeeded out \<Longrightarrow> t (resolve (path_join sitePath ''dist'')) \<noteq> None \<Longrightarrow>
         fst (createPreview E dir sitePath ident w) = Inl e \<Longrightarrow>
           (\<exists>c m. e = IoError c m) \<or> e = ArtifactNotFound ''index.html''"
proof -
  note cp = createPreview_after_install(1) [OF assms(1), where dir = dir and ident = ident]
    createPreview_after_install(2) [OF assms(1)]
  note bv = build_and_verify_eq [OF assms(2)]
  show "\<not> succeeded out \<Longrightarrow>
           fst (createPreview E dir sitePath ident w) = Inl (rejection ''npm run build'' out)
         \<and> tree (snd (createPreview E dir sitePath ident w)) = t
         \<and> run_events (createPreview E dir sitePath ident) w
             = [Event (Readdir sitePath) True, Event (Exec ''npm install'' sitePath) True,
                Event (Exec ''npm run build'' sitePath) False]"
    by (simp add: cp bv bind_def Let_def run_events_def)
  show "succeeded out \<Longrightarrow> t (resolve (path_join sitePath ''dist'')) = None \<Longrightarrow>
           fst (createPreview E dir sitePath ident w) = Inl DistNotFound
         \<and> tree (snd (createPreview E dir sitePath ident w)) = t
         \<and> run_events (createPreview E dir sitePath ident) w
             = [Event (Readdir sitePath) True, Event (Exec ''npm install'' sitePath) True,
                Event (Exec ''npm run build'' sitePath) True,
                Event (PathExists (path_join sitePath ''dist'')) False]"
    by (simp add: cp bv bind_def Let_def run_events_def)
  show "succeeded out \<Longrightarrow> t (resolve (path_join sitePath ''dist'')) \<noteq> None \<Longrightarrow>
         t (resolve (path_join (path_join sitePath ''dist'') ''index.html'')) = None \<Longrightarrow>
           fst (createPreview E dir sitePath ident w) = Inl (ArtifactNotFound ''index.html'')
         \<and> tree (snd (createPreview E dir sitePath ident w)) = t
         \<and> run_events (createPreview E dir sitePath ident) w
             = [Event (Readdir sitePath) True, Event (Exec ''npm install'' sitePath) True,
                Event (Exec ''npm run build'' sitePath) True,
                Event (PathExists (path_join sitePath ''dist'')) True,
                Event (PathExists (path_join (path_join sitePath ''dist'') ''index.html'')) False]"
    by (simp add: cp bv bind_def Let_def run_events_def)
  show "succeeded out \<Longrightarrow> t (resolve (path_join sitePath ''dist'')) \<noteq> None \<Longrightarrow>
         fst (createPreview E dir sitePath ident w) = Inl e \<Longrightarrow>
           (\<exists>c m. e = IoError c m) \<or> e = ArtifactNotFound ''index.html''"
    using publish_errors [of E dir sitePath ident _ e]
    by (auto simp: cp(1) bv bind_def Let_def split: if_splits)
qed

subsection \<open>The create handler after a successful preparation\<close>

lemma create_try_events:
  "run_events (create_try E dir req) w
   = run_events (prepare E dir req) w
     @ (case prepare E dir req w of
          (Inl e, w1) \<Rightarrow> []
        | (Inr u, w1) \<Rightarrow>
            run_events (createPreview E dir (path_join (PREVIEW_DIR dir) (req_id req)) (req_id req)) w1)"
  by (simp add: create_try_def Let_def run_events_bind)

lemma trace_create_handler:
  "trace (snd (create_handler E dir req w)) = trace w @ run_events (create_handler E dir req) w"
proof -
  have t: "trace (snd (create_try E dir req w)) = trace w @ run_events (create_try E dir req) w"
    by (rule appends_trace) simp
  show ?thesis
    unfolding run_events_create_handler
    by (simp add: create_handler_world Let_def remove_def trace_perform t)
qed

lemma create_handler_after_prepare:
  assumes "prepare E dir req w0 = (Inr u, w)"
  shows "fst (create_handler E dir req w0)
         = (case fst (createPreview E dir (path_join (PREVIEW_DIR dir) (req_id req)) (req_id req) w) of
              Inr r \<Rightarrow> Json r | Inl e \<Rightarrow> Status500 (message e))"
    and "run_events (create_handler E dir req) w0
         = run_events (prepare E dir req) w0
           @ run_events (createPreview E dir (path_join (PREVIEW_DIR dir) (req_id req)) (req_id req)) w
           @ (if cleanup_guard dir (path_join (PREVIEW_DIR dir) (req_id req))
                   (path_join (PUBLIC_DIR dir) (req_id req))
              then [Event (Remove (path_join (PREVIEW_DIR dir) (req_id req)))
                      (io_env E (Remove (path_join (PREVIEW_DIR dir) (req_id req)))
                         (snd (create_try E dir req w0)) = Done)]
              else [])"
    and "absolute dir \<Longrightarrow> prefix (resolve (path_join (PUBLIC_DIR dir) (req_id req))) q \<Longrightarrow>
         tree (snd (create_handler E dir req w0)) q
         = tree (snd (createPreview E dir (path_join (PREVIEW_DIR dir) (req_id req)) (req_id req) w)) q"
proof -
  note ct = create_try_after_prepare [OF assms]
  show "fst (create_handler E dir req w0)
         = (case fst (createPreview E dir (path_join (PREVIEW_DIR dir) (req_id req)) (req_id req) w) of
              Inr r \<Rightarrow> Json r | Inl e \<Rightarrow> Status500 (message e))"
    by (simp add: create_handler_response ct)
  show "run_events (create_handler E dir req) w0
         = run_events (prepare E dir req) w0
           @ run_events (createPreview E dir (path_join (PREVIEW_DIR dir) (req_id req)) (req_id req)) w
           @ (if cleanup_guard dir (path_join (PREVIEW_DIR dir) (req_id req))
                   (path_join (PUBLIC_DIR dir) (req_id req))
              then [Event (Remove (path_join (PREVIEW_DIR dir) (req_id req)))
                      (io_env E (Remove (path_join (PREVIEW_DIR dir) (req_id req)))
                         (snd (create_try E dir req w0)) = Done)]
              else [])"
    using assms by (simp add: run_events_create_handler create_try_events Let_def)
  show "absolute dir \<Longrightarrow> prefix (resolve (path_join (PUBLIC_DIR dir) (req_id req))) q \<Longrightarrow>
         tree (snd (create_handler E dir req w0)) q
         = tree (snd (createPreview E dir (path_join (PREVIEW_DIR dir) (req_id req)) (req_id req) w)) q"
    using create_handler_public_frame [of dir req q E w0] by (simp add: ct)
qed

text \<open>
  A request that stays out of the public directory of its id, served with commands that
  leave that directory alone: when the build fails before the verification has
  succeeded, the directory is as it was at the start of the request.
\<close>

lemma unpublished_public_frame:
  assumes "absolute dir"
    and "path_join (PREVIEW_DIR dir) (req_id req) \<noteq> path_join (PUBLIC_DIR dir) (req_id req)"
    and "all_written_outside (resolve (path_join (PUBLIC_DIR dir) (req_id req)))
           (path_join (PREVIEW_DIR dir) (req_id req)) (req_files req)"
    and "commands_leave E (path_join (PREVIEW_DIR dir) (req_id req))
           (resolve (path_join (PUBLIC_DIR dir) (req_id req)))"
    and "prefix (resolve (path_join (PUBLIC_DIR dir) (req_id req))) q"
    and "Event (PathExists (path_join (path_join (path_join (PREVIEW_DIR dir) (req_id req)) ''dist'')
                  ''index.html'')) True
           \<notin> set (run_events (create_try E dir req) w)"
  shows "tree (snd (create_handler E dir req w)) q = tree w q"
proof -
  let ?pv = "path_join (PREVIEW_DIR dir) (req_id req)"
  obtain r1 w1 where p: "prepare E dir req w = (r1, w1)"
    by (cases "prepare E dir req w")
  have l: "tree w1 q = tree w q"
    using prepare_leaves [OF assms(1-5)] p by (auto simp: leaves_def dest: spec [of _ w])
  have "tree (snd (create_try E dir req w)) q = tree w q"
  proof (cases r1)
    case (Inl e)
    with p l show ?thesis by (simp add: create_try_def Let_def bind_def)
  next
    case (Inr u)
    with p have p': "prepare E dir req w = (Inr u, w1)" by simp
    have "Event (PathExists (path_join (path_join ?pv ''dist'') ''index.html'')) True
           \<notin> set (run_events (createPreview E dir ?pv (req_id req)) w1)"
      using assms(6) p' by (simp add: create_try_events)
    from createPreview_unverified [OF assms(4,5) this] l show ?thesis
      by (simp add: create_try_after_prepare [OF p'])
  qed
  then show ?thesis
    using create_handler_public_frame [OF assms(1,5), of E w] by simp
qed

subsection \<open>Verification before publication\<close>

text \<open>
  Two requests that reach the public directory of an id before any verification. The
  only file node of the first has a path that climbs out of the workspace:
  materialisation writes \<^verbatim>\<open>public/abc123/index.html\<close> before the build output is
  checked. The id of the second climbs out of \<^verbatim>\<open>previews\<close> into \<^verbatim>\<open>public\<close>:
  the workspace is the public directory \<^verbatim>\<open>public/abc123\<close> itself, the template is
  copied into it, the build fails, nothing is ever verified, and the guard leaves the
  directory in place.
\<close>

theorem verify_before_copy_counterexample:
  "trace (snd (create_handler example_env example_dir climbing_file_request example_world))
   = [Event (EnsureDir ''/app/previews/abc123'') True,
      Event (Copy ''/app/template'' ''/app/previews/abc123'') True,
      Event (EnsureDir ''/app/public/abc123'') True,
      Event (WriteFile ''/app/public/abc123/index.html'' ''<h1>unbuilt</h1>'') True,
      Event (Readdir ''/app/previews/abc123'') True,
      Event (Exec ''npm install'' ''/app/previews/abc123'') True,
      Event (Exec ''npm run build'' ''/app/previews/abc123'') True,
      Event (PathExists ''/app/previews/abc123/dist'') True,
      Event (PathExists ''/app/previews/abc123/dist/index.html'') True,
      Event (EnsureDir ''/app/public/abc123'') True,
      Event (Copy ''/app/previews/abc123/dist'' ''/app/public/abc123'') True,
      Event (PathExists ''/app/public/abc123/index.html'') True,
      Event (Readdir ''/app/public/abc123'') True,
      Event (Remove ''/app/previews/abc123'') True]
   \<and> tree example_world [''app'', ''public'', ''abc123''] = None
   \<and> trace (snd (create_handler build_fails_env example_dir climbing_id_request example_world))
     = [Event (EnsureDir ''/app/public/abc123'') True,
        Event (Copy ''/app/template'' ''/app/public/abc123'') True,
        Event (Readdir ''/app/public/abc123'') True,
        Event (Exec ''npm install'' ''/app/public/abc123'') True,
        Event (Exec ''npm run build'' ''/app/public/abc123'') False]
   \<and> fst (create_handler build_fails_env example_dir climbing_id_request example_world)
     = Status500 (''Command failed: npm run build'' @ [newline] @ ''error TS2304'')
   \<and> tree (snd (create_handler build_fails_env example_dir climbing_id_request example_world))
        [''app'', ''public'', ''abc123'', ''package.json''] = Some (File ''{}'')"
  by code_simp

text \<open>
  Claim C1, amended. Let the server directory be absolute, let the workspace path differ
  from the public path of the id (the id does not climb out of \<^verbatim>\<open>previews\<close>), and
  let no node of the submitted tree have a path that resolves at or below the public
  directory of the id. Then the calls of the create handler only extend the trace, and
  every file-system call that may change an entry at or below the public directory of
  the id comes after the check that \<^verbatim>\<open>index.html\<close>, the one required artifact,
  exists in the build output directory has answered yes. When moreover the commands
  leave the public directory of the id alone, all that the handler does up to and with
  the checks of the build output (the \<^verbatim>\<open>try\<close> block is this followed by the
  publishing) leaves every entry at and below the public directory of the id as it was
  when the request started; and when the check of \<^verbatim>\<open>index.html\<close> has not answered
  yes, these entries are still so at the response. When the handler responds with the serving path, the nine calls
  of \<^verbatim>\<open>createPreview\<close> were made in order, all successful (the copy is followed by
  the check of \<^verbatim>\<open>index.html\<close> at the destination), followed by nothing but the
  removal of the workspace, and \<^verbatim>\<open>index.html\<close> is at the destination in the world
  at the response. What a request does that climbs into the public directory of its id
  is not part of the statement.
\<close>

theorem verify_before_copy:
  assumes "absolute dir"
    and "path_join (PREVIEW_DIR dir) (req_id req) \<noteq> path_join (PUBLIC_DIR dir) (req_id req)"
    and "all_written_outside (resolve (path_join (PUBLIC_DIR dir) (req_id req)))
           (path_join (PREVIEW_DIR dir) (req_id req)) (req_files req)"
  shows "let previewPath = path_join (PREVIEW_DIR dir) (req_id req);
             publicOutputPath = path_join (PUBLIC_DIR dir) (req_id req);
             dist = path_join previewPath ''dist'';
             verified = Event (PathExists (path_join dist ''index.html'')) True;
             checked = bind (prepare E dir req) (\<lambda>u. until_verified E previewPath);
             served = create_handler E dir req w;
             evs = run_events (create_handler E dir req) w
         in trace (snd served) = trace w @ evs
          \<and> preceded_by (\<lambda>e. writes_below (resolve publicOutputPath) (call_of e))
               (\<lambda>e. e = verified) evs
          \<and> create_try E dir req = bind checked (\<lambda>u. publish E dir previewPath (req_id req))
          \<and> (commands_leave E previewPath (resolve publicOutputPath) \<longrightarrow>
                (\<forall>q. prefix (resolve publicOutputPath) q \<longrightarrow>
                   tree (snd (checked w)) q = tree w q
                 \<and> (verified \<notin> set evs \<longrightarrow> tree (snd served) q = tree w q)))
          \<and> (\<forall>r. fst served = Json r \<longrightarrow>
                r = \<lparr>url = ''/preview/'' @ req_id req, preview_id = req_id req\<rparr>
              \<and> (\<exists>before after.
                    evs = before
                          @ [Event (Readdir previewPath) True,
                             Event (Exec ''npm install'' previewPath) True,
                             Event (Exec ''npm run build'' previewPath) True,
                             Event (PathExists dist) True,
                             verified,
                             Event (EnsureDir publicOutputPath) True,
                             Event (Copy dist publicOutputPath) True,
                             Event (PathExists (path_join publicOutputPath ''index.html'')) True,
                             Event (Readdir publicOutputPath) True]
                          @ after
                  \<and> (\<forall>e \<in> set after. call_of e = Remove previewPath))
              \<and> tree (snd served) (resolve (path_join publicOutputPath ''index.html'')) \<noteq> None)"
proof -
  let ?pv = "path_join (PREVIEW_DIR dir) (req_id req)"
  let ?pb = "path_join (PUBLIC_DIR dir) (req_id req)"
  let ?dist = "path_join ?pv ''dist''"
  let ?V = "Event (PathExists (path_join ?dist ''index.html'')) True"
  let ?Q = "\<lambda>e. writes_below (resolve ?pb) (call_of e)"
  let ?P = "\<lambda>e. e = ?V"
  let ?cleanup = "if cleanup_guard dir ?pv ?pb
                  then [Event (Remove ?pv) (io_env E (Remove ?pv) (snd (create_try E dir req w)) = Done)]
                  else []"
  let ?evs = "run_events (create_handler E dir req) w"
  obtain r1 w1 where p: "prepare E dir req w = (r1, w1)"
    by (cases "prepare E dir req w")
  have evs: "?evs = run_events (create_try E dir req) w @ ?cleanup"
    by (simp add: run_events_create_handler Let_def)
  have a: "trace (snd (create_handler E dir req w)) = trace w @ ?evs"
    by (rule trace_create_handler)
  have nq: "\<forall>e \<in> set (run_events (prepare E dir req) w). \<not> ?Q e"
    using prepare_order [OF assms, of E] by (simp add: only_calls_def)
  have nc: "\<forall>e \<in> set ?cleanup. \<not> ?Q e"
    using workspace_public_apart [OF assms(1,2)] by simp
  have cp: "preceded_by ?Q ?P (run_events (createPreview E dir ?pv (req_id req)) w')" for w'
    by (rule preceded_by_mono [OF createPreview_order]) (cases rule: event.exhaust, simp add: writes_below_writes)
  have "preceded_by ?Q ?P (run_events (create_try E dir req) w)"
    unfolding create_try_events
  proof (rule preceded_by_prepend [OF nq])
    show "preceded_by ?Q ?P
            (case prepare E dir req w of
               (Inl e, w1) \<Rightarrow> []
             | (Inr u, w1) \<Rightarrow> run_events (createPreview E dir ?pv (req_id req)) w1)"
      using p cp by (cases r1) (simp_all add: preceded_by_def)
  qed
  then have b: "preceded_by ?Q ?P ?evs"
    unfolding evs using nc by (rule preceded_by_extend)
  have s: "create_try E dir req
           = bind (bind (prepare E dir req) (\<lambda>u. until_verified E ?pv))
               (\<lambda>u. publish E dir ?pv (req_id req))"
    by (simp add: create_try_def Let_def createPreview_stages bind_assoc)
  have k: "tree (snd (bind (prepare E dir req) (\<lambda>u. until_verified E ?pv) w)) q = tree w q"
    if cl: "commands_leave E ?pv (resolve ?pb)" and pq: "prefix (resolve ?pb) q" for q
  proof -
    have "leaves q (bind (prepare E dir req) (\<lambda>u. until_verified E ?pv))"
      using prepare_leaves [OF assms cl pq] until_verified_leaves [OF cl pq]
      by (intro leaves_bind)
    then show ?thesis by (simp add: leaves_def)
  qed
  have c: "tree (snd (create_handler E dir req w)) q = tree w q"
    if "commands_leave E ?pv (resolve ?pb)" and "prefix (resolve ?pb) q" and "?V \<notin> set ?evs" for q
  proof (rule unpublished_public_frame [OF assms])
    show "commands_leave E ?pv (resolve ?pb)" using that by simp
    show "prefix (resolve ?pb) q" using that by simp
    show "?V \<notin> set (run_events (create_try E dir req) w)"
      using that unfolding evs by simp
  qed
  have d: "r = \<lparr>url = ''/preview/'' @ req_id req, preview_id = req_id req\<rparr>
         \<and> (\<exists>before after.
               ?evs = before
                     @ [Event (Readdir ?pv) True,
                        Event (Exec ''npm install'' ?pv) True,
                        Event (Exec ''npm run build'' ?pv) True,
                        Event (PathExists ?dist) True,
                        ?V,
                        Event (EnsureDir ?pb) True,
                        Event (Copy ?dist ?pb) True,
                        Event (PathExists (path_join ?pb ''index.html'')) True,
                        Event (Readdir ?pb) True]
                     @ after
             \<and> (\<forall>e \<in> set after. call_of e = Remove ?pv))
         \<and> tree (snd (create_handler E dir req w)) (resolve (path_join ?pb ''index.html'')) \<noteq> None"
    if j: "fst (create_handler E dir req w) = Json r" for r
  proof -
    from j have "fst (create_try E dir req w) = Inr r"
      by (simp add: create_handler_response split: sum.splits)
    then obtain w' where "create_try E dir req w = (Inr r, w')"
      by (cases "create_try E dir req w") auto
    then obtain u w0 where p': "prepare E dir req w = (Inr u, w0)"
      and c': "createPreview E dir ?pv (req_id req) w0 = (Inr r, w')"
      unfolding create_try_def Let_def bind_Inr_iff by auto
    note h = create_handler_after_prepare [OF p']
    have q: "prefix (resolve ?pb) (resolve (path_join ?pb ''index.html''))"
      using resolve_subdir [OF absolute_PUBLIC_DIR [OF assms(1)], of "''index.html''" "req_id req"]
      by (simp add: slash_def)
    have "tree (snd (create_handler E dir req w)) (resolve (path_join ?pb ''index.html'')) \<noteq> None"
      using h(3) [OF assms(1) q] createPreview_Inr(3) [OF c'] c' by simp
    moreover have "r = \<lparr>url = ''/preview/'' @ req_id req, preview_id = req_id req\<rparr>"
      using createPreview_Inr(1) [OF c'] .
    moreover have "?evs = run_events (prepare E dir req) w
                     @ [Event (Readdir ?pv) True,
                        Event (Exec ''npm install'' ?pv) True,
                        Event (Exec ''npm run build'' ?pv) True,
                        Event (PathExists ?dist) True,
                        ?V,
                        Event (EnsureDir ?pb) True,
                        Event (Copy ?dist ?pb) True,
                        Event (PathExists (path_join ?pb ''index.html'')) True,
                        Event (Readdir ?pb) True]
                     @ ?cleanup"
      using h(2) createPreview_Inr(2) [OF c'] by simp
    moreover have "\<forall>e \<in> set ?cleanup. call_of e = Remove ?pv"
      by simp
    ultimately show ?thesis by blast
  qed
  show ?thesis
    unfolding Let_def using a b s k c d by (intro conjI impI allI) blast+
qed

theorem verify_before_copy_witness:
  "absolute example_dir
   \<and> path_join (PREVIEW_DIR example_dir) (req_id scenario_request)
       \<noteq> path_join (PUBLIC_DIR example_dir) (req_id scenario_request)
   \<and> all_written_outside (resolve (path_join (PUBLIC_DIR example_dir) (req_id scenario_request)))
        (path_join (PREVIEW_DIR example_dir) (req_id scenario_request)) (req_files scenario_request)
   \<and> fst (create_handler example_env example_dir scenario_request example_world)
       = Json \<lparr>url = ''/preview/abc123'', preview_id = ''abc123''\<rparr>
   \<and> preceded_by
        (\<lambda>e. writes_below (resolve (path_join (PUBLIC_DIR example_dir) (req_id scenario_request)))
                (call_of e))
        (\<lambda>e. e = Event (PathExists (path_join (path_join (path_join (PREVIEW_DIR example_dir)
                         (req_id scenario_request)) ''dist'') ''index.html'')) True)
        (run_events (create_handler example_env example_dir scenario_request) example_world)
   \<and> tree (snd (create_handler example_env example_dir scenario_request example_world))
        (resolve (path_join (path_join (PUBLIC_DIR example_dir) (req_id scenario_request))
                   ''index.html'')) \<noteq> None
   \<and> commands_leave no_index_env (path_join (PREVIEW_DIR example_dir) (req_id scenario_request))
        (resolve (path_join (PUBLIC_DIR example_dir) (req_id scenario_request)))
   \<and> tree (snd (create_handler no_index_env example_dir scenario_request example_world))
        [''app'', ''public'', ''abc123''] = tree example_world [''app'', ''public'', ''abc123'']"
proof -
  let ?pv = "path_join (PREVIEW_DIR example_dir) (req_id scenario_request)"
  let ?pb = "path_join (PUBLIC_DIR example_dir) (req_id scenario_request)"
  let ?V = "Event (PathExists (path_join (path_join ?pv ''dist'') ''index.html'')) True"
  have a: "absolute example_dir"
    by code_simp
  have n: "?pv \<noteq> ?pb"
    by code_simp
  have o: "all_written_outside (resolve ?pb) ?pv (req_files scenario_request)"
    by code_simp
  have j: "fst (create_handler example_env example_dir scenario_request example_world)
           = Json \<lparr>url = ''/preview/abc123'', preview_id = ''abc123''\<rparr>"
    by code_simp
  have rp: "resolve ?pb = [''app'', ''public'', ''abc123'']"
    by code_simp
  have pvs: "?pv = ''/app/previews/abc123''"
    by code_simp
  have rd: "resolve (path_join ''/app/previews/abc123'' ''dist'') = [''app'', ''previews'', ''abc123'', ''dist'']"
    by code_simp
  have cl: "commands_leave no_index_env ?pv (resolve ?pb)"
    unfolding commands_leave_def rp pvs
    by (auto simp: no_index_env_def rd mkdirs_def prefix_def)
  have nv: "?V \<notin> set (run_events (create_handler no_index_env example_dir scenario_request) example_world)"
    by code_simp
  have pq: "prefix (resolve ?pb) [''app'', ''public'', ''abc123'']"
    by code_simp
  note th = verify_before_copy [OF a n o, where E = example_env and w = example_world,
      unfolded Let_def]
  note th' = verify_before_copy [OF a n o, where E = no_index_env and w = example_world,
      unfolded Let_def]
  have b: "preceded_by (\<lambda>e. writes_below (resolve ?pb) (call_of e)) (\<lambda>e. e = ?V)
             (run_events (create_handler example_env example_dir scenario_request) example_world)"
    using th [THEN conjunct2, THEN conjunct1] .
  have d: "tree (snd (create_handler example_env example_dir scenario_request example_world))
             (resolve (path_join ?pb ''index.html'')) \<noteq> None"
    using th [THEN conjunct2, THEN conjunct2, THEN conjunct2, THEN conjunct2, rule_format, OF j]
    by blast
  have c: "tree (snd (create_handler no_index_env example_dir scenario_request example_world))
             [''app'', ''public'', ''abc123''] = tree example_world [''app'', ''public'', ''abc123'']"
    using th' [THEN conjunct2, THEN conjunct2, THEN conjunct2, THEN conjunct1, rule_format,
        OF cl pq, THEN conjunct2, rule_format, OF nv] .
  show ?thesis
    using a n o j b d cl c by (intro conjI)
qed

subsection \<open>Failures of the build block, seen from the handler\<close>

lemma failed_build_public_frame:
  assumes "prepare E dir req w0 = (Inr u, w)"
    and "until_installed E (path_join (PREVIEW_DIR dir) (req_id req)) w = (Inr r1, w2)"
    and "exec_env E ''npm run build'' (path_join (PREVIEW_DIR dir) (req_id req)) w2 = (out, t)"
    and "tree (snd (createPreview E dir (path_join (PREVIEW_DIR dir) (req_id req)) (req_id req) w)) = t"
    and "absolute dir"
    and "path_join (PREVIEW_DIR dir) (req_id req) \<noteq> path_join (PUBLIC_DIR dir) (req_id req)"
    and "all_written_outside (resolve (path_join (PUBLIC_DIR dir) (req_id req)))
           (path_join (PREVIEW_DIR dir) (req_id req)) (req_files req)"
    and "commands_leave E (path_join (PREVIEW_DIR dir) (req_id req))
           (resolve (path_join (PUBLIC_DIR dir) (req_id req)))"
    and "prefix (resolve (path_join (PUBLIC_DIR dir) (req_id req))) q"
  shows "tree (snd (create_handler E dir req w0)) q = tree w0 q"
proof -
  have "tree (snd (create_handler E dir req w0)) q = t q"
    using create_handler_after_prepare(3) [OF assms(1,5,9)] assms(4) by simp
  also have "t q = tree w2 q"
    using assms(3,8,9)
    by (auto simp: commands_leave_def dest!: spec [of _ "''npm run build''"] spec [of _ w2])
  also have "tree w2 q = tree w q"
    using until_installed_leaves [OF assms(8,9)] assms(2)
    by (auto simp: leaves_def dest: spec [of _ w])
  also have "tree w q = tree w0 q"
    using prepare_leaves [OF assms(5-9)] assms(1)
    by (auto simp: leaves_def dest: spec [of _ w0])
  finally show ?thesis .
qed

text \<open>
  A request whose file node climbs into the public directory of its id, served in an
  environment whose build leaves \<^verbatim>\<open>dist\<close> without \<^verbatim>\<open>index.html\<close>: the handler
  answers with the verification error, and the public directory of the id, absent when
  the request started, exists and holds the submitted file.
\<close>

theorem missing_entry_point_counterexample:
  "fst (create_handler no_index_env example_dir climbing_file_request example_world)
     = Status500 ''Required build artifact not found: index.html''
   \<and> trace (snd (create_handler no_index_env example_dir climbing_file_request example_world))
     = [Event (EnsureDir ''/app/previews/abc123'') True,
        Event (Copy ''/app/template'' ''/app/previews/abc123'') True,
        Event (EnsureDir ''/app/public/abc123'') True,
        Event (WriteFile ''/app/public/abc123/index.html'' ''<h1>unbuilt</h1>'') True,
        Event (Readdir ''/app/previews/abc123'') True,
        Event (Exec ''npm install'' ''/app/previews/abc123'') True,
        Event (Exec ''npm run build'' ''/app/previews/abc123'') True,
        Event (PathExists ''/app/previews/abc123/dist'') True,
        Event (PathExists ''/app/previews/abc123/dist/index.html'') False,
        Event (Remove ''/app/previews/abc123'') True]
   \<and> tree example_world [''app'', ''public'', ''abc123''] = None
   \<and> tree (snd (create_handler no_index_env example_dir climbing_file_request example_world))
        [''app'', ''public'', ''abc123''] = Some Dir
   \<and> tree (snd (create_handler no_index_env example_dir climbing_file_request example_world))
        [''app'', ''public'', ''abc123'', ''index.html''] = Some (File ''<h1>unbuilt</h1>'')"
  by code_simp

text \<open>
  Claim C3, amended. Let the preparation of the workspace succeed, let
  \<^verbatim>\<open>createPreview\<close> list the workspace, install and build successfully, and let the
  world the build command leaves have something at \<^verbatim>\<open>dist\<close> and nothing at
  \<^verbatim>\<open>dist/index.html\<close>. Then \<^verbatim>\<open>createPreview\<close> throws the verification error
  that names \<^verbatim>\<open>index.html\<close> and the handler answers with status 500 and that
  message; after the calls of the preparation the handler makes the five calls listed,
  none of which writes, and then at most the removal of the workspace. When moreover the
  server directory is absolute, the workspace path differs from the public path of the
  id, no node of the submitted tree has a path that resolves at or below the public
  directory of the id, and the commands leave that directory alone, every entry at and
  below the public directory of the id is as it was when the request started: no public
  artifact directory is created. What a request leaves there that climbs into the public
  directory of its id is not part of the statement.
\<close>

theorem missing_entry_point:
  assumes "prepare E dir req w0 = (Inr (), w)"
    and "until_built E (path_join (PREVIEW_DIR dir) (req_id req)) w = (Inr r, wb)"
    and "tree wb (resolve (path_join (path_join (PREVIEW_DIR dir) (req_id req)) ''dist'')) \<noteq> None"
    and "tree wb (resolve (path_join (path_join (path_join (PREVIEW_DIR dir) (req_id req)) ''dist'')
                             ''index.html'')) = None"
  shows "let previewPath = path_join (PREVIEW_DIR dir) (req_id req);
             publicOutputPath = path_join (PUBLIC_DIR dir) (req_id req);
             dist = path_join previewPath ''dist'';
             served = create_handler E dir req w0
         in fst (createPreview E dir previewPath (req_id req) w) = Inl (ArtifactNotFound ''index.html'')
          \<and> fst served = Status500 ''Required build artifact not found: index.html''
          \<and> run_events (create_handler E dir req) w0
              = run_events (prepare E dir req) w0
                @ [Event (Readdir previewPath) True,
                   Event (Exec ''npm install'' previewPath) True,
                   Event (Exec ''npm run build'' previewPath) True,
                   Event (PathExists dist) True,
                   Event (PathExists (path_join dist ''index.html'')) False]
                @ (if cleanup_guard dir previewPath publicOutputPath
                   then [Event (Remove previewPath)
                           (io_env E (Remove previewPath) (snd (create_try E dir req w0)) = Done)]
                   else [])
          \<and> (absolute dir \<and> previewPath \<noteq> publicOutputPath
              \<and> all_written_outside (resolve publicOutputPath) previewPath (req_files req)
              \<and> commands_leave E previewPath (resolve publicOutputPath) \<longrightarrow>
                (\<forall>q. prefix (resolve publicOutputPath) q \<longrightarrow> tree (snd served) q = tree w0 q))"
proof -
  let ?pv = "path_join (PREVIEW_DIR dir) (req_id req)"
  let ?pb = "path_join (PUBLIC_DIR dir) (req_id req)"
  from assms(2) obtain r1 w2 t where ui: "until_installed E ?pv w = (Inr r1, w2)"
    and ex: "exec_env E ''npm run build'' ?pv w2 = (Exited r, t)" and z: "exitStatus r = 0"
    and t: "tree wb = t"
    by (rule until_built_installed)
  have s: "succeeded (Exited r)" using z by simp
  have o: "fst (createPreview E dir ?pv (req_id req) w) = Inl (ArtifactNotFound ''index.html'')
         \<and> tree (snd (createPreview E dir ?pv (req_id req) w)) = t
         \<and> run_events (createPreview E dir ?pv (req_id req)) w
             = [Event (Readdir ?pv) True, Event (Exec ''npm install'' ?pv) True,
                Event (Exec ''npm run build'' ?pv) True,
                Event (PathExists (path_join ?pv ''dist'')) True,
                Event (PathExists (path_join (path_join ?pv ''dist'') ''index.html'')) False]"
    using createPreview_build_outcome(3) [OF ui ex s, where dir = dir and ident = "req_id req"]
      assms(3,4) t by simp
  note h = create_handler_after_prepare [OF assms(1)]
  have a: "fst (create_handler E dir req w0) = Status500 ''Required build artifact not found: index.html''"
    using h(1) o by simp
  have b: "run_events (create_handler E dir req) w0
              = run_events (prepare E dir req) w0
                @ [Event (Readdir ?pv) True,
                   Event (Exec ''npm install'' ?pv) True,
                   Event (Exec ''npm run build'' ?pv) True,
                   Event (PathExists (path_join ?pv ''dist'')) True,
                   Event (PathExists (path_join (path_join ?pv ''dist'') ''index.html'')) False]
                @ (if cleanup_guard dir ?pv ?pb
                   then [Event (Remove ?pv) (io_env E (Remove ?pv) (snd (create_try E dir req w0)) = Done)]
                   else [])"
    using h(2) o by simp
  have c: "tree (snd (create_handler E dir req w0)) q = tree w0 q"
    if "absolute dir \<and> ?pv \<noteq> ?pb \<and> all_written_outside (resolve ?pb) ?pv (req_files req)
        \<and> commands_leave E ?pv (resolve ?pb)" and "prefix (resolve ?pb) q" for q
    using failed_build_public_frame [OF assms(1) ui ex _ _ _ _ _ that(2)] o that(1) by blast
  show ?thesis
    unfolding Let_def using o a b c by blast
qed

theorem missing_entry_point_witness:
  "let site = path_join (PREVIEW_DIR example_dir) (req_id scenario_request);
       pub = path_join (PUBLIC_DIR example_dir) (req_id scenario_request);
       prepared = snd (prepare no_index_env example_dir scenario_request example_world);
       built = snd (until_built no_index_env site prepared);
       served = create_handler no_index_env example_dir scenario_request example_world
   in fst (prepare no_index_env example_dir scenario_request example_world) = Inr ()
    \<and> fst (until_built no_index_env site prepared)
        = Inr \<lparr>exitStatus = 0, stdout = [], stderr = []\<rparr>
    \<and> tree built (resolve (path_join site ''dist'')) = Some Dir
    \<and> tree built (resolve (path_join (path_join site ''dist'') ''index.html'')) = None
    \<and> absolute example_dir \<and> site \<noteq> pub
    \<and> all_written_outside (resolve pub) site (req_files scenario_request)
    \<and> commands_leave no_index_env site (resolve pub)
    \<and> fst served = Status500 ''Required build artifact not found: index.html''
    \<and> tree (snd served) [''app'', ''public'', ''abc123'']
        = tree example_world [''app'', ''public'', ''abc123'']
    \<and> tree example_world [''app'', ''public'', ''abc123''] = None"
proof -
  let ?site = "path_join (PREVIEW_DIR example_dir) (req_id scenario_request)"
  let ?pub = "path_join (PUBLIC_DIR example_dir) (req_id scenario_request)"
  let ?prepared = "snd (prepare no_index_env example_dir scenario_request example_world)"
  let ?built = "snd (until_built no_index_env ?site ?prepared)"
  have p: "fst (prepare no_index_env example_dir scenario_request example_world) = Inr ()"
    by code_simp
  have u: "fst (until_built no_index_env ?site ?prepared)
           = Inr \<lparr>exitStatus = 0, stdout = [], stderr = []\<rparr>"
    by code_simp
  have d: "tree ?built (resolve (path_join ?site ''dist'')) = Some Dir"
    by code_simp
  have n: "tree ?built (resolve (path_join (path_join ?site ''dist'') ''index.html'')) = None"
    by code_simp
  have a: "absolute example_dir"
    by code_simp
  have ne: "?site \<noteq> ?pub"
    by code_simp
  have o: "all_written_outside (resolve ?pub) ?site (req_files scenario_request)"
    by code_simp
  have rp: "resolve ?pub = [''app'', ''public'', ''abc123'']"
    by code_simp
  have pvs: "?site = ''/app/previews/abc123''"
    by code_simp
  have rd: "resolve (path_join ''/app/previews/abc123'' ''dist'') = [''app'', ''previews'', ''abc123'', ''dist'']"
    by code_simp
  have cl: "commands_leave no_index_env ?site (resolve ?pub)"
    unfolding commands_leave_def rp pvs
    by (auto simp: no_index_env_def rd mkdirs_def prefix_def)
  have pq: "prefix (resolve ?pub) [''app'', ''public'', ''abc123'']"
    by code_simp
  have e: "tree example_world [''app'', ''public'', ''abc123''] = None"
    by code_simp
  have p': "prepare no_index_env example_dir scenario_request example_world = (Inr (), ?prepared)"
    using p by (simp add: prod_eq_iff)
  have u': "until_built no_index_env ?site ?prepared
            = (Inr \<lparr>exitStatus = 0, stdout = [], stderr = []\<rparr>, ?built)"
    using u by (simp add: prod_eq_iff)
  have d': "tree ?built (resolve (path_join ?site ''dist'')) \<noteq> None"
    using d by simp
  note th = missing_entry_point [OF p' u' d' n, unfolded Let_def]
  have s: "fst (create_handler no_index_env example_dir scenario_request example_world)
           = Status500 ''Required build artifact not found: index.html''"
    using th [THEN conjunct2, THEN conjunct1] .
  have f: "tree (snd (create_handler no_index_env example_dir scenario_request example_world))
             [''app'', ''public'', ''abc123''] = tree example_world [''app'', ''public'', ''abc123'']"
    using th [THEN conjunct2, THEN conjunct2, THEN conjunct2, rule_format,
        OF conjI [OF a conjI [OF ne conjI [OF o cl]]] pq] .
  show ?thesis
    unfolding Let_def using p u d n a ne o cl s f e by (intro conjI)
qed

text \<open>
  Three requests against the wording of claim C4. A request whose file node climbs
  into the public directory of its id, with a build that exits with status 1: the
  handler answers with the error of the command, and the public directory of the id
  holds the submitted file. A build that exits with status 0 and writes a regular file
  named \<^verbatim>\<open>dist\<close>: no \<^verbatim>\<open>dist\<close> directory exists, and the error is the
  verification error, not the error of the missing \<^verbatim>\<open>dist\<close> folder. A build that
  \<^verbatim>\<open>exec\<close> gives up on because it prints more than \<^verbatim>\<open>maxBuffer\<close> allows: the
  build stage fails, with the message of \<^verbatim>\<open>exec\<close>, without an exit status other
  than 0.
\<close>

theorem build_failure_counterexample:
  "fst (create_handler build_fails_env example_dir climbing_file_request example_world)
     = Status500 (''Command failed: npm run build'' @ [newline] @ ''error TS2304'')
   \<and> tree example_world [''app'', ''public'', ''abc123''] = None
   \<and> tree (snd (create_handler build_fails_env example_dir climbing_file_request example_world))
        [''app'', ''public'', ''abc123'', ''index.html''] = Some (File ''<h1>unbuilt</h1>'')
   \<and> tree (snd (until_built dist_file_env ''/app/previews/abc123''
                  (snd (prepare dist_file_env example_dir scenario_request example_world))))
        [''app'', ''previews'', ''abc123'', ''dist''] = Some (File ''bundle'')
   \<and> fst (create_handler dist_file_env example_dir scenario_request example_world)
     = Status500 ''Required build artifact not found: index.html''
   \<and> fst (exec_env build_aborted_env ''npm run build'' ''/app/previews/abc123'' example_world)
     = Aborted ''stdout maxBuffer length exceeded'' []
   \<and> fst (create_handler build_aborted_env example_dir scenario_request example_world)
     = Status500 ''stdout maxBuffer length exceeded''
   \<and> trace (snd (create_handler build_aborted_env example_dir scenario_request example_world))
     = [Event (EnsureDir ''/app/previews/abc123'') True,
        Event (Copy ''/app/template'' ''/app/previews/abc123'') True,
        Event (EnsureDir ''/app/previews/abc123/src'') True,
        Event (WriteFile ''/app/previews/abc123/src/App.tsx''
                 ''export default function App(){return null}'') True,
        Event (Readdir ''/app/previews/abc123'') True,
        Event (Exec ''npm install'' ''/app/previews/abc123'') True,
        Event (Exec ''npm run build'' ''/app/previews/abc123'') False,
        Event (Remove ''/app/previews/abc123'') True]"
  by code_simp

text \<open>
  Claim C4, amended. Let the preparation of the workspace succeed, let
  \<^verbatim>\<open>createPreview\<close> list the workspace and install successfully, and let the build
  command end with the outcome \<open>out\<close>, leaving the tree \<open>t\<close>. When the command
  exits with a status other than 0, \<^verbatim>\<open>createPreview\<close> throws the error of the
  command, which carries the captured standard error, and the handler answers with
  status 500 and \<^verbatim>\<open>Command failed:\<close>, the command and the standard error. When
  \<^verbatim>\<open>exec\<close> gives up on the command, \<^verbatim>\<open>createPreview\<close> throws that error, which
  carries the standard error captured so far, and the handler answers with status 500
  and its message. In both cases the build command is the last call before the removal
  of the workspace. When the command exits with status 0 and nothing exists at
  \<^verbatim>\<open>dist\<close> (neither a directory nor a file), \<^verbatim>\<open>createPreview\<close> throws the
  error of the missing \<^verbatim>\<open>dist\<close> folder, the handler answers with status 500 and
  its message, and the existence check is the last call before the removal of the
  workspace. \<^verbatim>\<open>createPreview\<close> throws a command error in the first two cases
  only, and the error of the missing folder in the third case only. In these cases the tree stays as the build command left
  it; and when moreover the server directory is absolute, the workspace path differs
  from the public path of the id, no node of the submitted tree has a path that resolves
  at or below the public directory of the id, and the commands leave that directory
  alone, every entry at and below the public directory of the id is as it was when the
  request started. What a request leaves there that climbs into the public directory of
  its id is not part of the statement.
\<close>

theorem build_failure:
  assumes "prepare E dir req w0 = (Inr (), w)"
    and "until_installed E (path_join (PREVIEW_DIR dir) (req_id req)) w = (Inr r1, w2)"
    and "exec_env E ''npm run build'' (path_join (PREVIEW_DIR dir) (req_id req)) w2 = (out, t)"
  shows "let previewPath = path_join (PREVIEW_DIR dir) (req_id req);
             publicOutputPath = path_join (PUBLIC_DIR dir) (req_id req);
             dist = path_join previewPath ''dist'';
             run = createPreview E dir previewPath (req_id req) w;
             served = create_handler E dir req w0;
             started = run_events (prepare E dir req) w0
                       @ [Event (Readdir previewPath) True,
                          Event (Exec ''npm install'' previewPath) True];
             cleanup = (if cleanup_guard dir previewPath publicOutputPath
                        then [Event (Remove previewPath)
                                (io_env E (Remove previewPath) (snd (create_try E dir req w0)) = Done)]
                        else [])
         in (\<forall>r. out = Exited r \<and> exitStatus r \<noteq> 0 \<longrightarrow>
               fst run = Inl (ExecError ''npm run build'' (exitStatus r) (stderr r))
             \<and> error_stderr (ExecError ''npm run build'' (exitStatus r) (stderr r)) = Some (stderr r)
             \<and> fst served = Status500 (''Command failed: npm run build'' @ [newline] @ stderr r))
          \<and> (\<forall>msg err. out = Aborted msg err \<longrightarrow>
               fst run = Inl (ExecAborted ''npm run build'' msg err)
             \<and> error_stderr (ExecAborted ''npm run build'' msg err) = Some err
             \<and> fst served = Status500 msg)
          \<and> (\<not> succeeded out \<longrightarrow>
               run_events (create_handler E dir req) w0
               = started @ [Event (Exec ''npm run build'' previewPath) False] @ cleanup)
          \<and> (succeeded out \<and> t (resolve dist) = None \<longrightarrow>
               fst run = Inl DistNotFound
             \<and> fst served = Status500 ''Build completed but dist folder not found''
             \<and> run_events (create_handler E dir req) w0
               = started @ [Event (Exec ''npm run build'' previewPath) True,
                            Event (PathExists dist) False] @ cleanup)
          \<and> ((\<exists>e. fst run = Inl e
                   \<and> ((\<exists>cmd code err. e = ExecError cmd code err)
                      \<or> (\<exists>cmd msg err. e = ExecAborted cmd msg err)))
               \<longleftrightarrow> \<not> succeeded out)
          \<and> (fst run = Inl DistNotFound \<longleftrightarrow> succeeded out \<and> t (resolve dist) = None)
          \<and> (\<not> succeeded out \<or> t (resolve dist) = None \<longrightarrow>
               tree (snd run) = t
             \<and> (absolute dir \<and> previewPath \<noteq> publicOutputPath
                 \<and> all_written_outside (resolve publicOutputPath) previewPath (req_files req)
                 \<and> commands_leave E previewPath (resolve publicOutputPath) \<longrightarrow>
                   (\<forall>q. prefix (resolve publicOutputPath) q \<longrightarrow> tree (snd served) q = tree w0 q)))"
proof -
  let ?pv = "path_join (PREVIEW_DIR dir) (req_id req)"
  let ?pb = "path_join (PUBLIC_DIR dir) (req_id req)"
  let ?dist = "path_join ?pv ''dist''"
  let ?run = "createPreview E dir ?pv (req_id req) w"
  let ?served = "create_handler E dir req w0"
  let ?started = "run_events (prepare E dir req) w0
                  @ [Event (Readdir ?pv) True, Event (Exec ''npm install'' ?pv) True]"
  let ?cleanup = "if cleanup_guard dir ?pv ?pb
                  then [Event (Remove ?pv) (io_env E (Remove ?pv) (snd (create_try E dir req w0)) = Done)]
                  else []"
  note o1 = createPreview_build_outcome(1) [OF assms(2,3), where dir = dir and ident = "req_id req"]
  note o2 = createPreview_build_outcome(2) [OF assms(2,3), where dir = dir and ident = "req_id req"]
  note o4 = createPreview_build_outcome(4) [OF assms(2,3), where dir = dir and ident = "req_id req"]
  note h = create_handler_after_prepare [OF assms(1)]
  have a: "fst ?run = Inl (ExecError ''npm run build'' (exitStatus r) (stderr r))
         \<and> error_stderr (ExecError ''npm run build'' (exitStatus r) (stderr r)) = Some (stderr r)
         \<and> fst ?served = Status500 (''Command failed: npm run build'' @ [newline] @ stderr r)"
    if "out = Exited r \<and> exitStatus r \<noteq> 0" for r
    using o1 h(1) that by simp
  have b: "fst ?run = Inl (ExecAborted ''npm run build'' msg err)
         \<and> error_stderr (ExecAborted ''npm run build'' msg err) = Some err
         \<and> fst ?served = Status500 msg"
    if "out = Aborted msg err" for msg err
    using o1 h(1) that by simp
  have c: "run_events (create_handler E dir req) w0
           = ?started @ [Event (Exec ''npm run build'' ?pv) False] @ ?cleanup"
    if "\<not> succeeded out"
    using o1 [OF that] h(2) by simp
  have d: "fst ?run = Inl DistNotFound
         \<and> fst ?served = Status500 ''Build completed but dist folder not found''
         \<and> run_events (create_handler E dir req) w0
           = ?started @ [Event (Exec ''npm run build'' ?pv) True, Event (PathExists ?dist) False]
             @ ?cleanup"
    if "succeeded out \<and> t (resolve ?dist) = None"
    using o2 h(1,2) that by simp
  have e1: "(\<exists>e. fst ?run = Inl e
              \<and> ((\<exists>cmd code err. e = ExecError cmd code err)
                 \<or> (\<exists>cmd msg err. e = ExecAborted cmd msg err)))
           \<longleftrightarrow> \<not> succeeded out"
  proof
    assume "\<exists>e. fst ?run = Inl e
              \<and> ((\<exists>cmd code err. e = ExecError cmd code err)
                 \<or> (\<exists>cmd msg err. e = ExecAborted cmd msg err))"
    then obtain e where e: "fst ?run = Inl e"
      and k: "(\<exists>cmd code err. e = ExecError cmd code err)
              \<or> (\<exists>cmd msg err. e = ExecAborted cmd msg err)"
      by blast
    show "\<not> succeeded out"
    proof
      assume su: "succeeded out"
      show False
      proof (cases "t (resolve ?dist) = None")
        case True
        with su d e k show False by auto
      next
        case False
        with su o4 [of e] e k show False by auto
      qed
    qed
  next
    assume "\<not> succeeded out"
    with o1 show "\<exists>e. fst ?run = Inl e
              \<and> ((\<exists>cmd code err. e = ExecError cmd code err)
                 \<or> (\<exists>cmd msg err. e = ExecAborted cmd msg err))"
      by (cases out) simp_all
  qed
  have e2: "fst ?run = Inl DistNotFound \<longleftrightarrow> succeeded out \<and> t (resolve ?dist) = None"
  proof
    assume f: "fst ?run = Inl DistNotFound"
    have su: "succeeded out"
    proof (rule ccontr)
      assume "\<not> succeeded out"
      with o1 f show False by (cases out) simp_all
    qed
    moreover have "t (resolve ?dist) = None"
    proof (rule ccontr)
      assume "t (resolve ?dist) \<noteq> None"
      with su o4 [of DistNotFound] f show False by simp
    qed
    ultimately show "succeeded out \<and> t (resolve ?dist) = None" ..
  next
    assume "succeeded out \<and> t (resolve ?dist) = None"
    with d show "fst ?run = Inl DistNotFound" by simp
  qed
  have t: "tree (snd ?run) = t" if "\<not> succeeded out \<or> t (resolve ?dist) = None"
    using o1 o2 that by (cases "succeeded out") simp_all
  have g: "tree (snd ?served) q = tree w0 q"
    if "\<not> succeeded out \<or> t (resolve ?dist) = None"
      and "absolute dir \<and> ?pv \<noteq> ?pb \<and> all_written_outside (resolve ?pb) ?pv (req_files req)
           \<and> commands_leave E ?pv (resolve ?pb)"
      and "prefix (resolve ?pb) q" for q
    using failed_build_public_frame [OF assms(1,2,3) t [OF that(1)] _ _ _ _ that(3)] that(2) by blast
  show ?thesis
    unfolding Let_def using a b c d e1 e2 t g by (intro conjI impI allI) blast+
qed

theorem build_failure_witness:
  "let site = path_join (PREVIEW_DIR example_dir) (req_id scenario_request);
       pub = path_join (PUBLIC_DIR example_dir) (req_id scenario_request);
       prepared = snd (prepare build_fails_env example_dir scenario_request example_world);
       installed = snd (until_installed build_fails_env site prepared);
       prepared' = snd (prepare no_dist_env example_dir scenario_request example_world);
       installed' = snd (until_installed no_dist_env site prepared');
       prepared'' = snd (prepare build_aborted_env example_dir scenario_request example_world);
       installed'' = snd (until_installed build_aborted_env site prepared'')
   in fst (prepare build_fails_env example_dir scenario_request example_world) = Inr ()
    \<and> fst (until_installed build_fails_env site prepared)
        = Inr \<lparr>exitStatus = 0, stdout = [], stderr = []\<rparr>
    \<and> fst (exec_env build_fails_env ''npm run build'' site installed)
        = Exited \<lparr>exitStatus = 1, stdout = [], stderr = ''error TS2304''\<rparr>
    \<and> fst (create_handler build_fails_env example_dir scenario_request example_world)
        = Status500 (''Command failed: npm run build'' @ [newline] @ ''error TS2304'')
    \<and> absolute example_dir \<and> site \<noteq> pub
    \<and> all_written_outside (resolve pub) site (req_files scenario_request)
    \<and> commands_leave build_fails_env site (resolve pub)
    \<and> tree (snd (create_handler build_fails_env example_dir scenario_request example_world))
        [''app'', ''public'', ''abc123''] = tree example_world [''app'', ''public'', ''abc123'']
    \<and> tree example_world [''app'', ''public'', ''abc123''] = None
    \<and> fst (prepare no_dist_env example_dir scenario_request example_world) = Inr ()
    \<and> fst (until_installed no_dist_env site prepared')
        = Inr \<lparr>exitStatus = 0, stdout = [], stderr = []\<rparr>
    \<and> tree installed' (resolve (path_join site ''dist'')) = None
    \<and> fst (create_handler no_dist_env example_dir scenario_request example_world)
        = Status500 ''Build completed but dist folder not found''
    \<and> fst (prepare build_aborted_env example_dir scenario_request example_world) = Inr ()
    \<and> fst (until_installed build_aborted_env site prepared'')
        = Inr \<lparr>exitStatus = 0, stdout = [], stderr = []\<rparr>
    \<and> fst (exec_env build_aborted_env ''npm run build'' site installed'')
        = Aborted ''stdout maxBuffer length exceeded'' []
    \<and> fst (create_handler build_aborted_env example_dir scenario_request example_world)
        = Status500 ''stdout maxBuffer length exceeded''"
proof -
  let ?site = "path_join (PREVIEW_DIR example_dir) (req_id scenario_request)"
  let ?pub = "path_join (PUBLIC_DIR example_dir) (req_id scenario_request)"
  let ?prepared = "snd (prepare build_fails_env example_dir scenario_request example_world)"
  let ?installed = "snd (until_installed build_fails_env ?site ?prepared)"
  let ?r = "\<lparr>exitStatus = 1, stdout = [], stderr = ''error TS2304''\<rparr>"
  let ?prepared' = "snd (prepare no_dist_env example_dir scenario_request example_world)"
  let ?installed' = "snd (until_installed no_dist_env ?site ?prepared')"
  let ?r' = "\<lparr>exitStatus = 0, stdout = [], stderr = []\<rparr>"
  let ?prepared'' = "snd (prepare build_aborted_env example_dir scenario_request example_world)"
  let ?installed'' = "snd (until_installed build_aborted_env ?site ?prepared'')"
  have p: "fst (prepare build_fails_env example_dir scenario_request example_world) = Inr ()"
    by code_simp
  have u: "fst (until_installed build_fails_env ?site ?prepared) = Inr ?r'"
    by code_simp
  have x: "exec_env build_fails_env ''npm run build'' ?site ?installed = (Exited ?r, tree ?installed)"
    by (simp add: build_fails_env_def)
  have a: "absolute example_dir"
    by code_simp
  have ne: "?site \<noteq> ?pub"
    by code_simp
  have o: "all_written_outside (resolve ?pub) ?site (req_files scenario_request)"
    by code_simp
  have cl: "commands_leave build_fails_env ?site (resolve ?pub)"
    by (simp add: commands_leave_def build_fails_env_def)
  have pq: "prefix (resolve ?pub) [''app'', ''public'', ''abc123'']"
    by code_simp
  have e: "tree example_world [''app'', ''public'', ''abc123''] = None"
    by code_simp
  have p': "prepare build_fails_env example_dir scenario_request example_world = (Inr (), ?prepared)"
    using p by (simp add: prod_eq_iff)
  have u': "until_installed build_fails_env ?site ?prepared = (Inr ?r', ?installed)"
    using u by (simp add: prod_eq_iff)
  note th = build_failure [OF p' u' x, unfolded Let_def]
  have k: "Exited ?r = Exited ?r \<and> exitStatus ?r \<noteq> 0"
    by simp
  have s: "fst (create_handler build_fails_env example_dir scenario_request example_world)
           = Status500 (''Command failed: npm run build'' @ [newline] @ ''error TS2304'')"
    using th [THEN conjunct1, rule_format, OF k] by simp
  have f: "\<not> succeeded (Exited ?r) \<or> tree ?installed (resolve (path_join ?site ''dist'')) = None"
    by simp
  have g: "tree (snd (create_handler build_fails_env example_dir scenario_request example_world))
             [''app'', ''public'', ''abc123''] = tree example_world [''app'', ''public'', ''abc123'']"
    using th [THEN conjunct2, THEN conjunct2, THEN conjunct2, THEN conjunct2, THEN conjunct2,
        THEN conjunct2, rule_format, OF f, THEN conjunct2, rule_format,
        OF conjI [OF a conjI [OF ne conjI [OF o cl]]] pq] .
  have pn: "fst (prepare no_dist_env example_dir scenario_request example_world) = Inr ()"
    by code_simp
  have un: "fst (until_installed no_dist_env ?site ?prepared') = Inr ?r'"
    by code_simp
  have xn: "exec_env no_dist_env ''npm run build'' ?site ?installed' = (Exited ?r', tree ?installed')"
    by (simp add: no_dist_env_def)
  have dn: "tree ?installed' (resolve (path_join ?site ''dist'')) = None"
    by code_simp
  have pn': "prepare no_dist_env example_dir scenario_request example_world = (Inr (), ?prepared')"
    using pn by (simp add: prod_eq_iff)
  have un': "until_installed no_dist_env ?site ?prepared' = (Inr ?r', ?installed')"
    using un by (simp add: prod_eq_iff)
  note tn = build_failure [OF pn' un' xn, unfolded Let_def]
  have fn: "succeeded (Exited ?r') \<and> tree ?installed' (resolve (path_join ?site ''dist'')) = None"
    using dn by simp
  have hn: "fst (create_handler no_dist_env example_dir scenario_request example_world)
             = Status500 ''Build completed but dist folder not found''"
    using tn [THEN conjunct2, THEN conjunct2, THEN conjunct2, THEN conjunct1, rule_format, OF fn]
    by blast
  have x1: "fst (exec_env build_fails_env ''npm run build'' ?site ?installed) = Exited ?r"
    using x by simp
  have pa: "fst (prepare build_aborted_env example_dir scenario_request example_world) = Inr ()"
    by code_simp
  have ua: "fst (until_installed build_aborted_env ?site ?prepared'') = Inr ?r'"
    by code_simp
  have xa: "exec_env build_aborted_env ''npm run build'' ?site ?installed''
            = (Aborted ''stdout maxBuffer length exceeded'' [], tree ?installed'')"
    by (simp add: build_aborted_env_def)
  have pa': "prepare build_aborted_env example_dir scenario_request example_world = (Inr (), ?prepared'')"
    using pa by (simp add: prod_eq_iff)
  have ua': "until_installed build_aborted_env ?site ?prepared'' = (Inr ?r', ?installed'')"
    using ua by (simp add: prod_eq_iff)
  note ta = build_failure [OF pa' ua' xa, unfolded Let_def]
  have ha: "fst (create_handler build_aborted_env example_dir scenario_request example_world)
            = Status500 ''stdout maxBuffer length exceeded''"
    using ta [THEN conjunct2, THEN conjunct1, rule_format, OF refl] by blast
  have xa1: "fst (exec_env build_aborted_env ''npm run build'' ?site ?installed'')
             = Aborted ''stdout maxBuffer length exceeded'' []"
    using xa by simp
  show ?thesis
    unfolding Let_def using p u x1 s a ne o cl g e pn un dn hn pa ua xa1 ha by (intro conjI)
qed

end
